(* ===== verification/CString.thy ===== *)
theory CString
  imports Main "HOL-Library.Sublist"
begin

text \<open>
  The C strings and C library string functions that \<^verbatim>\<open>src/lib/\<close> uses.

  A NUL-terminated string is the \<^typ>\<open>string\<close> of the bytes before its NUL.
  A pointer into a string is the rest of the string from there, so the test
  \<^verbatim>\<open>*p == '\0'\<close> is the test for the empty list and \<^verbatim>\<open>p + n\<close>
  is \<^term>\<open>drop n p\<close>.
  A function that returns either its argument pointer or a buffer it filled returns a
  \<open>cptr\<close>: the callers compare the pointers, not the contents.
  A write or a read outside a buffer is \<^term>\<open>None\<close> of an option type.
\<close>

named_theorems cstr_simps "evaluation of the C string functions"
named_theorems path_intros "facts that carry bounds and well-formedness proofs"

abbreviation slash :: char where "slash \<equiv> CHR ''/''"
abbreviation star :: char where "star \<equiv> CHR ''*''"

definition MAX_PATH :: nat where
  "MAX_PATH = 4096"

datatype cptr = Same | New string

definition deref :: "string \<Rightarrow> cptr \<Rightarrow> string" where
  "deref inp p = (case p of Same \<Rightarrow> inp | New s \<Rightarrow> s)"

lemma deref_simps [simp]: "deref s Same = s" "deref s (New t) = t"
  by (simp_all add: deref_def)

section \<open>Searching\<close>

text \<open>\<open>strchr s c\<close> is the offset of the first \<open>c\<close>, \<open>strrchr\<close> of the last one.\<close>

fun strchr :: "string \<Rightarrow> char \<Rightarrow> nat option" where
  "strchr [] c = None"
| "strchr (x # xs) c = (if x = c then Some 0 else map_option Suc (strchr xs c))"

fun strrchr :: "string \<Rightarrow> char \<Rightarrow> nat option" where
  "strrchr [] c = None"
| "strrchr (x # xs) c =
     (case strrchr xs c of Some i \<Rightarrow> Some (Suc i)
      | None \<Rightarrow> if x = c then Some 0 else None)"

fun strstr :: "string \<Rightarrow> string \<Rightarrow> bool" where
  "strstr [] needle = (needle = [])"
| "strstr (x # xs) needle = (prefix needle (x # xs) \<or> strstr xs needle)"

definition strpbrk :: "string \<Rightarrow> string \<Rightarrow> bool" where
  "strpbrk s accept = list_ex (\<lambda>c. c \<in> set accept) s"

text \<open>\<^verbatim>\<open>strncmp(a, b, n) == 0\<close>\<close>

definition strncmp_eq :: "string \<Rightarrow> string \<Rightarrow> nat \<Rightarrow> bool" where
  "strncmp_eq a b n = (take n a = take n b)"

text \<open>\<^verbatim>\<open>strncpy(dst, src, n - 1); dst[n - 1] = 0\<close> on a buffer of \<open>n\<close> bytes.\<close>

definition copy_trunc :: "nat \<Rightarrow> string \<Rightarrow> string" where
  "copy_trunc n s = take (n - 1) s"

lemma strchr_Some_iff:
  "strchr s c = Some i \<longleftrightarrow> i < length s \<and> s ! i = c \<and> c \<notin> set (take i s)"
proof (induction s arbitrary: i)
  case Nil
  then show ?case by simp
next
  case (Cons x xs)
  then show ?case by (cases i) auto
qed

lemma strchr_None_iff: "strchr s c = None \<longleftrightarrow> c \<notin> set s"
  by (induction s) auto

lemma strchr_split:
  assumes "strchr s c = Some i"
  shows "s = take i s @ c # drop (Suc i) s" and "c \<notin> set (take i s)" and "i < length s"
  using assms by (auto simp: strchr_Some_iff id_take_nth_drop)

lemma strrchr_None_iff: "strrchr s c = None \<longleftrightarrow> c \<notin> set s"
  by (induction s) (auto split: option.splits)

lemma strrchr_Some_iff:
  "strrchr s c = Some i \<longleftrightarrow> i < length s \<and> s ! i = c \<and> c \<notin> set (drop (Suc i) s)"
proof (induction s arbitrary: i)
  case Nil
  then show ?case by simp
next
  case (Cons x xs)
  show ?case
  proof (cases "strrchr xs c")
    case None
    then have "c \<notin> set xs" by (simp add: strrchr_None_iff)
    with None show ?thesis by (cases i) (auto simp: in_set_conv_nth)
  next
    case (Some j)
    then have "strrchr xs c \<noteq> None" by simp
    then have "c \<in> set xs" by (simp add: strrchr_None_iff del: not_None_eq)
    with Some Cons.IH [of "i - 1"] show ?thesis by (cases i) simp_all
  qed
qed

lemma strstr_iff: "strstr s n \<longleftrightarrow> (\<exists>a b. s = a @ n @ b)"
proof (induction s)
  case Nil
  then show ?case by auto
next
  case (Cons x xs)
  have "(\<exists>a b. x # xs = a @ n @ b) \<longleftrightarrow> prefix n (x # xs) \<or> (\<exists>a b. xs = a @ n @ b)"
    by (auto simp: prefix_def Cons_eq_append_conv)
  with Cons.IH show ?case by simp
qed

lemma strpbrk_iff [simp]: "strpbrk s cs \<longleftrightarrow> set s \<inter> set cs \<noteq> {}"
  by (auto simp: strpbrk_def list_ex_iff)

lemma length_copy_trunc [path_intros]: "0 < n \<Longrightarrow> length (copy_trunc n s) < n"
  by (auto simp: copy_trunc_def)

lemma copy_trunc_id [simp]: "length s < n \<Longrightarrow> copy_trunc n s = s"
  by (simp add: copy_trunc_def)

lemma strncmp_eq_prefix: "n \<le> length a \<Longrightarrow> strncmp_eq a b n \<longleftrightarrow> prefix (take n a) b"
  by (auto simp: strncmp_eq_def prefix_def min_def)
     (metis append_take_drop_id)

lemma take_eq_take_prefix: "take (length a) b = a \<longleftrightarrow> prefix a b"
  by (metis append_eq_conv_conj append_take_drop_id prefix_def)

section \<open>Splitting at separators\<close>

text \<open>
  \<open>split_on sep seg s\<close>: the pieces of \<open>s\<close> between the separators, empty ones
  included, with \<open>seg\<close> already read of the first piece.
\<close>

fun split_on :: "(char \<Rightarrow> bool) \<Rightarrow> string \<Rightarrow> string \<Rightarrow> string list" where
  "split_on sep seg [] = [seg]"
| "split_on sep seg (c # cs) =
     (if sep c then seg # split_on sep [] cs else split_on sep (seg @ [c]) cs)"

lemma split_on_pieces:
  "\<forall>c\<in>set seg. \<not> sep c \<Longrightarrow> p \<in> set (split_on sep seg s) \<Longrightarrow> c \<in> set p \<Longrightarrow> \<not> sep c"
  by (induction sep seg s rule: split_on.induct) (auto split: if_splits)

lemma split_on_not_Nil [simp]: "split_on sep seg s \<noteq> []"
  by (induction sep seg s rule: split_on.induct) auto

lemma split_on_none: "\<forall>c\<in>set s. \<not> sep c \<Longrightarrow> split_on sep seg s = [seg @ s]"
  by (induction s arbitrary: seg) auto

lemma split_on_append:
  "\<forall>c\<in>set s. \<not> sep c \<Longrightarrow> sep d \<Longrightarrow> split_on sep seg (s @ d # r) = (seg @ s) # split_on sep [] r"
  by (induction s arbitrary: seg) auto

lemma length_split_on: "length (split_on sep seg s) = Suc (length (filter sep s))"
  by (induction sep seg s rule: split_on.induct) auto

section \<open>Evaluation\<close>

lemmas cstr_evals = strncmp_eq_def copy_trunc_def strpbrk_def deref_def

end
