(* ===== verification/PathCore.thy ===== *)
theory PathCore
  imports CString
begin

text \<open>
  The path primitives of \<^verbatim>\<open>src/lib/pathmap_common.h\<close>: the length of a path without
  its trailing slashes (\<open>pm_pathlen\<close>) and the prefix test that every mapping and every
  exclusion rests on (\<open>pm_path_prefix_matches\<close>).

  The lemmas relate them to the abstract view of a path as its list of segments:
  \<open>path_of ss\<close> is the canonical path of the segments \<open>ss\<close>, and on canonical paths
  the prefix test is the prefix order on segment lists.
\<close>

section \<open>Definitions\<close>

text \<open>\<^verbatim>\<open>while (path_length > 0 && path[path_length - 1] == '/') path_length -= 1;\<close>\<close>

fun pathlen_loop :: "string \<Rightarrow> nat \<Rightarrow> nat" where
  "pathlen_loop path 0 = 0"
| "pathlen_loop path (Suc n) = (if path ! n = slash then pathlen_loop path n else Suc n)"

definition pm_pathlen :: "string \<Rightarrow> nat" where
  "pm_pathlen path = pathlen_loop path (length path)"

definition pm_path_prefix_matches :: "string \<Rightarrow> string \<Rightarrow> bool" where
  "pm_path_prefix_matches prefx path =
     (let prefix_len = pm_pathlen prefx in
      if strncmp_eq prefx path prefix_len
      then (case drop prefix_len path of [] \<Rightarrow> True | after # _ \<Rightarrow> after = slash)
      else False)"

section \<open>The length without trailing slashes\<close>

definition strip_slashes :: "string \<Rightarrow> string" where
  "strip_slashes s = rev (dropWhile (\<lambda>c. c = slash) (rev s))"

lemma pathlen_loop_strip:
  "n \<le> length s \<Longrightarrow> pathlen_loop s n = length (strip_slashes (take n s))"
  by (induction n) (auto simp: strip_slashes_def take_Suc_conv_app_nth)

lemma pm_pathlen_strip: "pm_pathlen s = length (strip_slashes s)"
  by (simp add: pm_pathlen_def pathlen_loop_strip)

lemma strip_slashes_prefix: "prefix (strip_slashes s) s"
proof -
  have "suffix (dropWhile (\<lambda>c. c = slash) (rev s)) (rev s)"
    by (rule suffix_dropWhile)
  then show ?thesis by (simp add: strip_slashes_def suffix_to_prefix)
qed

lemma pm_pathlen_le [path_intros, simp]: "pm_pathlen s \<le> length s"
  by (simp add: pm_pathlen_strip prefix_length_le strip_slashes_prefix)

lemma take_pm_pathlen [simp]: "take (pm_pathlen s) s = strip_slashes s"
  using strip_slashes_prefix [of s] by (simp add: pm_pathlen_strip take_eq_take_prefix)

lemma strip_slashes_last: "strip_slashes s \<noteq> [] \<Longrightarrow> last (strip_slashes s) \<noteq> slash"
  using hd_dropWhile [of "\<lambda>c. c = slash" "rev s"]
  by (auto simp: strip_slashes_def last_rev)

lemma strip_slashes_id: "s = [] \<or> last s \<noteq> slash \<Longrightarrow> strip_slashes s = s"
  by (cases s rule: rev_cases) (auto simp: strip_slashes_def)

lemma strip_slashes_append_slash [simp]: "strip_slashes (s @ [slash]) = strip_slashes s"
  by (simp add: strip_slashes_def)

lemma strip_slashes_idem [simp]: "strip_slashes (strip_slashes s) = strip_slashes s"
  using strip_slashes_last strip_slashes_id by blast

section \<open>What the prefix test decides\<close>

lemma pm_path_prefix_matches_iff:
  "pm_path_prefix_matches p path \<longleftrightarrow>
     (\<exists>tail. path = strip_slashes p @ tail \<and> (tail = [] \<or> hd tail = slash))"
proof -
  have "strncmp_eq p path (pm_pathlen p) \<longleftrightarrow> prefix (strip_slashes p) path"
    by (simp add: strncmp_eq_prefix)
  moreover have "path = strip_slashes p @ tail \<Longrightarrow> drop (pm_pathlen p) path = tail" for tail
    by (simp add: pm_pathlen_strip)
  ultimately show ?thesis
    by (auto simp: pm_path_prefix_matches_def Let_def prefix_def split: list.splits)
qed

lemma prefix_matches_split:
  assumes "pm_path_prefix_matches p path"
  shows "path = strip_slashes p @ drop (pm_pathlen p) path"
    and "drop (pm_pathlen p) path = [] \<or> hd (drop (pm_pathlen p) path) = slash"
    and "pm_pathlen p \<le> length path"
  using assms by (auto simp: pm_path_prefix_matches_iff pm_pathlen_strip)

lemma strip_slashes_tail:
  obtains tail where "s = strip_slashes s @ tail" and "set tail \<subseteq> {slash}"
proof
  show "s = strip_slashes s @ rev (takeWhile (\<lambda>c. c = slash) (rev s))"
    by (metis rev_append rev_rev_ident strip_slashes_def takeWhile_dropWhile_id)
  show "set (rev (takeWhile (\<lambda>c. c = slash) (rev s))) \<subseteq> {slash}"
    by (auto dest: set_takeWhileD)
qed

lemma prefix_matches_refl [simp]: "pm_path_prefix_matches p p"
proof -
  obtain tail where t: "p = strip_slashes p @ tail" "set tail \<subseteq> {slash}"
    by (rule strip_slashes_tail)
  moreover from t(2) have "tail = [] \<or> hd tail = slash" by (cases tail) auto
  ultimately show ?thesis by (subst pm_path_prefix_matches_iff) blast
qed

lemma prefix_matches_strip [simp]:
  "pm_path_prefix_matches (strip_slashes p) path = pm_path_prefix_matches p path"
  by (simp add: pm_path_prefix_matches_iff)

section \<open>Paths as segment lists\<close>

definition seg_ok :: "string \<Rightarrow> bool" where
  "seg_ok s \<longleftrightarrow> s \<noteq> [] \<and> slash \<notin> set s"

definition path_of :: "string list \<Rightarrow> string" where
  "path_of ss = concat (map (\<lambda>s. slash # s) ss)"

lemma path_of_simps [simp]:
  "path_of [] = []"
  "path_of (s # ss) = slash # s @ path_of ss"
  "path_of (ss @ ts) = path_of ss @ path_of ts"
  by (simp_all add: path_of_def)

lemma path_of_hd: "path_of ss = [] \<or> hd (path_of ss) = slash"
  by (cases ss) auto

lemma path_of_last: "list_all seg_ok ss \<Longrightarrow> ss \<noteq> [] \<Longrightarrow> last (path_of ss) \<noteq> slash"
  by (cases ss rule: rev_cases) (auto simp: seg_ok_def, metis last_in_set)

lemma path_of_eq_Nil [simp]: "path_of ss = [] \<longleftrightarrow> ss = []" "[] = path_of ss \<longleftrightarrow> ss = []"
  by (cases ss; simp)+

lemma strip_path_of [simp]: "list_all seg_ok ss \<Longrightarrow> strip_slashes (path_of ss) = path_of ss"
  using path_of_last by (intro strip_slashes_id) auto

lemma append_seg_unique:
  assumes "s @ x = t @ y" and "slash \<notin> set s" and "slash \<notin> set t"
    and "x = [] \<or> hd x = slash" and "y = [] \<or> hd y = slash"
  shows "s = t \<and> x = y"
  using assms
proof (induction s arbitrary: t)
  case Nil
  then show ?case by (cases t) auto
next
  case (Cons c s)
  then show ?case by (cases t) auto
qed

lemma path_of_append_prefix:
  assumes "list_all seg_ok ss" and "list_all seg_ok ts"
    and "path_of ts = path_of ss @ tail" and "tail = [] \<or> hd tail = slash"
  shows "prefix ss ts"
  using assms
proof (induction ss arbitrary: ts)
  case Nil
  then show ?case by simp
next
  case (Cons s ss)
  then obtain t ts' where ts: "ts = t # ts'" by (cases ts) auto
  have "t @ path_of ts' = s @ path_of ss @ tail"
    using Cons.prems(3) ts by simp
  moreover have "path_of ss @ tail = [] \<or> hd (path_of ss @ tail) = slash"
    using Cons.prems(4) path_of_hd [of ss] by (cases "path_of ss") auto
  ultimately have "t = s \<and> path_of ts' = path_of ss @ tail"
    using Cons.prems ts path_of_hd by (intro append_seg_unique) (auto simp: seg_ok_def)
  with Cons ts show ?case by simp
qed

lemma prefix_matches_path_of:
  assumes "list_all seg_ok ss" and "list_all seg_ok ts"
  shows "pm_path_prefix_matches (path_of ss) (path_of ts) \<longleftrightarrow> prefix ss ts"
proof
  assume "pm_path_prefix_matches (path_of ss) (path_of ts)"
  then show "prefix ss ts"
    using assms path_of_append_prefix by (auto simp: pm_path_prefix_matches_iff)
next
  assume "prefix ss ts"
  then obtain us where "ts = ss @ us" by (auto simp: prefix_def)
  then show "pm_path_prefix_matches (path_of ss) (path_of ts)"
    using assms path_of_hd [of us] by (auto simp: pm_path_prefix_matches_iff)
qed

lemma prefix_matches_trans:
  assumes "pm_path_prefix_matches a (strip_slashes b)" and "pm_path_prefix_matches b c"
  shows "pm_path_prefix_matches a c"
proof -
  obtain t where t: "strip_slashes b = strip_slashes a @ t" "t = [] \<or> hd t = slash"
    using assms(1) by (auto simp: pm_path_prefix_matches_iff)
  obtain u where u: "c = strip_slashes b @ u" "u = [] \<or> hd u = slash"
    using assms(2) by (auto simp: pm_path_prefix_matches_iff)
  have "t @ u = [] \<or> hd (t @ u) = slash" using t(2) u(2) by (cases t) auto
  with t(1) u(1) show ?thesis by (auto simp: pm_path_prefix_matches_iff)
qed

lemma prefix_matches_final_slash:
  "pm_path_prefix_matches a (p @ [slash]) \<longleftrightarrow> pm_path_prefix_matches a p"
proof
  assume "pm_path_prefix_matches a (p @ [slash])"
  then obtain tail where t: "p @ [slash] = strip_slashes a @ tail" "tail = [] \<or> hd tail = slash"
    by (auto simp: pm_path_prefix_matches_iff)
  have "tail \<noteq> []"
  proof
    assume "tail = []"
    then have "strip_slashes a = p @ [slash]" using t by simp
    then show False using strip_slashes_last [of a] by simp
  qed
  then obtain t' where "tail = t' @ [slash]"
    using t(1) by (metis append_butlast_last_id last_appendR last_snoc)
  with t show "pm_path_prefix_matches a p"
    by (cases t') (auto simp: pm_path_prefix_matches_iff)
next
  assume "pm_path_prefix_matches a p"
  then obtain tail where "p = strip_slashes a @ tail" "tail = [] \<or> hd tail = slash"
    by (auto simp: pm_path_prefix_matches_iff)
  then show "pm_path_prefix_matches a (p @ [slash])"
    unfolding pm_path_prefix_matches_iff by (intro exI [of _ "tail @ [slash]"]) (cases tail; auto)
qed

section \<open>Properties\<close>

text \<open>C35: The prefix test of the tables is exact on paths: on paths written as segments it
  accepts just the paths whose segments start with those of the prefix. \<^verbatim>\<open>/usr/lib\<close>
  never matches \<^verbatim>\<open>/usr/lib64\<close>.\<close>

theorem prefix_match_is_segment_prefix:
  assumes "list_all seg_ok ss" and "list_all seg_ok ts"
  shows "pm_path_prefix_matches (path_of ss) (path_of ts) \<longleftrightarrow> prefix ss ts"
  using assms by (rule prefix_matches_path_of)

lemma prefix_match_is_segment_prefix_witness:
  "pm_path_prefix_matches (path_of [''usr'', ''lib'']) (path_of [''usr'', ''lib'', ''x''])
   \<and> \<not> pm_path_prefix_matches (path_of [''usr'', ''lib'']) (path_of [''usr'', ''lib64''])"
  using prefix_match_is_segment_prefix [of "[''usr'', ''lib'']" "[''usr'', ''lib'', ''x'']"]
    prefix_match_is_segment_prefix [of "[''usr'', ''lib'']" "[''usr'', ''lib64'']"]
  by (simp add: seg_ok_def)

end
