(* ===== verification/Normalize.thy ===== *)
theory Normalize
  imports PathCore "HOL-Library.Monad_Syntax"
begin

text \<open>
  \<^verbatim>\<open>pm_normalize_path_inplace\<close> of \<^verbatim>\<open>src/lib/pathmap_common.h\<close>: collapse
  \<^verbatim>\<open>//\<close>, \<^verbatim>\<open>/./\<close> and \<^verbatim>\<open>/../\<close> of a path in a buffer of
  \<^term>\<open>MAX_PATH\<close> bytes.

  The C code copies into \<^verbatim>\<open>char tmp[MAX_PATH]\<close> with an index \<^verbatim>\<open>ti\<close>;
  the model keeps the written part of \<^verbatim>\<open>tmp\<close> as the list \<open>out\<close>, so
  \<^verbatim>\<open>ti\<close> is its length. Only the copy of a segment's bytes checks the end of
  \<^verbatim>\<open>tmp\<close>. The write of a separator and of the final NUL do not, so they are
  \<^term>\<open>None\<close> when they would fall outside.

  \<open>resolve\<close> is the abstract specification: the segments of the path run over a stack.
\<close>

section \<open>Definitions\<close>

text \<open>\<^verbatim>\<open>tmp[ti++] = '/'\<close>\<close>

definition put_slash :: "string \<Rightarrow> string option" where
  "put_slash out = (if length out < MAX_PATH then Some (out @ [slash]) else None)"

text \<open>\<^verbatim>\<open>if (tmp[ti - 1] == '/' && ti > 1) ti--; while (ti > 0 && tmp[ti - 1] != '/') ti--;\<close>\<close>

definition unwind :: "string \<Rightarrow> string" where
  "unwind out =
     (let out = (if last out = slash \<and> 1 < length out then butlast out else out)
      in rev (dropWhile (\<lambda>c. c \<noteq> slash) (rev out)))"

text \<open>One segment of the input, at its separator or at the end of the input.\<close>

definition norm_seg :: "string \<Rightarrow> string \<Rightarrow> string option" where
  "norm_seg out seg =
     (if seg = [] then Some out
      else if seg = ''.'' then Some out
      else if seg = ''..'' then
        (let out = (if 1 < length out then unwind out else out)
         in Some (if out = [] then [slash] else out))
      else do {
        out \<leftarrow> (if out = [] \<or> last out \<noteq> slash then put_slash out else Some out);
        Some (out @ take (MAX_PATH - 1 - length out) seg)
      })"

text \<open>The loop over the input, with the bytes since \<^verbatim>\<open>seg_start\<close>.\<close>

fun norm_loop :: "string \<Rightarrow> string \<Rightarrow> string \<Rightarrow> string option" where
  "norm_loop out seg [] = norm_seg out seg"
| "norm_loop out seg (c # cs) =
     (if c = slash then do { out \<leftarrow> norm_seg out seg; norm_loop out [] cs }
      else norm_loop out (seg @ [c]) cs)"

definition pm_normalize_path_inplace :: "string \<Rightarrow> string option" where
  "pm_normalize_path_inplace path = do {
     out \<leftarrow> norm_loop (if path \<noteq> [] \<and> hd path = slash then [] else [slash]) [] path;
     let out = (if out = [] then [slash] else out);
     if length out < MAX_PATH then Some (copy_trunc MAX_PATH out) else None
   }"

section \<open>Specification: segments over a stack\<close>

abbreviation split_slash :: "string \<Rightarrow> string \<Rightarrow> string list" where
  "split_slash \<equiv> split_on (\<lambda>c. c = slash)"

definition resolve_step :: "string list \<Rightarrow> string \<Rightarrow> string list" where
  "resolve_step st seg =
     (if seg = [] \<or> seg = ''.'' then st
      else if seg = ''..'' then butlast st
      else st @ [seg])"

definition resolve :: "string \<Rightarrow> string list" where
  "resolve path = foldl resolve_step [] (split_slash [] path)"

text \<open>A buffer stands for a stack: its canonical path, perhaps with one slash more.\<close>

definition stands_for :: "string \<Rightarrow> string list \<Rightarrow> bool" where
  "stands_for out st \<longleftrightarrow>
     list_all seg_ok st \<and> (out = path_of st \<or> out = path_of st @ [slash])"

section \<open>Splitting\<close>

lemma split_slash_segs:
  "slash \<notin> set seg \<Longrightarrow> s \<in> set (split_slash seg path) \<Longrightarrow> slash \<notin> set s"
  using split_on_pieces [of seg "\<lambda>c. c = slash" s path] by blast

lemma split_slash_no_slash: "slash \<notin> set s \<Longrightarrow> split_slash seg s = [seg @ s]"
  by (rule split_on_none) auto

lemma split_slash_append:
  "slash \<notin> set s \<Longrightarrow> split_slash seg (s @ slash # cs) = (seg @ s) # split_slash [] cs"
  by (rule split_on_append) auto

lemma split_path_of:
  "list_all seg_ok ss \<Longrightarrow> slash \<notin> set s \<Longrightarrow> split_slash seg (s @ path_of ss) = (seg @ s) # ss"
proof (induction ss arbitrary: seg s)
  case Nil
  then show ?case by (simp add: split_slash_no_slash)
next
  case (Cons t ts)
  then have "split_slash [] (t @ path_of ts) = t # ts" by (auto simp: seg_ok_def)
  with Cons.prems(2) show ?case by (simp add: split_slash_append)
qed

lemma resolve_step_ok:
  "list_all seg_ok st \<Longrightarrow> slash \<notin> set seg \<Longrightarrow> list_all seg_ok (resolve_step st seg)"
  by (auto simp: resolve_step_def seg_ok_def list_all_iff dest: in_set_butlastD)

lemma foldl_resolve_ok:
  "list_all seg_ok st \<Longrightarrow> \<forall>s\<in>set segs. slash \<notin> set s \<Longrightarrow> list_all seg_ok (foldl resolve_step st segs)"
  by (induction segs arbitrary: st) (auto simp: resolve_step_ok)

lemma resolve_ok [path_intros]: "list_all seg_ok (resolve path)"
  unfolding resolve_def by (rule foldl_resolve_ok) (auto dest: split_slash_segs [rotated])

section \<open>Termination inside the buffer\<close>

lemma unwind_length: "length (unwind out) \<le> length out"
proof -
  have "length (rev (dropWhile (\<lambda>c. c \<noteq> slash) (rev xs))) \<le> length xs" for xs :: string
    using length_dropWhile_le [of "\<lambda>c. c \<noteq> slash" "rev xs"] by simp
  then show ?thesis
    by (simp add: unwind_def Let_def) (metis diff_le_self le_trans length_butlast length_rev)
qed

text \<open>
  With \<open>n\<close> bytes of input consumed, the buffer holds at most \<open>n\<close> bytes or is the
  single slash.
\<close>

definition norm_room :: "string \<Rightarrow> nat \<Rightarrow> bool" where
  "norm_room out n \<longleftrightarrow> (length out \<le> n \<or> out = [slash]) \<and> length out < MAX_PATH"

lemma norm_seg_bound:
  assumes "norm_room out n" and "n + length seg < MAX_PATH"
  shows "\<exists>out'. norm_seg out seg = Some out' \<and> norm_room out' (n + length seg + 1)"
proof -
  consider "seg = [] \<or> seg = ''.''" | "seg = ''..''"
    | c cs where "seg = c # cs" "seg \<noteq> ''.''" "seg \<noteq> ''..''"
    by (cases seg) auto
  then show ?thesis
  proof cases
    case 1
    then show ?thesis using assms by (auto simp: norm_seg_def norm_room_def)
  next
    case 2
    then show ?thesis
      using assms unwind_length [of out]
      by (auto simp: norm_seg_def norm_room_def Let_def MAX_PATH_def)
  next
    case 3
    then show ?thesis
      using assms by (auto simp: norm_seg_def norm_room_def put_slash_def MAX_PATH_def)
  qed
qed

lemma norm_loop_bound:
  assumes "norm_room out n" and "n + length seg + length rest < MAX_PATH"
  shows "\<exists>out'. norm_loop out seg rest = Some out' \<and> length out' < MAX_PATH"
  using assms
proof (induction out seg rest arbitrary: n rule: norm_loop.induct)
  case (1 out seg)
  then show ?case using norm_seg_bound [of out n seg] by (auto simp: norm_room_def)
next
  case (2 out seg c cs)
  show ?case
  proof (cases "c = slash")
    case True
    obtain out' where o: "norm_seg out seg = Some out'" "norm_room out' (n + length seg + 1)"
      using norm_seg_bound [of out n seg] 2(3,4) by auto
    with "2.IH"(1) [OF True o] 2(4) True show ?thesis by auto
  next
    case False
    then show ?thesis using "2.IH"(2) [OF False, of n] 2(3,4) by auto
  qed
qed

lemma normalize_total:
  assumes "length path < MAX_PATH"
  shows "\<exists>q. pm_normalize_path_inplace path = Some q \<and> length q < MAX_PATH \<and> q \<noteq> []"
proof -
  let ?o = "if path \<noteq> [] \<and> hd path = slash then [] else [slash]"
  have "norm_room ?o 0" by (simp add: norm_room_def MAX_PATH_def)
  then obtain out where "norm_loop ?o [] path = Some out" "length out < MAX_PATH"
    using norm_loop_bound [of ?o 0 "[]" path] assms by auto
  then show ?thesis by (auto simp: pm_normalize_path_inplace_def Let_def MAX_PATH_def)
qed

section \<open>Refinement of the stack specification\<close>

lemma unwind_stands_for:
  assumes "list_all seg_ok (st @ [s])" and "out = path_of (st @ [s]) \<or> out = path_of (st @ [s]) @ [slash]"
  shows "unwind out = path_of st @ [slash]"
proof -
  have s: "s \<noteq> []" "slash \<notin> set s" "last s \<noteq> slash"
    using assms(1) by (auto simp: seg_ok_def dest: last_in_set)
  have "dropWhile (\<lambda>c. c \<noteq> slash) (rev s @ slash # rev (path_of st)) = slash # rev (path_of st)"
    using s(2) by (subst dropWhile_append2) auto
  with assms(2) s show ?thesis
    by (auto simp: unwind_def Let_def butlast_append)
qed

lemma stands_for_last:
  "stands_for out st \<Longrightarrow>
     (if out = [] \<or> last out \<noteq> slash then out @ [slash] else out) = path_of st @ [slash]"
  by (auto simp: stands_for_def dest: path_of_last)

lemma norm_seg_refines:
  assumes "stands_for out st" and "norm_room out n"
    and "n + length seg + 1 < MAX_PATH" and "slash \<notin> set seg"
  obtains out' where "norm_seg out seg = Some out'" "stands_for out' (resolve_step st seg)"
    "norm_room out' (n + length seg + 1)"
proof -
  obtain out' where o: "norm_seg out seg = Some out'" "norm_room out' (n + length seg + 1)"
    using norm_seg_bound [of out n seg] assms by auto
  have ok: "list_all seg_ok (resolve_step st seg)"
    using assms by (auto simp: stands_for_def intro: resolve_step_ok)
  consider "seg = [] \<or> seg = ''.''" | "seg = ''..''" "st = []"
    | st' s where "seg = ''..''" "st = st' @ [s]" | "seg \<noteq> []" "seg \<noteq> ''.''" "seg \<noteq> ''..''"
    by (cases st rule: rev_cases) auto
  then have "stands_for out' (resolve_step st seg)"
  proof cases
    case 1
    then show ?thesis using o(1) assms(1) by (auto simp: norm_seg_def resolve_step_def)
  next
    case 2
    then show ?thesis
      using o(1) assms(1) by (auto simp: norm_seg_def resolve_step_def stands_for_def Let_def split: if_splits)
  next
    case 3
    then have "unwind out = path_of st' @ [slash]" "1 < length out"
      using assms(1) by (auto simp: stands_for_def seg_ok_def intro!: unwind_stands_for)
    with 3 o(1) ok show ?thesis
      by (auto simp: norm_seg_def resolve_step_def stands_for_def Let_def split: if_splits)
  next
    case 4
    then have "out' = path_of st @ slash # seg"
      using o(1) assms(1-3) stands_for_last [OF assms(1)]
      by (auto simp: norm_seg_def put_slash_def norm_room_def MAX_PATH_def split: if_splits)
    with 4 ok show ?thesis by (simp add: resolve_step_def stands_for_def)
  qed
  with o(1) show ?thesis using o(2) by (rule that)
qed

lemma norm_loop_refines:
  assumes "stands_for out st" and "norm_room out n"
    and "n + length seg + length rest + 1 < MAX_PATH" and "slash \<notin> set seg"
  shows "\<exists>out'. norm_loop out seg rest = Some out'
           \<and> stands_for out' (foldl resolve_step st (split_slash seg rest))
           \<and> length out' < MAX_PATH"
  using assms
proof (induction out seg rest arbitrary: n st rule: norm_loop.induct)
  case (1 out seg)
  then obtain out' where "norm_seg out seg = Some out'" "stands_for out' (resolve_step st seg)"
    "norm_room out' (n + length seg + 1)"
    using norm_seg_refines [of out st n seg] by auto
  then show ?case by (auto simp: norm_room_def)
next
  case (2 out seg c cs)
  show ?case
  proof (cases "c = slash")
    case True
    obtain out' where o: "norm_seg out seg = Some out'" "stands_for out' (resolve_step st seg)"
      "norm_room out' (n + length seg + 1)"
      using norm_seg_refines [of out st n seg] 2(3-6) by auto
    with "2.IH"(1) [OF True o] 2(5) True show ?thesis by auto
  next
    case False
    then show ?thesis using "2.IH"(2) [OF False, of st n] 2(3-6) by auto
  qed
qed

lemma normalize_refines:
  assumes "length path + 1 < MAX_PATH"
  obtains q where "pm_normalize_path_inplace path = Some q" "stands_for q (resolve path)" "q \<noteq> []"
proof -
  let ?o = "if path \<noteq> [] \<and> hd path = slash then [] else [slash]"
  have "norm_room ?o 0" "stands_for ?o []" by (simp_all add: norm_room_def MAX_PATH_def stands_for_def)
  then obtain out where o: "norm_loop ?o [] path = Some out" "stands_for out (resolve path)"
    "length out < MAX_PATH"
    using norm_loop_refines [of ?o "[]" 0 "[]" path] assms by (auto simp: resolve_def)
  let ?q = "if out = [] then [slash] else out"
  have "pm_normalize_path_inplace path = Some ?q"
    using o by (auto simp: pm_normalize_path_inplace_def Let_def MAX_PATH_def)
  moreover have "stands_for ?q (resolve path)" using o(2) by (auto simp: stands_for_def)
  ultimately show ?thesis by (rule that) auto
qed

text \<open>A canonical path is a fixed point.\<close>

lemma resolve_step_plain:
  "s \<noteq> [] \<Longrightarrow> s \<noteq> ''.'' \<Longrightarrow> s \<noteq> ''..'' \<Longrightarrow> resolve_step st s = st @ [s]"
  by (simp add: resolve_step_def)

definition seg_plain :: "string \<Rightarrow> bool" where
  "seg_plain s \<longleftrightarrow> seg_ok s \<and> s \<noteq> ''.'' \<and> s \<noteq> ''..''"

lemma seg_plain_ok: "list_all seg_plain ss \<Longrightarrow> list_all seg_ok ss"
  by (auto simp: list_all_iff seg_plain_def)

lemma foldl_resolve_plain: "list_all seg_plain ss \<Longrightarrow> foldl resolve_step st ss = st @ ss"
  by (induction ss arbitrary: st) (auto simp: resolve_step_plain seg_plain_def seg_ok_def)

lemma resolve_path_of: "list_all seg_plain ss \<Longrightarrow> resolve (path_of ss) = ss"
  using split_path_of [of ss "[]" "[]"] foldl_resolve_plain [of ss "[]"] seg_plain_ok
  by (auto simp: resolve_def resolve_step_def)

lemma resolve_step_keeps_plain:
  "list_all seg_plain st \<Longrightarrow> slash \<notin> set seg \<Longrightarrow> list_all seg_plain (resolve_step st seg)"
  by (auto simp: resolve_step_def seg_plain_def seg_ok_def list_all_iff dest: in_set_butlastD)

lemma foldl_resolve_keeps_plain:
  "list_all seg_plain st \<Longrightarrow> \<forall>s\<in>set segs. slash \<notin> set s \<Longrightarrow>
     list_all seg_plain (foldl resolve_step st segs)"
  by (induction segs arbitrary: st) (auto simp: resolve_step_keeps_plain)

lemma resolve_plain [path_intros]: "list_all seg_plain (resolve path)"
  unfolding resolve_def
  by (rule foldl_resolve_keeps_plain) (auto dest: split_slash_segs [rotated])

lemma normalize_copy:
  obtains q where "pm_normalize_path_inplace (copy_trunc MAX_PATH s) = Some q" "length q < MAX_PATH" "q \<noteq> []"
  using normalize_total [of "copy_trunc MAX_PATH s"] length_copy_trunc [of MAX_PATH s]
  by (auto simp: MAX_PATH_def)

section \<open>Properties\<close>

text \<open>C9: Normalization returns on every path that fits a buffer of \<^term>\<open>MAX_PATH\<close> bytes
  and never writes outside its own buffer, whatever the path holds; the result fits the buffer
  and is not empty.\<close>

theorem normalize_in_bounds:
  assumes "length path < MAX_PATH"
  shows "\<exists>q. pm_normalize_path_inplace path = Some q \<and> length q < MAX_PATH \<and> q \<noteq> []"
  using assms by (rule normalize_total)

lemma normalize_in_bounds_witness:
  "\<exists>q. pm_normalize_path_inplace ''/../a//./b'' = Some q \<and> length q < MAX_PATH \<and> q \<noteq> []"
  by (rule normalize_in_bounds) (simp add: MAX_PATH_def)

text \<open>C8: Normalization computes the segments a path stands for: it drops empty segments and
  \<^verbatim>\<open>.\<close>, and each \<^verbatim>\<open>..\<close> removes the segment before it and stops at
  the root. The result spells these segments, up to one final slash.\<close>

theorem normalize_computes_resolve:
  assumes "length path + 1 < MAX_PATH"
  shows "\<exists>q. pm_normalize_path_inplace path = Some q
     \<and> (q = path_of (resolve path) \<or> q = path_of (resolve path) @ [slash])
     \<and> list_all seg_plain (resolve path)"
proof -
  obtain q where "pm_normalize_path_inplace path = Some q" "stands_for q (resolve path)"
    using normalize_refines [OF assms] by metis
  then show ?thesis using resolve_plain by (auto simp: stands_for_def)
qed

lemma normalize_computes_resolve_witness:
  "resolve ''/usr/./lib/../share//x'' = [''usr'', ''share'', ''x'']
   \<and> (\<exists>q. pm_normalize_path_inplace ''/usr/./lib/../share//x'' = Some q
     \<and> (q = ''/usr/share/x'' \<or> q = ''/usr/share/x/''))"
proof -
  have res: "resolve ''/usr/./lib/../share//x'' = [''usr'', ''share'', ''x'']"
    by (simp add: resolve_def resolve_step_def)
  show ?thesis
    using normalize_computes_resolve [of "''/usr/./lib/../share//x''", unfolded res] res
    by (auto simp: MAX_PATH_def)
qed

end
