(* ===== verification/Config.thy ===== *)
theory Config
  imports Normalize
begin

text \<open>
  The mapping configuration of \<^verbatim>\<open>src/lib/pathmap_common.h\<close>: \<^verbatim>\<open>struct pm_mapping_config\<close>,
  the parser of \<^verbatim>\<open>PATH_MAPPING\<close>, the loaders that fill the structure from the
  environment, and the prefix tests over all of its entries.

  Entry \<open>i\<close> of the parallel C arrays is one record; the counters are the lengths of the
  lists. \<^verbatim>\<open>malloc\<close> is the parameter \<open>alloc\<close>, which says of the n-th checked
  allocation of a call whether it succeeds. \<^verbatim>\<open>strdup\<close>, whose result the code does
  not check, is taken to succeed. \<^verbatim>\<open>fnmatch(pattern, path, FNM_PATHNAME) == 0\<close> is the
  parameter \<open>fnm\<close>.
\<close>

section \<open>Data\<close>

record pm_mapping =
  map_from :: string
  map_to :: string
  mapping_is_malloced :: bool
  mapping_is_glob :: bool

record pm_exclude =
  excl_pat :: string
  exclude_is_malloced :: bool
  exclude_is_glob :: bool

record pm_mapping_config =
  mappings :: "pm_mapping list"
  excludes :: "pm_exclude list"

definition max_mappings :: nat where "max_mappings = 64"
definition max_excludes :: nat where "max_excludes = 64"

definition pm_default_excludes :: "string list" where
  "pm_default_excludes = [''/etc/passwd'', ''/etc/group'', ''/etc/nsswitch.conf'']"

definition pm_default_mappings :: "(string \<times> string) list" where
  "pm_default_mappings = [(''/tmp/path-mapping/tests/virtual'', ''/tmp/path-mapping/tests/real'')]"

definition is_glob_pattern :: "string \<Rightarrow> bool" where
  "is_glob_pattern s = strpbrk s ''*?[''"

section \<open>Parsing\<close>

definition is_ws :: "char \<Rightarrow> bool" where
  "is_ws c \<longleftrightarrow> c = CHR '' '' \<or> c = CHR 0x09"

definition is_entry_sep :: "char \<Rightarrow> bool" where
  "is_entry_sep c \<longleftrightarrow> c = CHR '','' \<or> c = CHR 0x0A \<or> c = CHR 0x0D"

definition pm_trim_ws :: "string \<Rightarrow> string" where
  "pm_trim_ws s = rev (dropWhile is_ws (rev (dropWhile is_ws s)))"

text \<open>One entry between two separators: nothing, or a FROM and a TO.\<close>

definition parse_entry :: "string \<Rightarrow> (string \<times> string) list" where
  "parse_entry pair =
     (let segment = pm_trim_ws pair in
      if segment = [] then []
      else (case strchr segment CHR '':'' of
              None \<Rightarrow> []
            | Some colon \<Rightarrow>
                (let from = pm_trim_ws (take colon segment);
                     to = pm_trim_ws (drop (Suc colon) segment)
                 in if from = [] \<or> to = [] then [] else [(from, to)])))"

text \<open>The loop over the bytes; \<open>seg\<close> is what lies between \<^verbatim>\<open>pair_start\<close> and \<^verbatim>\<open>i\<close>.\<close>

fun parse_loop :: "string \<Rightarrow> string \<Rightarrow> (string \<times> string) list" where
  "parse_loop seg [] = parse_entry seg"
| "parse_loop seg (c # cs) =
     (if is_entry_sep c then parse_entry seg @ parse_loop [] cs else parse_loop (seg @ [c]) cs)"

text \<open>The size of the array the pairs are written to.\<close>

definition n_pairs :: "string \<Rightarrow> nat" where
  "n_pairs env = 1 + length (filter is_entry_sep env)"

definition pm_parse_path_mapping_env ::
    "(nat \<Rightarrow> bool) \<Rightarrow> string option \<Rightarrow> (string \<times> string) list option" where
  "pm_parse_path_mapping_env alloc env =
     (case env of
        None \<Rightarrow> Some []
      | Some env \<Rightarrow>
          if env = [] then Some []
          else if \<not> alloc 0 then None
          else if \<not> alloc 1 then None
          else Some (parse_loop [] env))"

section \<open>Loading\<close>

definition env_mapping :: "string \<times> string \<Rightarrow> pm_mapping" where
  "env_mapping p = \<lparr>map_from = fst p, map_to = snd p, mapping_is_malloced = True,
     mapping_is_glob = is_glob_pattern (fst p)\<rparr>"

definition default_mapping :: "string \<times> string \<Rightarrow> pm_mapping" where
  "default_mapping p = \<lparr>map_from = fst p, map_to = snd p, mapping_is_malloced = False,
     mapping_is_glob = False\<rparr>"

definition pm_load_mappings_from_env ::
    "(nat \<Rightarrow> bool) \<Rightarrow> string option \<Rightarrow> pm_mapping_config \<Rightarrow> pm_mapping_config" where
  "pm_load_mappings_from_env alloc env config =
     (let config = config\<lparr>mappings := []\<rparr> in
      if env = None \<or> env = Some [] then
        config\<lparr>mappings := map default_mapping (take max_mappings pm_default_mappings)\<rparr>
      else
        (case pm_parse_path_mapping_env alloc env of
           None \<Rightarrow> config
         | Some pairs \<Rightarrow> config\<lparr>mappings := map env_mapping (take max_mappings pairs)\<rparr>))"

definition default_exclude :: "string \<Rightarrow> pm_exclude" where
  "default_exclude s = \<lparr>excl_pat = s, exclude_is_malloced = False, exclude_is_glob = False\<rparr>"

definition env_exclude :: "string \<Rightarrow> pm_exclude" where
  "env_exclude s = \<lparr>excl_pat = s, exclude_is_malloced = True, exclude_is_glob = is_glob_pattern s\<rparr>"

function load_excludes_loop ::
    "(nat \<Rightarrow> bool) \<Rightarrow> string \<Rightarrow> pm_exclude list \<Rightarrow> pm_exclude list option" where
  "load_excludes_loop alloc p acc =
     (if p = [] \<or> max_excludes \<le> length acc then Some acc
      else
        (let start = takeWhile (\<lambda>c. \<not> is_entry_sep c) p;
             rest = drop 1 (dropWhile (\<lambda>c. \<not> is_entry_sep c) p)
         in if start = [] then load_excludes_loop alloc rest acc
            else if \<not> alloc (length acc) then Some acc
            else do {
              s \<leftarrow> pm_normalize_path_inplace (copy_trunc MAX_PATH start);
              load_excludes_loop alloc rest (acc @ [env_exclude s])
            }))"
  by pat_completeness auto
termination
proof (relation "measure (\<lambda>(alloc, p, acc). length p)", goal_cases)
  case (2 alloc p acc)
  then show ?case
    using length_dropWhile_le [of "\<lambda>c. \<not> is_entry_sep c" p] by (cases p) auto
next
  case (3 alloc p acc)
  then show ?case
    using length_dropWhile_le [of "\<lambda>c. \<not> is_entry_sep c" p] by (cases p) auto
qed auto

declare load_excludes_loop.simps [simp del]

definition pm_load_excludes_from_env ::
    "(nat \<Rightarrow> bool) \<Rightarrow> string option \<Rightarrow> pm_mapping_config \<Rightarrow> pm_mapping_config option" where
  "pm_load_excludes_from_env alloc env config =
     (case env of
        None \<Rightarrow> Some (config\<lparr>excludes := map default_exclude (take max_excludes pm_default_excludes)\<rparr>)
      | Some env \<Rightarrow>
          if env = [] then
            Some (config\<lparr>excludes := map default_exclude (take max_excludes pm_default_excludes)\<rparr>)
          else do {
            xs \<leftarrow> load_excludes_loop alloc env [];
            Some (config\<lparr>excludes := xs\<rparr>)
          })"

section \<open>Tests over all entries\<close>

definition is_absolute :: "string \<Rightarrow> bool" where
  "is_absolute s \<longleftrightarrow> s \<noteq> [] \<and> hd s = slash"

definition exclude_hit :: "(string \<Rightarrow> string \<Rightarrow> bool) \<Rightarrow> string \<Rightarrow> pm_exclude \<Rightarrow> bool" where
  "exclude_hit fnm abs_path e =
     (if exclude_is_glob e then fnm (excl_pat e) abs_path
      else pm_path_prefix_matches (excl_pat e) abs_path)"

definition pm_is_excluded_prefix ::
    "(string \<Rightarrow> string \<Rightarrow> bool) \<Rightarrow> string \<Rightarrow> pm_mapping_config \<Rightarrow> bool" where
  "pm_is_excluded_prefix fnm abs_path config =
     (if \<not> is_absolute abs_path then False else list_ex (exclude_hit fnm abs_path) (excludes config))"

definition pm_is_under_any_from_prefix :: "string \<Rightarrow> pm_mapping_config \<Rightarrow> bool" where
  "pm_is_under_any_from_prefix abs_path config =
     (if \<not> is_absolute abs_path then False
      else list_ex (\<lambda>m. pm_path_prefix_matches (map_from m) abs_path) (mappings config))"

definition pm_is_under_any_to_prefix ::
    "(string \<Rightarrow> string \<Rightarrow> bool) \<Rightarrow> string \<Rightarrow> pm_mapping_config \<Rightarrow> bool" where
  "pm_is_under_any_to_prefix fnm abs_path config =
     (if \<not> is_absolute abs_path then False
      else list_ex (\<lambda>m. if mapping_is_glob m then fnm (map_to m) abs_path
                        else pm_path_prefix_matches (map_to m) abs_path) (mappings config))"

section \<open>Clean-up\<close>

text \<open>
  The strings that \<^verbatim>\<open>free\<close> is called on, in order: entry and field (0 for FROM or the
  pattern, 1 for TO).
\<close>

definition pm_cleanup_mappings :: "pm_mapping_config \<Rightarrow> (nat \<times> nat) list" where
  "pm_cleanup_mappings config =
     concat (map (\<lambda>i. if mapping_is_malloced (mappings config ! i) then [(i, 0), (i, 1)] else [])
       [0..<length (mappings config)])"

definition pm_cleanup_excludes :: "pm_mapping_config \<Rightarrow> (nat \<times> nat) list" where
  "pm_cleanup_excludes config =
     concat (map (\<lambda>i. if exclude_is_malloced (excludes config ! i) then [(i, 0)] else [])
       [0..<length (excludes config)])"

section \<open>Trimming\<close>

definition trimmed :: "string \<Rightarrow> bool" where
  "trimmed s \<longleftrightarrow> s \<noteq> [] \<longrightarrow> \<not> is_ws (hd s) \<and> \<not> is_ws (last s)"

lemma pm_trim_ws_id: "trimmed s \<Longrightarrow> pm_trim_ws s = s"
  by (cases "s = []")
     (simp_all add: pm_trim_ws_def trimmed_def hd_rev dropWhile_eq_self_iff [THEN iffD2])

lemma pm_trim_ws_trimmed: "trimmed (pm_trim_ws s)"
proof -
  let ?t = "dropWhile is_ws s"
  show ?thesis
  proof (cases "\<forall>c\<in>set ?t. is_ws c")
    case True
    then have "pm_trim_ws s = []" by (simp add: pm_trim_ws_def)
    then show ?thesis by (simp add: trimmed_def)
  next
    case False
    then obtain c where "c \<in> set ?t" "\<not> is_ws c" by blast
    then have ne: "?t \<noteq> []" "dropWhile is_ws (rev ?t) \<noteq> []"
      by (metis empty_iff empty_set, metis dropWhile_eq_Nil_conv set_rev)
    have last: "\<not> is_ws (last (pm_trim_ws s))"
      using hd_dropWhile [OF ne(2)] ne by (simp add: pm_trim_ws_def last_rev)
    have "prefix (pm_trim_ws s) ?t"
      unfolding pm_trim_ws_def by (metis rev_rev_ident suffix_dropWhile suffix_to_prefix)
    moreover have "pm_trim_ws s \<noteq> []" using ne(2) by (simp add: pm_trim_ws_def)
    ultimately have "hd (pm_trim_ws s) = hd ?t" by (metis hd_append2 prefix_def)
    with last show ?thesis using hd_dropWhile [OF ne(1)] by (simp add: trimmed_def)
  qed
qed

lemma set_pm_trim_ws: "set (pm_trim_ws s) \<subseteq> set s"
proof
  fix c
  assume "c \<in> set (pm_trim_ws s)"
  then have "c \<in> set (dropWhile is_ws (rev (dropWhile is_ws s)))" by (simp add: pm_trim_ws_def)
  then have "c \<in> set (rev (dropWhile is_ws s))" by (rule set_dropWhileD)
  then show "c \<in> set s" by (auto dest: set_dropWhileD)
qed

section \<open>What the parser accepts\<close>

definition entry_ok :: "string \<times> string \<Rightarrow> bool" where
  "entry_ok p \<longleftrightarrow>
     fst p \<noteq> [] \<and> snd p \<noteq> [] \<and> trimmed (fst p) \<and> trimmed (snd p) \<and> CHR '':'' \<notin> set (fst p)
     \<and> (\<forall>c\<in>set (fst p). \<not> is_entry_sep c) \<and> (\<forall>c\<in>set (snd p). \<not> is_entry_sep c)"

lemma parse_loop_split: "parse_loop seg s = concat (map parse_entry (split_on is_entry_sep seg s))"
  by (induction seg s rule: parse_loop.induct) auto

lemma parse_entry_ok:
  assumes "\<forall>c\<in>set pair. \<not> is_entry_sep c" and "p \<in> set (parse_entry pair)"
  shows "entry_ok p"
proof -
  let ?s = "pm_trim_ws pair"
  obtain k where k: "strchr ?s CHR '':'' = Some k"
    using assms(2) by (cases "strchr ?s CHR '':''") (auto simp: parse_entry_def Let_def split: if_splits)
  with assms(2) have p: "p = (pm_trim_ws (take k ?s), pm_trim_ws (drop (Suc k) ?s))"
    "fst p \<noteq> []" "snd p \<noteq> []"
    by (auto simp: parse_entry_def Let_def split: if_splits)
  have "set (fst p) \<subseteq> set (take k ?s)" "set (fst p) \<subseteq> set pair" "set (snd p) \<subseteq> set pair"
    using p(1) set_pm_trim_ws [of "take k ?s"] set_pm_trim_ws [of "drop (Suc k) ?s"]
      set_pm_trim_ws [of pair] set_take_subset [of k ?s] set_drop_subset [of "Suc k" ?s] by auto
  then show ?thesis
    using p assms(1) strchr_split(2) [OF k]
    by (auto simp: entry_ok_def pm_trim_ws_trimmed)
qed

lemma parse_loop_ok: "p \<in> set (parse_loop [] s) \<Longrightarrow> entry_ok p"
proof -
  assume "p \<in> set (parse_loop [] s)"
  then obtain pair where "pair \<in> set (split_on is_entry_sep [] s)" "p \<in> set (parse_entry pair)"
    by (auto simp: parse_loop_split)
  then show "entry_ok p"
    using split_on_pieces [of "[]" is_entry_sep pair s] by (intro parse_entry_ok [of pair]) auto
qed

lemma length_parse_entry: "length (parse_entry pair) \<le> 1"
  by (simp add: parse_entry_def Let_def split: option.split)

lemma length_parse_loop: "length (parse_loop [] s) \<le> n_pairs s"
proof -
  have "length (concat (map parse_entry xs)) \<le> length xs" for xs
  proof (induction xs)
    case (Cons x xs)
    then show ?case using length_parse_entry [of x] by simp
  qed simp
  then show ?thesis
    by (metis length_split_on n_pairs_def parse_loop_split plus_1_eq_Suc)
qed

section \<open>Round trip\<close>

fun render_pairs :: "(string \<times> string) list \<Rightarrow> string" where
  "render_pairs [] = []"
| "render_pairs [p] = fst p @ CHR '':'' # snd p"
| "render_pairs (p # q # ps) = fst p @ CHR '':'' # snd p @ CHR '','' # render_pairs (q # ps)"

lemma strchr_append_here: "c \<notin> set a \<Longrightarrow> strchr (a @ c # b) c = Some (length a)"
  by (auto simp: strchr_Some_iff nth_append)

lemma parse_entry_render:
  assumes "entry_ok p"
  shows "parse_entry (fst p @ CHR '':'' # snd p) = [p]"
proof -
  have "trimmed (fst p @ CHR '':'' # snd p)"
    using assms by (auto simp: entry_ok_def trimmed_def hd_append)
  then show ?thesis
    using assms
    by (simp add: parse_entry_def Let_def pm_trim_ws_id strchr_append_here entry_ok_def)
qed

lemma entry_ok_no_sep:
  "entry_ok p \<Longrightarrow> \<forall>c\<in>set (fst p @ CHR '':'' # snd p). \<not> is_entry_sep c"
  by (auto simp: entry_ok_def is_entry_sep_def)

lemma parse_loop_render:
  "ps \<noteq> [] \<Longrightarrow> list_all entry_ok ps \<Longrightarrow> parse_loop [] (render_pairs ps) = ps"
proof (induction ps rule: render_pairs.induct)
  case (2 p)
  then have "split_on is_entry_sep [] (fst p @ CHR '':'' # snd p) = [fst p @ CHR '':'' # snd p]"
    by (simp add: split_on_none entry_ok_no_sep)
  with 2 show ?case by (simp add: parse_loop_split parse_entry_render)
next
  case (3 p q ps)
  have "split_on is_entry_sep [] ((fst p @ CHR '':'' # snd p) @ CHR '','' # render_pairs (q # ps)) =
      (fst p @ CHR '':'' # snd p) # split_on is_entry_sep [] (render_pairs (q # ps))"
    using 3 entry_ok_no_sep [of p] by (subst split_on_append) (simp_all add: is_entry_sep_def)
  with 3 show ?case by (simp add: parse_loop_split parse_entry_render)
qed simp

section \<open>Well-formed configurations\<close>

definition mapping_ok :: "pm_mapping \<Rightarrow> bool" where
  "mapping_ok m \<longleftrightarrow> map_from m \<noteq> [] \<and> map_to m \<noteq> []
     \<and> (mapping_is_glob m \<longleftrightarrow> is_glob_pattern (map_from m))"

definition exclude_ok :: "pm_exclude \<Rightarrow> bool" where
  "exclude_ok e \<longleftrightarrow> excl_pat e \<noteq> [] \<and> length (excl_pat e) < MAX_PATH
     \<and> (exclude_is_glob e \<longleftrightarrow> is_glob_pattern (excl_pat e))"

definition wf_config :: "pm_mapping_config \<Rightarrow> bool" where
  "wf_config config \<longleftrightarrow>
     length (mappings config) \<le> max_mappings \<and> list_all mapping_ok (mappings config)
     \<and> length (excludes config) \<le> max_excludes \<and> list_all exclude_ok (excludes config)"

lemma env_mapping_ok: "entry_ok p \<Longrightarrow> mapping_ok (env_mapping p)"
  by (simp add: mapping_ok_def env_mapping_def entry_ok_def)

lemma load_mappings_ok:
  "length (mappings (pm_load_mappings_from_env alloc env c)) \<le> max_mappings
   \<and> list_all mapping_ok (mappings (pm_load_mappings_from_env alloc env c))
   \<and> excludes (pm_load_mappings_from_env alloc env c) = excludes c"
  by (auto simp: pm_load_mappings_from_env_def pm_parse_path_mapping_env_def Let_def max_mappings_def
      pm_default_mappings_def default_mapping_def mapping_ok_def is_glob_pattern_def list_all_iff
      split: option.splits dest!: in_set_takeD parse_loop_ok env_mapping_ok [unfolded mapping_ok_def is_glob_pattern_def])

lemma load_excludes_loop_total:
  assumes "list_all exclude_ok acc" and "length acc \<le> max_excludes"
  shows "\<exists>xs. load_excludes_loop alloc p acc = Some xs \<and> list_all exclude_ok xs \<and> length xs \<le> max_excludes"
  using assms
proof (induction alloc p acc rule: load_excludes_loop.induct)
  case (1 alloc p acc)
  let ?start = "takeWhile (\<lambda>c. \<not> is_entry_sep c) p"
  let ?rest = "drop 1 (dropWhile (\<lambda>c. \<not> is_entry_sep c) p)"
  show ?case
  proof (cases "p = [] \<or> max_excludes \<le> length acc \<or> ?start \<noteq> [] \<and> \<not> alloc (length acc)")
    case True
    with 1(3,4) show ?thesis by (auto simp: load_excludes_loop.simps [of alloc p acc] Let_def)
  next
    case False
    show ?thesis
    proof (cases "?start = []")
      case True
      with False 1 show ?thesis by (simp add: load_excludes_loop.simps [of alloc p acc] Let_def)
    next
      case start: False
      obtain s where s: "pm_normalize_path_inplace (copy_trunc MAX_PATH ?start) = Some s"
        "length s < MAX_PATH" "s \<noteq> []"
        using normalize_total length_copy_trunc [of MAX_PATH ?start] by (auto simp: MAX_PATH_def)
      then have "exclude_ok (env_exclude s)" by (simp add: exclude_ok_def env_exclude_def)
      then have "list_all exclude_ok (acc @ [env_exclude s])" "length (acc @ [env_exclude s]) \<le> max_excludes"
        using 1(3) False by simp_all
      with "1.IH"(2) [OF _ refl refl start _ ] False start s(1)
      show ?thesis by (simp add: load_excludes_loop.simps [of alloc p acc] Let_def)
    qed
  qed
qed

lemma default_excludes_ok: "list_all exclude_ok (map default_exclude (take max_excludes pm_default_excludes))"
  by (simp add: max_excludes_def pm_default_excludes_def default_exclude_def exclude_ok_def
      is_glob_pattern_def MAX_PATH_def)

lemma load_excludes_total:
  "\<exists>c'. pm_load_excludes_from_env alloc env c = Some c' \<and> mappings c' = mappings c
     \<and> list_all exclude_ok (excludes c') \<and> length (excludes c') \<le> max_excludes"
  using load_excludes_loop_total [of "[]" alloc "the env"] default_excludes_ok
  by (auto simp: pm_load_excludes_from_env_def max_excludes_def pm_default_excludes_def split: option.splits)

lemma render_pairs_not_Nil: "ps \<noteq> [] \<Longrightarrow> render_pairs ps \<noteq> []"
  by (induction ps rule: render_pairs.induct) simp_all

section \<open>Properties\<close>

text \<open>C21: The \<^verbatim>\<open>PATH_MAPPING\<close> syntax round-trips: a rendered table of trimmed,
  nonempty entries parses back to itself.\<close>

theorem parse_render_round_trip:
  assumes "ps \<noteq> []" and "list_all entry_ok ps" and "alloc 0" and "alloc 1"
  shows "pm_parse_path_mapping_env alloc (Some (render_pairs ps)) = Some ps"
  using assms parse_loop_render [OF assms(1,2)] render_pairs_not_Nil [OF assms(1)]
  by (simp add: pm_parse_path_mapping_env_def)

lemma parse_render_round_trip_witness:
  "pm_parse_path_mapping_env (\<lambda>_. True) (Some ''/usr/lib:/app/lib,/etc:/app/etc'')
     = Some [(''/usr/lib'', ''/app/lib''), (''/etc'', ''/app/etc'')]"
  using parse_render_round_trip [of "[(''/usr/lib'', ''/app/lib''), (''/etc'', ''/app/etc'')]" "\<lambda>_. True"]
  by (simp add: entry_ok_def trimmed_def is_ws_def is_entry_sep_def)

text \<open>C22: For every environment string the parser writes at most as many pairs as it allocated,
  and each pair it keeps has a nonempty, trimmed FROM and TO without separators.\<close>

theorem parse_stays_in_table:
  assumes "pm_parse_path_mapping_env alloc env = Some pairs"
  shows "length pairs \<le> (case env of None \<Rightarrow> 0 | Some s \<Rightarrow> n_pairs s) \<and> list_all entry_ok pairs"
  using assms parse_loop_ok length_parse_loop
  by (auto simp: pm_parse_path_mapping_env_def list_all_iff split: option.splits if_splits)

lemma parse_stays_in_table_witness:
  "length [(''/a'', ''/b'')] \<le> n_pairs '' /a : /b ,,:x,y'' \<and> list_all entry_ok [(''/a'', ''/b'')]"
  using parse_stays_in_table [of "\<lambda>_. True" "Some '' /a : /b ,,:x,y''" "[(''/a'', ''/b'')]"]
  by (simp add: pm_parse_path_mapping_env_def parse_entry_def pm_trim_ws_def is_ws_def is_entry_sep_def)

end
