(* ===== verification/Capture.thy ===== *)
theory Capture
  imports PathCore
begin

text \<open>
  \<^verbatim>\<open>pm_capture_stars\<close> of \<^verbatim>\<open>src/lib/pathmap_common.h\<close>: match a star-only
  pattern against a path and report what each star took.

  A capture is the pair of the C arrays' entries: the pointer into the path (the rest of the
  path from there) and the length. \<^verbatim>\<open>-1\<close> is \<^term>\<open>None\<close>.

  The C loop jumps over a whole literal at a time. \<open>capture_lit\<close> and its
  companions show that it decides byte by byte; the results about matching are proved from
  these equations.
\<close>

type_synonym capture = "string \<times> nat"

definition cap_text :: "capture \<Rightarrow> string" where
  "cap_text c = take (snd c) (fst c)"

section \<open>Definitions\<close>

text \<open>The literal after a star ends at the next star, the next slash or the end.\<close>

definition literal_len :: "string \<Rightarrow> nat" where
  "literal_len pp =
     (case (strchr pp star, strchr pp slash) of
        (Some a, Some s) \<Rightarrow> if a < s then a else s
      | (Some a, None) \<Rightarrow> a
      | (None, Some s) \<Rightarrow> s
      | (None, None) \<Rightarrow> length pp)"

text \<open>
  \<^verbatim>\<open>for (search = sp; search + literal_len <= sp + rem; search++) if (memcmp(..) == 0) found = search;\<close>
\<close>

definition last_occ :: "string \<Rightarrow> string \<Rightarrow> nat \<Rightarrow> nat option" where
  "last_occ lit sp rem =
     foldl (\<lambda>found k. if strncmp_eq (drop k sp) lit (length lit) then Some k else found)
       None [0..<Suc rem - length lit]"

definition find_literal :: "string \<Rightarrow> string \<Rightarrow> nat option" where
  "find_literal lit sp =
     (if slash \<in> set lit then last_occ lit sp (length sp)
      else last_occ lit sp (case strchr sp slash of Some s \<Rightarrow> s | None \<Rightarrow> length sp))"

definition litlen :: "string \<Rightarrow> nat" where
  "litlen pp = (case strchr pp star of Some a \<Rightarrow> a | None \<Rightarrow> length pp)"

function capture_loop :: "string \<Rightarrow> string \<Rightarrow> capture list \<Rightarrow> capture list option" where
  "capture_loop pp sp caps =
     (if pp = [] then (if sp = [] then Some caps else None)
      else if litlen pp \<noteq> 0 \<and> \<not> strncmp_eq sp pp (litlen pp) then None
      else
        (let sp' = drop (litlen pp) sp in
         case drop (litlen pp) pp of
           [] \<Rightarrow> capture_loop [] sp' caps
         | _ # [] \<Rightarrow> capture_loop [] [] (caps @ [(sp', length sp')])
         | _ # c # cs \<Rightarrow>
             if c = slash then
               (case strchr sp' slash of
                  None \<Rightarrow> None
                | Some n \<Rightarrow> capture_loop (c # cs) (drop n sp') (caps @ [(sp', n)]))
             else
               (case find_literal (take (literal_len (c # cs)) (c # cs)) sp' of
                  None \<Rightarrow> None
                | Some n \<Rightarrow> capture_loop (c # cs) (drop n sp') (caps @ [(sp', n)]))))"
  by pat_completeness auto
termination
proof (relation "measure (\<lambda>(pp, sp, caps). length pp)", goal_cases)
  case (4 pp sp caps sp' x y c cs n)
  then have "length (drop (litlen pp) pp) = Suc (Suc (length cs))" by simp
  then show ?case by simp
next
  case (5 pp sp caps sp' x y c cs n)
  then have "length (drop (litlen pp) pp) = Suc (Suc (length cs))" by simp
  then show ?case by simp
qed auto

declare capture_loop.simps [simp del]

definition pm_capture_stars :: "string \<Rightarrow> string \<Rightarrow> nat \<Rightarrow> capture list option" where
  "pm_capture_stars pattern path maxcaps =
     (if CHR ''?'' \<in> set pattern \<or> CHR ''['' \<in> set pattern then None
      else map_option (take maxcaps) (capture_loop pattern path []))"

section \<open>The loop, byte by byte\<close>

lemma litlen_simps [simp]:
  "litlen [] = 0"
  "litlen (star # pp) = 0"
  "c \<noteq> star \<Longrightarrow> litlen (c # pp) = Suc (litlen pp)"
  by (auto simp: litlen_def split: option.splits)

lemma litlen_drop: "drop (litlen pp) pp = [] \<or> hd (drop (litlen pp) pp) = star"
  by (induction pp) (auto simp: litlen_def split: option.splits if_splits)

lemma capture_end [simp]: "capture_loop [] sp caps = (if sp = [] then Some caps else None)"
  by (simp add: capture_loop.simps [of "[]" sp caps])

text \<open>What the loop does at a star: the end of the pattern, a slash, or a literal.\<close>

definition star_stop :: "string \<Rightarrow> string \<Rightarrow> nat option" where
  "star_stop pp sp =
     (case pp of [] \<Rightarrow> Some (length sp)
      | c # _ \<Rightarrow> if c = slash then strchr sp slash
                 else find_literal (take (literal_len pp) pp) sp)"

lemma capture_star:
  "capture_loop (star # pp) sp caps =
     (case star_stop pp sp of None \<Rightarrow> None
      | Some n \<Rightarrow> capture_loop pp (drop n sp) (caps @ [(sp, n)]))"
  by (simp add: capture_loop.simps [of "star # pp" sp caps] star_stop_def split: list.splits option.splits)

lemma capture_lit:
  assumes "c \<noteq> star"
  shows "capture_loop (c # pp) (d # sp) caps = (if c = d then capture_loop pp sp caps else None)"
proof -
  have l: "litlen (c # pp) = Suc (litlen pp)" using assms by simp
  have "capture_loop (c # pp) (c # sp) caps = capture_loop pp sp caps"
  proof (cases "pp = []")
    case True
    with assms show ?thesis
      by (simp add: capture_loop.simps [of "[c]" "c # sp" caps] strncmp_eq_def Let_def)
  next
    case False
    then show ?thesis
      by (simp add: capture_loop.simps [of "c # pp" "c # sp" caps] capture_loop.simps [of pp sp caps]
          l strncmp_eq_def)
  qed
  moreover have "c \<noteq> d \<Longrightarrow> capture_loop (c # pp) (d # sp) caps = None"
    by (simp add: capture_loop.simps [of "c # pp" "d # sp" caps] l strncmp_eq_def)
  ultimately show ?thesis by auto
qed

lemma capture_lit_end: "c \<noteq> star \<Longrightarrow> capture_loop (c # pp) [] caps = None"
  by (simp add: capture_loop.simps [of "c # pp" "[]" caps] strncmp_eq_def)

lemmas capture_steps = capture_end capture_star capture_lit capture_lit_end

section \<open>Where a star stops\<close>

lemma last_occ_upto:
  "foldl (\<lambda>found k. if strncmp_eq (drop k sp) lit (length lit) then Some k else found) None [0..<n] = Some k
   \<Longrightarrow> k < n \<and> strncmp_eq (drop k sp) lit (length lit)"
  by (induction n) (auto split: if_splits)

lemma last_occ_Some:
  "last_occ lit sp rem = Some k \<Longrightarrow> k + length lit \<le> rem \<and> strncmp_eq (drop k sp) lit (length lit)"
  unfolding last_occ_def by (drule last_occ_upto) auto

lemma literal_len_no_slash: "slash \<notin> set (take (literal_len pp) pp)"
proof -
  have le: "n \<le> m \<Longrightarrow> slash \<notin> set (take m pp) \<Longrightarrow> slash \<notin> set (take n pp)" for n m
    by (metis in_mono set_take_subset_set_take)
  show ?thesis
    by (auto simp: literal_len_def strchr_None_iff strchr_Some_iff split: option.splits
        dest: le [rotated] in_set_takeD less_imp_le)
qed

lemma star_stop_le: "star_stop pp sp = Some n \<Longrightarrow> n \<le> length sp"
  by (auto simp: star_stop_def find_literal_def strchr_Some_iff
      split: list.splits if_splits option.splits dest!: last_occ_Some)

lemma star_stop_segment:
  assumes "star_stop pp sp = Some n" and "pp \<noteq> []"
  shows "slash \<notin> set (take n sp)"
proof -
  obtain c cs where pp: "pp = c # cs" using assms(2) by (cases pp) auto
  let ?lit = "take (literal_len pp) pp"
  show ?thesis
  proof (cases "c = slash")
    case True
    with assms(1) pp show ?thesis by (auto simp: star_stop_def strchr_Some_iff)
  next
    case False
    with assms(1) pp have occ:
      "last_occ ?lit sp (case strchr sp slash of Some s \<Rightarrow> s | None \<Rightarrow> length sp) = Some n"
      using literal_len_no_slash [of pp] by (simp add: star_stop_def find_literal_def)
    show ?thesis
    proof (cases "strchr sp slash")
      case None
      then show ?thesis by (auto simp: strchr_None_iff dest: in_set_takeD)
    next
      case (Some s)
      with occ have "n \<le> s" by (auto dest: last_occ_Some)
      with Some show ?thesis
        by (auto simp: strchr_Some_iff dest: set_take_subset_set_take [THEN subsetD])
    qed
  qed
qed

section \<open>The captures rebuild the path\<close>

text \<open>\<open>fill pattern texts\<close> puts the texts in place of the stars, as far as they go.\<close>

fun fill :: "string \<Rightarrow> string list \<Rightarrow> string" where
  "fill [] ts = []"
| "fill (c # cs) ts =
     (if c = star then (case ts of [] \<Rightarrow> star # fill cs [] | t # ts' \<Rightarrow> t @ fill cs ts')
      else c # fill cs ts)"

lemma capture_loop_fill:
  "capture_loop pp sp caps = Some caps' \<Longrightarrow>
     \<exists>new. caps' = caps @ new \<and> length new = count_list pp star \<and> fill pp (map cap_text new) = sp"
proof (induction pp arbitrary: sp caps)
  case Nil
  then show ?case by (auto split: if_splits)
next
  case (Cons c pp)
  show ?case
  proof (cases "c = star")
    case True
    with Cons.prems obtain n where n: "star_stop pp sp = Some n"
      "capture_loop pp (drop n sp) (caps @ [(sp, n)]) = Some caps'"
      by (auto simp: capture_steps split: option.splits)
    with Cons.IH obtain new where "caps' = (caps @ [(sp, n)]) @ new"
      "length new = count_list pp star" "fill pp (map cap_text new) = drop n sp" by blast
    moreover have "cap_text (sp, n) = take n sp" by (simp add: cap_text_def)
    ultimately show ?thesis using True by (intro exI [of _ "(sp, n) # new"]) simp
  next
    case False
    with Cons.prems obtain sp' where "sp = c # sp'" "capture_loop pp sp' caps = Some caps'"
      by (cases sp) (auto simp: capture_steps split: if_splits)
    with Cons.IH False show ?thesis by fastforce
  qed
qed

lemma capture_loop_segments:
  "capture_loop pp sp caps = Some caps' \<Longrightarrow> pp = [] \<or> last pp \<noteq> star \<Longrightarrow>
     \<forall>c\<in>set caps. slash \<notin> set (cap_text c) \<Longrightarrow> \<forall>c\<in>set caps'. slash \<notin> set (cap_text c)"
proof (induction pp arbitrary: sp caps)
  case Nil
  then show ?case by (auto split: if_splits)
next
  case (Cons c pp)
  show ?case
  proof (cases "c = star")
    case True
    with Cons.prems(2) have pp: "pp \<noteq> []" by auto
    from True Cons.prems(1) obtain n where n: "star_stop pp sp = Some n"
      "capture_loop pp (drop n sp) (caps @ [(sp, n)]) = Some caps'"
      by (auto simp: capture_steps split: option.splits)
    have "slash \<notin> set (cap_text (sp, n))"
      using star_stop_segment [OF n(1) pp] by (simp add: cap_text_def)
    with Cons.IH [OF n(2)] Cons.prems(2,3) pp show ?thesis by auto
  next
    case False
    with Cons.prems obtain sp' where "sp = c # sp'" "capture_loop pp sp' caps = Some caps'"
      by (cases sp) (auto simp: capture_steps split: if_splits)
    with Cons.IH Cons.prems(2,3) show ?thesis by (cases "pp = []") auto
  qed
qed

lemma capture_loop_literal:
  "star \<notin> set pp \<Longrightarrow> capture_loop pp sp caps = (if sp = pp then Some caps else None)"
proof (induction pp arbitrary: sp)
  case (Cons c pp)
  then show ?case by (cases sp) (auto simp: capture_steps)
qed simp

text \<open>Stars that stand for whole segments take exactly their segments.\<close>

lemma capture_lits:
  "star \<notin> set lit \<Longrightarrow> capture_loop (lit @ pp) (lit @ sp) caps = capture_loop pp sp caps"
  by (induction lit) (auto simp: capture_steps)

definition seg_matches :: "string \<Rightarrow> string \<Rightarrow> bool" where
  "seg_matches p s \<longleftrightarrow> p = [star] \<or> star \<notin> set p \<and> p = s"

lemma strchr_segment: "slash \<notin> set s \<Longrightarrow> strchr (s @ slash # r) slash = Some (length s)"
  by (auto simp: strchr_Some_iff nth_append)

lemma capture_loop_complete:
  assumes "list_all2 seg_matches ps ss" and "list_all seg_ok ss"
  shows "\<exists>new. capture_loop (path_of ps) (path_of ss) caps = Some (caps @ new)
           \<and> map cap_text new = map snd (filter (\<lambda>(p, s). p = [star]) (zip ps ss))"
  using assms
proof (induction ps ss arbitrary: caps rule: list_all2_induct)
  case Nil
  then show ?case by simp
next
  case (Cons p ps s ss)
  then have s: "slash \<notin> set s" by (simp add: seg_ok_def)
  have step: "capture_loop (slash # p @ path_of ps) (slash # s @ path_of ss) caps =
      capture_loop (p @ path_of ps) (s @ path_of ss) caps"
    by (simp add: capture_lit)
  show ?case
  proof (cases "p = [star]")
    case False
    with Cons show ?thesis by (auto simp: capture_lit seg_matches_def capture_lits)
  next
    case True
    have "star_stop (path_of ps) (s @ path_of ss) = Some (length s)"
      using Cons.hyps(2) s by (cases ps; cases ss) (auto simp: star_stop_def strchr_segment)
    then have "capture_loop (p @ path_of ps) (s @ path_of ss) caps =
        capture_loop (path_of ps) (path_of ss) (caps @ [(s @ path_of ss, length s)])"
      using True by (simp add: capture_star)
    moreover obtain new where
      "capture_loop (path_of ps) (path_of ss) (caps @ [(s @ path_of ss, length s)]) =
         Some ((caps @ [(s @ path_of ss, length s)]) @ new)"
      "map cap_text new = map snd (filter (\<lambda>(p, s). p = [star]) (zip ps ss))"
      using Cons by (metis list.pred_inject(2))
    moreover have "cap_text (s @ path_of ss, length s) = s" by (simp add: cap_text_def)
    ultimately show ?thesis
      using True step by (intro exI [of _ "(s @ path_of ss, length s) # new"]) simp
  qed
qed

section \<open>Properties\<close>

text \<open>C19: Capturing is exact: putting the captured texts back in the place of the stars gives
  the path again, with one capture for each star of the pattern.\<close>

theorem capture_then_fill:
  assumes "pm_capture_stars pattern path maxcaps = Some caps" and "count_list pattern star \<le> maxcaps"
  shows "length caps = count_list pattern star \<and> fill pattern (map cap_text caps) = path"
  using assms capture_loop_fill [of pattern path "[]"]
  by (auto simp: pm_capture_stars_def split: if_splits)

lemma capture_then_fill_witness:
  "pm_capture_stars ''/opt/*/lib*.so'' ''/opt/app/libfoo.so'' 8 = Some [(''app/libfoo.so'', 3), (''foo.so'', 3)]
   \<and> fill ''/opt/*/lib*.so'' [''app'', ''foo''] = ''/opt/app/libfoo.so''"
proof -
  have run: "pm_capture_stars ''/opt/*/lib*.so'' ''/opt/app/libfoo.so'' 8
      = Some [(''app/libfoo.so'', 3), (''foo.so'', 3)]"
    by code_simp
  show ?thesis using capture_then_fill [OF run] run by (simp add: cap_text_def)
qed

text \<open>C20: Capturing is complete on patterns of whole segments: when every segment of the path
  is the segment of the pattern or stands under a lone star, the pattern matches, and the captures
  are the segments under the stars.\<close>

theorem capture_complete:
  assumes "list_all2 seg_matches ps ss" and "list_all seg_ok ss"
    and "CHR ''?'' \<notin> set (path_of ps)" and "CHR ''['' \<notin> set (path_of ps)"
  shows "\<exists>caps. pm_capture_stars (path_of ps) (path_of ss) (length ps) = Some caps
     \<and> map cap_text caps = map snd (filter (\<lambda>(p, s). p = [star]) (zip ps ss))"
proof -
  have "length (filter (\<lambda>(p, s). p = [star]) (zip ps ss)) \<le> length ps"
    using length_filter_le [of _ "zip ps ss"] by (rule order_trans) simp
  moreover
  obtain new where "capture_loop (path_of ps) (path_of ss) [] = Some new"
      "map cap_text new = map snd (filter (\<lambda>(p, s). p = [star]) (zip ps ss))"
    using capture_loop_complete [OF assms(1,2), of "[]"] by auto
  ultimately show ?thesis using assms(3,4) by (auto simp: pm_capture_stars_def simp flip: take_map)
qed

lemma capture_complete_witness:
  "\<exists>caps. pm_capture_stars (path_of [''opt'', ''*'', ''lib'']) (path_of [''opt'', ''app'', ''lib'']) 3 = Some caps
     \<and> map cap_text caps = [''app'']"
  using capture_complete [of "[''opt'', ''*'', ''lib'']" "[''opt'', ''app'', ''lib'']"]
  by (simp add: seg_matches_def seg_ok_def numeral_3_eq_3)

end
