(* ===== verification/Forward.thy ===== *)
theory Forward
  imports Config Capture
begin

text \<open>
  The forward mapping of \<^verbatim>\<open>src/lib/pathmap_common.h\<close>: a virtual path to the real one,
  by the longest matching FROM (\<open>pm_apply_mapping_with_config\<close>), and the simpler first-match
  variant over an array of pairs (\<open>pm_apply_mapping_pairs\<close>).

  Both return their argument pointer (\<^term>\<open>Same\<close>) or the buffer they filled
  (\<^term>\<open>New\<close>). \<^verbatim>\<open>best_from_len\<close> is written and never read in the C
  code, and has no field here. The arrays \<^verbatim>\<open>best_caps\<close>, \<^verbatim>\<open>best_caplens\<close> up to
  \<^verbatim>\<open>best_capcount\<close> are one list.
\<close>

section \<open>First match over an array of pairs\<close>

fun pm_apply_mapping_pairs :: "string \<Rightarrow> (string \<times> string) list \<Rightarrow> nat \<Rightarrow> cptr" where
  "pm_apply_mapping_pairs inp [] out_size = Same"
| "pm_apply_mapping_pairs inp ((from, to) # pairs) out_size =
     (if pm_path_prefix_matches from inp then
        (if out_size \<le> pm_pathlen to + (length inp - pm_pathlen from) + 1 then Same
         else New (take (pm_pathlen to) to @ drop (pm_pathlen from) inp))
      else pm_apply_mapping_pairs inp pairs out_size)"

section \<open>The best match\<close>

record fwd_best =
  best_index :: "nat option"
  best_match_len :: nat
  best_tail :: "string option"
  best_has_captured_tail :: bool
  best_caps :: "capture list"

definition fwd_none :: fwd_best where
  "fwd_none = \<lparr>best_index = None, best_match_len = 0, best_tail = None,
     best_has_captured_tail = False, best_caps = []\<rparr>"

text \<open>One star, and neither \<^verbatim>\<open>?\<close> nor \<^verbatim>\<open>[\<close>: the offset of the star.\<close>

definition single_star :: "string \<Rightarrow> nat option" where
  "single_star from =
     (case strchr from star of
        None \<Rightarrow> None
      | Some a \<Rightarrow>
          if strchr (drop (Suc a) from) star = None \<and> strchr from CHR ''?'' = None
             \<and> strchr from CHR ''['' = None
          then Some a else None)"

text \<open>How much the single star takes of the path behind the literal prefix.\<close>

definition star_take :: "string \<Rightarrow> string \<Rightarrow> nat" where
  "star_take after_star captured_start =
     (case after_star of
        [] \<Rightarrow> length captured_start
      | c # _ \<Rightarrow>
          if c = slash then
            (case strchr captured_start slash of Some n \<Rightarrow> n | None \<Rightarrow> length captured_start)
          else
            (case strchr captured_start slash of Some n \<Rightarrow> n | None \<Rightarrow> length captured_start))"

definition fwd_single :: "string \<Rightarrow> nat \<Rightarrow> string \<Rightarrow> nat \<Rightarrow> fwd_best \<Rightarrow> fwd_best" where
  "fwd_single inp i from pref_len b =
     (if strncmp_eq from inp pref_len then
        (let captured_start = drop pref_len inp;
             captured_len = star_take (drop (Suc pref_len) from) captured_start
         in if best_match_len b \<le> pref_len then
              \<lparr>best_index = Some i, best_match_len = pref_len, best_tail = Some captured_start,
               best_has_captured_tail = True, best_caps = [(captured_start, captured_len)]\<rparr>
            else b)
      else b)"

text \<open>
  The other globs. \<^verbatim>\<open>capcount\<close> starts at 0 and becomes \<^verbatim>\<open>-1\<close>
  (\<^term>\<open>None\<close>) only when \<^verbatim>\<open>pm_capture_stars\<close> says so.
\<close>

definition fwd_multi ::
    "(string \<Rightarrow> string \<Rightarrow> bool) \<Rightarrow> string \<Rightarrow> nat \<Rightarrow> string \<Rightarrow> fwd_best \<Rightarrow> fwd_best" where
  "fwd_multi fnm inp i from b =
     (let capcount =
        (if strchr from star \<noteq> None \<and> strchr from CHR ''?'' = None \<and> strchr from CHR ''['' = None
         then pm_capture_stars from inp 8 else Some [])
      in if capcount \<noteq> None \<or> fnm from inp then
           (if best_match_len b \<le> length inp then
              \<lparr>best_index = Some i, best_match_len = length inp, best_tail = Some [],
               best_has_captured_tail = False,
               best_caps = (case capcount of Some caps \<Rightarrow> caps | None \<Rightarrow> [])\<rparr>
            else b)
         else b)"

definition fwd_prefix :: "string \<Rightarrow> nat \<Rightarrow> string \<Rightarrow> fwd_best \<Rightarrow> fwd_best" where
  "fwd_prefix inp i from b =
     (if pm_path_prefix_matches from inp then
        (let from_len = pm_pathlen from in
         if best_match_len b < from_len then
           b\<lparr>best_index := Some i, best_match_len := from_len,
             best_tail := Some (drop from_len inp), best_has_captured_tail := False\<rparr>
         else b)
      else b)"

definition fwd_step ::
    "(string \<Rightarrow> string \<Rightarrow> bool) \<Rightarrow> string \<Rightarrow> nat \<Rightarrow> pm_mapping \<Rightarrow> fwd_best \<Rightarrow> fwd_best" where
  "fwd_step fnm inp i m b =
     (if mapping_is_glob m then
        (case single_star (map_from m) of
           Some a \<Rightarrow> fwd_single inp i (map_from m) a b
         | None \<Rightarrow> fwd_multi fnm inp i (map_from m) b)
      else fwd_prefix inp i (map_from m) b)"

fun fwd_loop ::
    "(string \<Rightarrow> string \<Rightarrow> bool) \<Rightarrow> string \<Rightarrow> nat \<Rightarrow> pm_mapping list \<Rightarrow> fwd_best \<Rightarrow> fwd_best" where
  "fwd_loop fnm inp i [] b = b"
| "fwd_loop fnm inp i (m # ms) b = fwd_loop fnm inp (Suc i) ms (fwd_step fnm inp i m b)"

section \<open>Building the result\<close>

text \<open>
  \<^verbatim>\<open>out[pos++] = c\<close> behind the check \<^verbatim>\<open>if (pos + 1 >= out_size) return in\<close>;
  \<^term>\<open>None\<close> is that return.
\<close>

definition put_char :: "nat \<Rightarrow> string \<Rightarrow> char \<Rightarrow> string option" where
  "put_char out_size out c = (if out_size \<le> length out + 1 then None else Some (out @ [c]))"

definition put_cap :: "nat \<Rightarrow> string \<Rightarrow> capture \<Rightarrow> string option" where
  "put_cap out_size out cap =
     (if out_size \<le> length out + snd cap then None else Some (out @ cap_text cap))"

text \<open>\<^verbatim>\<open>best_caps[capi][0]\<close> is the byte at the capture's pointer, NUL at the end of the path.\<close>

definition cap_at_slash :: "capture \<Rightarrow> bool" where
  "cap_at_slash cap \<longleftrightarrow> fst cap \<noteq> [] \<and> hd (fst cap) = slash"

text \<open>
  The loop over TO with the captures left; \<open>prev\<close> is the byte of TO before the current one.
\<close>

fun subst_loop :: "nat \<Rightarrow> char option \<Rightarrow> string \<Rightarrow> capture list \<Rightarrow> string \<Rightarrow> string option" where
  "subst_loop n prev [] caps out = Some out"
| "subst_loop n prev (c # cs) caps out =
     (if c = star \<and> caps \<noteq> [] then
        do {
          out \<leftarrow> (if out \<noteq> [] \<and> last out \<noteq> slash \<and> \<not> cap_at_slash (hd caps) \<and> prev = Some slash
                 then put_char n out slash else Some out);
          out \<leftarrow> put_cap n out (hd caps);
          (case cs of
             [] \<Rightarrow> Some out
           | d # ds \<Rightarrow>
               if d = slash then
                 do {
                   out \<leftarrow> (if out \<noteq> [] \<and> last out \<noteq> slash then put_char n out slash else Some out);
                   subst_loop n (Some slash) ds (tl caps) out
                 }
               else subst_loop n (Some star) cs (tl caps) out)
        }
      else do {
        out \<leftarrow> put_char n out c;
        subst_loop n (Some c) cs caps out
      })"

text \<open>The joins without captures. \<^term>\<open>None\<close>: it did not fit, go on.\<close>

definition join_star :: "nat \<Rightarrow> string \<Rightarrow> nat \<Rightarrow> string \<Rightarrow> string option" where
  "join_star out_size to left_len tail =
     (let right = drop (Suc left_len) to;
          need_sep_left = (left_len > 0 \<and> to ! (left_len - 1) \<noteq> slash \<and> tail \<noteq> [] \<and> hd tail \<noteq> slash);
          need_sep_right = (right \<noteq> [] \<and> tail \<noteq> [] \<and> last tail \<noteq> slash \<and> hd right \<noteq> slash);
          out = take left_len to @ (if need_sep_left then [slash] else []) @ tail
                @ (if need_sep_right then [slash] else []) @ right
      in if length out + 1 < out_size then Some out else None)"

definition join_tail :: "nat \<Rightarrow> string \<Rightarrow> string \<Rightarrow> cptr" where
  "join_tail out_size to tail =
     (let need_sep = (to \<noteq> [] \<and> last to \<noteq> slash \<and> tail \<noteq> [] \<and> hd tail \<noteq> slash);
          out = to @ (if need_sep then [slash] else []) @ tail
      in if length out + 1 < out_size then New out else Same)"

definition build_mapped :: "nat \<Rightarrow> pm_mapping list \<Rightarrow> fwd_best \<Rightarrow> cptr" where
  "build_mapped out_size ms b =
     (case best_index b of
        None \<Rightarrow> Same
      | Some i \<Rightarrow>
          (let to = map_to (ms ! i);
               tail = (case best_tail b of Some t \<Rightarrow> t | None \<Rightarrow> [])
           in if best_caps b \<noteq> [] then
                (case subst_loop out_size None to (best_caps b) [] of None \<Rightarrow> Same | Some out \<Rightarrow> New out)
              else
                (case (if best_has_captured_tail b then strchr to star else None) of
                   Some left_len \<Rightarrow>
                     (case join_star out_size to left_len tail of
                        Some out \<Rightarrow> New out | None \<Rightarrow> join_tail out_size to tail)
                 | None \<Rightarrow> join_tail out_size to tail)))"

definition pm_apply_mapping_with_config ::
    "(string \<Rightarrow> string \<Rightarrow> bool) \<Rightarrow> string \<Rightarrow> nat \<Rightarrow> pm_mapping_config \<Rightarrow> cptr" where
  "pm_apply_mapping_with_config fnm inp out_size config =
     (if list_ex (\<lambda>m. pm_path_prefix_matches (map_to m) inp) (mappings config) then Same
      else build_mapped out_size (mappings config) (fwd_loop fnm inp 0 (mappings config) fwd_none))"

section \<open>The result fits the buffer\<close>

lemma length_cap_text [path_intros]: "length (cap_text c) \<le> snd c"
  by (simp add: cap_text_def)

lemma put_char_Some [simp]: "put_char n out c = Some out' \<longleftrightarrow> out' = out @ [c] \<and> length out' < n"
  by (auto simp: put_char_def)

lemma put_cap_Some: "put_cap n out cap = Some out' \<Longrightarrow> out' = out @ cap_text cap \<and> length out' < n"
  using length_cap_text [of cap] by (auto simp: put_cap_def split: if_splits)

lemma subst_loop_fits:
  "subst_loop n prev to caps out = Some out' \<Longrightarrow> length out < n \<Longrightarrow> length out' < n"
proof (induction n prev to caps out arbitrary: out' rule: subst_loop.induct)
  case (2 n prev c cs caps out)
  show ?case
  proof (cases "c = star \<and> caps \<noteq> []")
    case False
    with "2.prems"(1) obtain out1 where o: "put_char n out c = Some out1"
      "subst_loop n (Some c) cs caps out1 = Some out'"
      by (auto simp: bind_eq_Some_conv simp del: put_char_Some)
    then show ?thesis using "2.IH"(3) [OF False o] by auto
  next
    case True
    let ?sep = "if out \<noteq> [] \<and> last out \<noteq> slash \<and> \<not> cap_at_slash (hd caps) \<and> prev = Some slash
                 then put_char n out slash else Some out"
    from True "2.prems" obtain out1 out2 where o1: "?sep = Some out1"
      and o2: "put_cap n out1 (hd caps) = Some out2"
      by (auto simp: bind_eq_Some_conv)
    then have fits: "length out2 < n" by (auto dest: put_cap_Some)
    show ?thesis
    proof (cases cs)
      case Nil
      with True "2.prems"(1) o1 o2 fits show ?thesis by simp
    next
      case (Cons d ds)
      show ?thesis
      proof (cases "d = slash")
        case False
        with True "2.prems"(1) o1 o2 Cons have "subst_loop n (Some star) cs (tl caps) out2 = Some out'"
          by simp
        with "2.IH"(2) [OF True o1 o2 Cons False] fits show ?thesis by simp
      next
        case slash: True
        let ?sep2 = "if out2 \<noteq> [] \<and> last out2 \<noteq> slash then put_char n out2 slash else Some out2"
        from True "2.prems"(1) o1 o2 Cons slash obtain out3 where o3: "?sep2 = Some out3"
          "subst_loop n (Some slash) ds (tl caps) out3 = Some out'"
          by (auto simp: bind_eq_Some_conv)
        moreover from o3(1) fits have "length out3 < n" by (auto split: if_splits)
        ultimately show ?thesis using "2.IH"(1) [OF True o1 o2 Cons slash o3(1)] by simp
      qed
    qed
  qed
qed simp

lemma join_star_fits: "join_star n to k tail = Some out \<Longrightarrow> length out < n"
  by (auto simp: join_star_def Let_def split: if_splits)

lemma join_tail_fits: "join_tail n to tail = New out \<Longrightarrow> length out < n"
  by (auto simp: join_tail_def Let_def split: if_splits)

lemma build_mapped_fits: "build_mapped n ms b = New out \<Longrightarrow> 0 < n \<Longrightarrow> length out < n"
  by (auto simp: build_mapped_def Let_def split: option.splits if_splits
      dest: subst_loop_fits join_star_fits join_tail_fits)

lemma forward_fits:
  "pm_apply_mapping_with_config fnm inp n config = New out \<Longrightarrow> 0 < n \<Longrightarrow> length out < n"
  by (auto simp: pm_apply_mapping_with_config_def split: if_splits dest: build_mapped_fits)

lemma mapping_pairs_fits: "pm_apply_mapping_pairs inp pairs n = New out \<Longrightarrow> length out < n"
  by (induction inp pairs n rule: pm_apply_mapping_pairs.induct)
     (auto split: if_splits simp: min_def pm_pathlen_strip)

section \<open>The loop stays inside the table\<close>

lemma fwd_step_index:
  "best_index (fwd_step fnm inp i m b) = best_index b \<or> best_index (fwd_step fnm inp i m b) = Some i"
  by (auto simp: fwd_step_def fwd_single_def fwd_multi_def fwd_prefix_def Let_def split: option.splits)

lemma fwd_loop_index:
  "best_index (fwd_loop fnm inp i ms b) = Some k \<Longrightarrow> best_index b = Some k \<or> (i \<le> k \<and> k < i + length ms)"
proof (induction ms arbitrary: i b)
  case (Cons m ms)
  have "best_index (fwd_step fnm inp i m b) = Some k \<or> Suc i \<le> k \<and> k < Suc i + length ms"
    using Cons.IH [of "Suc i" "fwd_step fnm inp i m b"] Cons.prems by simp
  with fwd_step_index [of fnm inp i m b] show ?case by auto
qed simp

section \<open>Prefix mappings: the longest FROM wins\<close>

definition prefix_only :: "pm_mapping list \<Rightarrow> bool" where
  "prefix_only ms = list_all (\<lambda>m. \<not> mapping_is_glob m) ms"

text \<open>The specification: the first among the longest matching entries.\<close>

definition longest_match :: "string \<Rightarrow> pm_mapping list \<Rightarrow> nat \<Rightarrow> bool" where
  "longest_match inp ms i \<longleftrightarrow>
     i < length ms \<and> pm_path_prefix_matches (map_from (ms ! i)) inp \<and> 0 < pm_pathlen (map_from (ms ! i))
     \<and> (\<forall>j < length ms. pm_path_prefix_matches (map_from (ms ! j)) inp \<longrightarrow>
          pm_pathlen (map_from (ms ! j)) \<le> pm_pathlen (map_from (ms ! i))
          \<and> (j < i \<longrightarrow> pm_pathlen (map_from (ms ! j)) < pm_pathlen (map_from (ms ! i))))"

text \<open>What the loop knows after the first entries \<open>ms\<close>.\<close>

definition best_after :: "string \<Rightarrow> pm_mapping list \<Rightarrow> fwd_best \<Rightarrow> bool" where
  "best_after inp ms b \<longleftrightarrow>
     best_caps b = [] \<and> \<not> best_has_captured_tail b
     \<and> (case best_index b of
          None \<Rightarrow> best_match_len b = 0
            \<and> (\<forall>m\<in>set ms. pm_path_prefix_matches (map_from m) inp \<longrightarrow> pm_pathlen (map_from m) = 0)
        | Some i \<Rightarrow> longest_match inp ms i \<and> best_match_len b = pm_pathlen (map_from (ms ! i))
            \<and> best_tail b = Some (drop (pm_pathlen (map_from (ms ! i))) inp))"

lemma longest_match_snoc:
  assumes "longest_match inp ms i"
    and "pm_path_prefix_matches (map_from m) inp \<Longrightarrow> pm_pathlen (map_from m) \<le> pm_pathlen (map_from (ms ! i))"
  shows "longest_match inp (ms @ [m]) i"
  using assms by (auto simp: longest_match_def nth_append less_Suc_eq)

lemma longest_match_new:
  assumes "pm_path_prefix_matches (map_from m) inp" and "0 < pm_pathlen (map_from m)"
    and "\<forall>x\<in>set ms. pm_path_prefix_matches (map_from x) inp \<longrightarrow> pm_pathlen (map_from x) < pm_pathlen (map_from m)"
  shows "longest_match inp (ms @ [m]) (length ms)"
  using assms by (auto simp: longest_match_def nth_append less_Suc_eq dest: nth_mem intro: less_imp_le)

lemma fwd_step_best_after:
  assumes "best_after inp ms b" and "\<not> mapping_is_glob m"
  shows "best_after inp (ms @ [m]) (fwd_step fnm inp (length ms) m b)"
proof (cases "pm_path_prefix_matches (map_from m) inp \<and> best_match_len b < pm_pathlen (map_from m)")
  case True
  have "\<forall>x\<in>set ms. pm_path_prefix_matches (map_from x) inp \<longrightarrow> pm_pathlen (map_from x) < pm_pathlen (map_from m)"
    using assms(1) True
    by (fastforce simp: best_after_def longest_match_def in_set_conv_nth split: option.splits)
  then have "longest_match inp (ms @ [m]) (length ms)"
    using True by (intro longest_match_new) auto
  with True assms show ?thesis
    by (simp add: best_after_def fwd_step_def fwd_prefix_def Let_def)
next
  case False
  with assms(2) have same: "fwd_step fnm inp (length ms) m b = b"
    by (auto simp: fwd_step_def fwd_prefix_def Let_def)
  show ?thesis
  proof (cases "best_index b")
    case None
    with assms(1) False same show ?thesis by (auto simp: best_after_def)
  next
    case (Some i)
    with assms(1) False same show ?thesis
      using longest_match_snoc [of inp ms i m]
      by (auto simp: best_after_def nth_append longest_match_def not_less)
  qed
qed

lemma fwd_loop_best_after:
  "best_after inp ms b \<Longrightarrow> prefix_only ms' \<Longrightarrow> best_after inp (ms @ ms') (fwd_loop fnm inp (length ms) ms' b)"
proof (induction ms' arbitrary: ms b)
  case (Cons m ms')
  then have "best_after inp (ms @ [m]) (fwd_step fnm inp (length ms) m b)"
    by (intro fwd_step_best_after) (simp_all add: prefix_only_def)
  with Cons.IH [of "ms @ [m]"] Cons.prems(2) show ?case by (simp add: prefix_only_def)
qed simp

lemma fwd_loop_prefix:
  "prefix_only ms \<Longrightarrow> best_after inp ms (fwd_loop fnm inp 0 ms fwd_none)"
  using fwd_loop_best_after [of inp "[]" fwd_none ms fnm]
  by (simp add: best_after_def fwd_none_def)

text \<open>The path a prefix mapping gives, before the length check.\<close>

definition prefix_target :: "string \<Rightarrow> pm_mapping \<Rightarrow> string" where
  "prefix_target inp m =
     map_to m @ drop (pm_pathlen (map_from m)) inp"

lemma join_tail_prefix:
  "tail = [] \<or> hd tail = slash \<Longrightarrow>
     join_tail n to tail = (if length (to @ tail) + 1 < n then New (to @ tail) else Same)"
  by (auto simp: join_tail_def Let_def)

lemma forward_prefix_cases:
  assumes "prefix_only (mappings config)"
    and "\<not> list_ex (\<lambda>m. pm_path_prefix_matches (map_to m) inp) (mappings config)"
  obtains
      (none) "\<And>n. pm_apply_mapping_with_config fnm inp n config = Same"
        "\<forall>m\<in>set (mappings config). pm_path_prefix_matches (map_from m) inp \<longrightarrow> pm_pathlen (map_from m) = 0"
    | (some) i where "longest_match inp (mappings config) i"
        "\<And>n. pm_apply_mapping_with_config fnm inp n config =
           (if length (prefix_target inp (mappings config ! i)) + 1 < n
            then New (prefix_target inp (mappings config ! i)) else Same)"
proof (cases "best_index (fwd_loop fnm inp 0 (mappings config) fwd_none)")
  case None
  show ?thesis
    by (rule none)
       (use None fwd_loop_prefix [OF assms(1), of inp fnm] assms(2) in
         \<open>auto simp: pm_apply_mapping_with_config_def build_mapped_def best_after_def\<close>)
next
  case (Some i)
  then have b: "best_after inp (mappings config) (fwd_loop fnm inp 0 (mappings config) fwd_none)"
    by (simp add: fwd_loop_prefix assms(1))
  with Some have l: "longest_match inp (mappings config) i" by (simp add: best_after_def)
  then have "drop (pm_pathlen (map_from (mappings config ! i))) inp = []
      \<or> hd (drop (pm_pathlen (map_from (mappings config ! i))) inp) = slash"
    by (intro prefix_matches_split(2)) (simp add: longest_match_def)
  then have "pm_apply_mapping_with_config fnm inp n config =
      (if length (prefix_target inp (mappings config ! i)) + 1 < n
       then New (prefix_target inp (mappings config ! i)) else Same)" for n
    using assms(2) b Some
    by (simp add: pm_apply_mapping_with_config_def build_mapped_def best_after_def
        join_tail_prefix prefix_target_def del: length_append)
  with l show ?thesis by (rule some)
qed

lemma longest_match_unique:
  assumes "longest_match p ms i" and "longest_match p ms j"
  shows "i = j"
  using assms unfolding longest_match_def by (metis leD linorder_neqE_nat)

section \<open>Properties\<close>

text \<open>C30: On a table of prefix mappings the longest matching FROM wins, and the first of equal
  length: the result is its TO followed by the rest of the path, or the path unchanged when nothing
  matches or the result does not fit.\<close>

theorem forward_longest_prefix_wins:
  assumes "prefix_only (mappings config)"
    and "\<not> list_ex (\<lambda>m. pm_path_prefix_matches (map_to m) inp) (mappings config)"
    and "longest_match inp (mappings config) i"
  shows "pm_apply_mapping_with_config fnm inp n config =
     (let out = map_to (mappings config ! i) @ drop (pm_pathlen (map_from (mappings config ! i))) inp
      in if length out + 1 < n then New out else Same)"
  using assms(1,2)
proof (cases rule: forward_prefix_cases [where fnm = fnm])
  case none
  then show ?thesis
    using assms(3) nth_mem [of i "mappings config"] by (fastforce simp: longest_match_def)
next
  case (some j)
  then have "i = j" using longest_match_unique [OF assms(3)] by simp
  with some(2) show ?thesis by (simp add: prefix_target_def Let_def)
qed

lemma forward_longest_prefix_wins_witness:
  "pm_apply_mapping_with_config (\<lambda>_ _. False) ''/usr/lib/x'' 4096
     \<lparr>mappings = [env_mapping (''/usr'', ''/app''), env_mapping (''/usr/lib'', ''/libs'')], excludes = []\<rparr>
   = New ''/libs/x''"
proof -
  let ?c = "\<lparr>mappings = [env_mapping (''/usr'', ''/app''), env_mapping (''/usr/lib'', ''/libs'')], excludes = []\<rparr>"
  have "prefix_only (mappings ?c)" by code_simp
  moreover have "\<not> list_ex (\<lambda>m. pm_path_prefix_matches (map_to m) ''/usr/lib/x'') (mappings ?c)"
    by code_simp
  moreover have "longest_match ''/usr/lib/x'' (mappings ?c) 1"
    by (simp add: longest_match_def env_mapping_def All_less_Suc pm_path_prefix_matches_def pm_pathlen_def
        cstr_evals)
  ultimately have "pm_apply_mapping_with_config (\<lambda>_ _. False) ''/usr/lib/x'' 4096 ?c =
     (let out = map_to (mappings ?c ! 1) @ drop (pm_pathlen (map_from (mappings ?c ! 1))) ''/usr/lib/x''
      in if length out + 1 < 4096 then New out else Same)"
    by (rule forward_longest_prefix_wins)
  then show ?thesis by (simp add: env_mapping_def pm_pathlen_def)
qed

end
