(* ===== verification/Reverse.thy ===== *)
theory Reverse
  imports Forward
begin

text \<open>
  The reverse mapping of \<^verbatim>\<open>src/lib/pathmap_common.h\<close>, from a real path to its
  virtual counterpart, and its users: the virtual working directory, the results of
  \<^verbatim>\<open>readlink\<close> and \<^verbatim>\<open>realpath\<close>, and the names of directory entries.

  The plain join computes \<^verbatim>\<open>strlen(in) - to_len\<close> in a 64-bit \<^verbatim>\<open>size_t\<close>.
  The difference wraps when a glob TO is longer than the path it matched: the copy then leaves
  the buffer without its NUL or runs off both strings. That outcome is \<^term>\<open>None\<close>.

  \<^verbatim>\<open>best_to_has_star\<close> is written and never read in the C code, and has no field here.
\<close>

section \<open>size_t\<close>

definition SIZE_MOD :: nat where "SIZE_MOD = 2 ^ 64"

definition sz_add :: "nat \<Rightarrow> nat \<Rightarrow> nat" where "sz_add a b = (a + b) mod SIZE_MOD"
definition sz_sub :: "nat \<Rightarrow> nat \<Rightarrow> nat" where "sz_sub a b = (a + SIZE_MOD - b) mod SIZE_MOD"

section \<open>The reverse mapping\<close>

record rev_best =
  rev_index :: "nat option"
  rev_score :: nat
  rev_caps :: "capture list"

definition rev_none :: rev_best where
  "rev_none = \<lparr>rev_index = None, rev_score = 0, rev_caps = []\<rparr>"

definition rev_step ::
    "(string \<Rightarrow> string \<Rightarrow> bool) \<Rightarrow> string \<Rightarrow> nat \<Rightarrow> pm_mapping \<Rightarrow> rev_best \<Rightarrow> rev_best" where
  "rev_step fnm inp i m b =
     (let to = map_to m in
      if is_glob_pattern to then
        (let capcount =
           (if strchr to star \<noteq> None \<and> strchr to CHR ''?'' = None \<and> strchr to CHR ''['' = None
            then pm_capture_stars to inp 8 else None)
         in if capcount \<noteq> None \<or> fnm to inp then
              (if rev_score b \<le> length inp then
                 \<lparr>rev_index = Some i, rev_score = length inp,
                  rev_caps = (case capcount of Some caps \<Rightarrow> caps | None \<Rightarrow> [])\<rparr>
               else b)
            else b)
      else if pm_path_prefix_matches to inp then
        (if rev_score b < pm_pathlen to then
           \<lparr>rev_index = Some i, rev_score = pm_pathlen to, rev_caps = []\<rparr>
         else b)
      else b)"

fun rev_loop ::
    "(string \<Rightarrow> string \<Rightarrow> bool) \<Rightarrow> string \<Rightarrow> nat \<Rightarrow> pm_mapping list \<Rightarrow> rev_best \<Rightarrow> rev_best" where
  "rev_loop fnm inp i [] b = b"
| "rev_loop fnm inp i (m # ms) b = rev_loop fnm inp (Suc i) ms (rev_step fnm inp i m b)"

text \<open>The loop over FROM with the captures left.\<close>

fun rev_subst :: "nat \<Rightarrow> string \<Rightarrow> capture list \<Rightarrow> string \<Rightarrow> string option" where
  "rev_subst n [] caps out = Some out"
| "rev_subst n (c # cs) caps out =
     (if c = star \<and> caps \<noteq> [] then
        do {
          out \<leftarrow> (if out \<noteq> [] \<and> last out \<noteq> slash \<and> \<not> cap_at_slash (hd caps)
                 then put_char n out slash else Some out);
          out \<leftarrow> put_cap n out (hd caps);
          out \<leftarrow> (if cs \<noteq> [] \<and> hd cs \<noteq> slash \<and> out \<noteq> [] \<and> last out \<noteq> slash
                 then put_char n out slash else Some out);
          rev_subst n cs (tl caps) out
        }
      else do {
        out \<leftarrow> put_char n out c;
        rev_subst n cs caps out
      })"

definition rev_join :: "nat \<Rightarrow> string \<Rightarrow> string \<Rightarrow> string \<Rightarrow> cptr option" where
  "rev_join out_size inp from to =
     (let to_len = pm_pathlen to;
          from_len = pm_pathlen from;
          tail_len = sz_sub (length inp) to_len
      in if sz_add (sz_add from_len tail_len) 1 < out_size then
           (if to_len \<le> length inp
            then Some (New (take from_len from @ drop to_len inp))
            else None)
         else Some Same)"

definition pm_apply_reverse_mapping_with_config ::
    "(string \<Rightarrow> string \<Rightarrow> bool) \<Rightarrow> string \<Rightarrow> nat \<Rightarrow> pm_mapping_config \<Rightarrow> cptr option" where
  "pm_apply_reverse_mapping_with_config fnm inp out_size config =
     (if inp = [] then Some Same
      else if out_size < 2 then Some Same
      else
        (let b = rev_loop fnm inp 0 (mappings config) rev_none in
         case rev_index b of
           None \<Rightarrow> Some Same
         | Some i \<Rightarrow>
             (let from = map_from (mappings config ! i); to = map_to (mappings config ! i) in
              if rev_caps b \<noteq> [] \<and> strchr from star \<noteq> None then
                (case rev_subst out_size from (rev_caps b) [] of
                   None \<Rightarrow> Some Same | Some out \<Rightarrow> Some (New out))
              else rev_join out_size inp from to)))"

section \<open>The working directory and readlink\<close>

definition pm_virtualize_cwd_string ::
    "(string \<Rightarrow> string \<Rightarrow> bool) \<Rightarrow> string \<Rightarrow> nat \<Rightarrow> pm_mapping_config \<Rightarrow> cptr option" where
  "pm_virtualize_cwd_string fnm real out_size config =
     (if real = [] then Some Same
      else if \<not> pm_is_under_any_to_prefix fnm real config then Some Same
      else do {
        virt \<leftarrow> pm_apply_reverse_mapping_with_config fnm real MAX_PATH config;
        Some (case virt of
                Same \<Rightarrow> Same
              | New v \<Rightarrow> if length v + 1 \<le> out_size then New v else Same)
      })"

definition pm_is_proc_cwd_path :: "string \<Rightarrow> bool" where
  "pm_is_proc_cwd_path path =
     (if \<not> strncmp_eq path ''/proc/'' 6 then False else strstr path ''/cwd'')"

text \<open>
  \<^verbatim>\<open>readlink\<close> leaves \<open>n\<close> bytes in a buffer of \<open>bufsiz\<close> bytes; the
  result is the new count and the new buffer.
\<close>

definition pm_virtualize_proc_cwd_readlink_result ::
    "(string \<Rightarrow> string \<Rightarrow> bool) \<Rightarrow> string \<Rightarrow> string \<Rightarrow> int \<Rightarrow> nat \<Rightarrow> pm_mapping_config
       \<Rightarrow> (int \<times> string) option" where
  "pm_virtualize_proc_cwd_readlink_result fnm path buf n bufsiz config =
     (if \<not> pm_is_proc_cwd_path path then Some (n, buf)
      else if n \<le> 0 then Some (n, buf)
      else
        (let copy_in = (if nat n < MAX_PATH - 1 then nat n else MAX_PATH - 1);
             tmp = take copy_in buf
         in do {
           virt \<leftarrow> pm_apply_reverse_mapping_with_config fnm tmp MAX_PATH config;
           Some (case virt of
                   Same \<Rightarrow> (n, buf)
                 | New v \<Rightarrow> (let tocopy = (if length v < bufsiz then length v else bufsiz)
                            in (int tocopy, take tocopy v @ drop tocopy buf)))
         }))"

definition pm_reverse_readlink_inplace ::
    "(string \<Rightarrow> string \<Rightarrow> bool) \<Rightarrow> string \<Rightarrow> int \<Rightarrow> nat \<Rightarrow> pm_mapping_config
       \<Rightarrow> (int \<times> string) option" where
  "pm_reverse_readlink_inplace fnm buf n bufsiz config =
     (if n \<le> 0 then Some (n, buf)
      else
        (let copy_in = (if nat n < MAX_PATH - 1 then nat n else MAX_PATH - 1);
             tmp = take copy_in buf
         in do {
           virt \<leftarrow> pm_apply_reverse_mapping_with_config fnm tmp MAX_PATH config;
           Some (case virt of
                   Same \<Rightarrow> (n, buf)
                 | New v \<Rightarrow>
                     if pm_is_excluded_prefix fnm v config then (n, buf)
                     else (let tocopy = (if length v < bufsiz then length v else bufsiz)
                           in (int tocopy, take tocopy v @ drop tocopy buf)))
         }))"

section \<open>Allocated results\<close>

text \<open>
  The argument is an allocated string or NULL. The result is the returned string and whether
  the original was freed; \<open>alloc\<close> says whether \<^verbatim>\<open>malloc\<close> succeeds.
\<close>

definition pm_reverse_string_result ::
    "(string \<Rightarrow> string \<Rightarrow> bool) \<Rightarrow> bool \<Rightarrow> string option \<Rightarrow> pm_mapping_config \<Rightarrow> bool
       \<Rightarrow> (string option \<times> bool) option" where
  "pm_reverse_string_result fnm alloc result config should_free_original =
     (case result of
        None \<Rightarrow> Some (None, False)
      | Some r \<Rightarrow> do {
          virt \<leftarrow> pm_apply_reverse_mapping_with_config fnm r MAX_PATH config;
          Some (case virt of
                  Same \<Rightarrow> (Some r, False)
                | New v \<Rightarrow>
                    if pm_is_excluded_prefix fnm v config then (Some r, False)
                    else if \<not> alloc then (None, False)
                    else (Some v, should_free_original))
        })"

definition pm_reverse_realpath_result ::
    "(string \<Rightarrow> string \<Rightarrow> bool) \<Rightarrow> bool \<Rightarrow> string option \<Rightarrow> pm_mapping_config
       \<Rightarrow> (string option \<times> bool) option" where
  "pm_reverse_realpath_result fnm alloc result config =
     pm_reverse_string_result fnm alloc result config True"

section \<open>Names of directory entries\<close>

definition NAME_MAX :: nat where "NAME_MAX = 255"

definition basename_of :: "string \<Rightarrow> string" where
  "basename_of s = (case strrchr s slash of Some k \<Rightarrow> drop (Suc k) s | None \<Rightarrow> s)"

text \<open>The last checks of both heuristics, on FROM: \<^term>\<open>None\<close> is \<^verbatim>\<open>continue\<close>.\<close>

definition shown_name ::
    "(string \<Rightarrow> string \<Rightarrow> bool) \<Rightarrow> nat \<Rightarrow> pm_mapping_config \<Rightarrow> string \<Rightarrow> string option" where
  "shown_name fnm out_name_size config from =
     (let from_base = basename_of from in
      if from_base = [] then None
      else if out_name_size < length from_base + 1 then None
      else if pm_is_excluded_prefix fnm from config then None
      else Some from_base)"

text \<open>The real parent of a TO lists the TO under the base name of its FROM.\<close>

fun real_parent_loop ::
    "(string \<Rightarrow> string \<Rightarrow> bool) \<Rightarrow> string \<Rightarrow> string \<Rightarrow> nat \<Rightarrow> pm_mapping_config \<Rightarrow> pm_mapping list
       \<Rightarrow> string option option" where
  "real_parent_loop fnm dir_norm entry_name sz config [] = Some None"
| "real_parent_loop fnm dir_norm entry_name sz config (m # ms) =
     (let next = real_parent_loop fnm dir_norm entry_name sz config ms;
          to_copy = copy_trunc MAX_PATH (map_to m)
      in case strrchr to_copy slash of
           None \<Rightarrow> next
         | Some k \<Rightarrow>
             if k = 0 then next
             else do {
               to_dir_norm \<leftarrow> pm_normalize_path_inplace (copy_trunc MAX_PATH (take k to_copy));
               if dir_norm \<noteq> to_dir_norm then next
               else if entry_name \<noteq> drop (Suc k) to_copy then next
               else (case shown_name fnm sz config (map_from m) of
                       Some name \<Rightarrow> Some (Some name) | None \<Rightarrow> next)
             })"

text \<open>The virtual parent of a FROM lists the base name of the TO as that of the FROM.\<close>

fun virtual_parent_loop ::
    "(string \<Rightarrow> string \<Rightarrow> bool) \<Rightarrow> string \<Rightarrow> string \<Rightarrow> nat \<Rightarrow> pm_mapping_config \<Rightarrow> pm_mapping list
       \<Rightarrow> string option option" where
  "virtual_parent_loop fnm dir_norm entry_name sz config [] = Some None"
| "virtual_parent_loop fnm dir_norm entry_name sz config (m # ms) =
     (let next = virtual_parent_loop fnm dir_norm entry_name sz config ms;
          from_copy = copy_trunc MAX_PATH (map_from m)
      in case strrchr from_copy slash of
           None \<Rightarrow> next
         | Some k \<Rightarrow>
             if k = 0 then next
             else do {
               from_dir_norm \<leftarrow> pm_normalize_path_inplace (copy_trunc MAX_PATH (take k from_copy));
               (let from_base = drop (Suc k) from_copy in
                if dir_norm \<noteq> from_dir_norm then next
                else if entry_name \<noteq> basename_of (map_to m) then next
                else if from_base = [] then next
                else if sz < length from_base + 1 then next
                else if pm_is_excluded_prefix fnm (map_from m) config then next
                else Some (Some from_base))
             })"

definition pm_reverse_basename_from_dir ::
    "(string \<Rightarrow> string \<Rightarrow> bool) \<Rightarrow> string \<Rightarrow> string \<Rightarrow> nat \<Rightarrow> pm_mapping_config \<Rightarrow> string option option" where
  "pm_reverse_basename_from_dir fnm dirpath entry_name out_name_size config =
     (if entry_name = ''.'' \<or> entry_name = ''..'' then Some None
      else if \<not> list_ex (\<lambda>m. pm_path_prefix_matches (map_to m) dirpath) (mappings config) then Some None
      else if MAX_PATH \<le> length dirpath + 1 + length entry_name + 1 then Some None
      else do {
        full \<leftarrow> pm_normalize_path_inplace (dirpath @ slash # entry_name);
        virt \<leftarrow> pm_apply_reverse_mapping_with_config fnm full MAX_PATH config;
        (case virt of
           Same \<Rightarrow> do {
             dir_norm \<leftarrow> pm_normalize_path_inplace (copy_trunc MAX_PATH dirpath);
             r1 \<leftarrow> real_parent_loop fnm dir_norm entry_name out_name_size config (mappings config);
             (case r1 of
                Some name \<Rightarrow> Some (Some name)
              | None \<Rightarrow> virtual_parent_loop fnm dir_norm entry_name out_name_size config (mappings config))
           }
         | New v \<Rightarrow>
             if pm_is_excluded_prefix fnm v config then Some None
             else
               (let newname = basename_of v in
                if newname = [] then Some None
                else if out_name_size < length newname + 1 then Some None
                else Some (Some newname)))
      })"

text \<open>The result: whether the name changed, and the name.\<close>

definition pm_reverse_basename_apply_inplace ::
    "(string \<Rightarrow> string \<Rightarrow> bool) \<Rightarrow> string \<Rightarrow> string \<Rightarrow> nat \<Rightarrow> pm_mapping_config \<Rightarrow> (bool \<times> string) option" where
  "pm_reverse_basename_apply_inplace fnm dirpath name name_buf_capacity config =
     (if name_buf_capacity = 0 then Some (False, name)
      else
        (let oldlen = min (length name) (name_buf_capacity - 1) in
         if oldlen = 0 then Some (False, name)
         else do {
           r \<leftarrow> pm_reverse_basename_from_dir fnm dirpath name (NAME_MAX + 1) config;
           Some (case r of
                   None \<Rightarrow> (False, name)
                 | Some newname \<Rightarrow>
                     if oldlen < length newname then (False, name)
                     else if name_buf_capacity < length newname + 1 then (False, name)
                     else (True, newname))
         }))"

end
