(* ===== verification/ForwardSpec.thy ===== *)
theory ForwardSpec
  imports Forward
begin

text \<open>
  What the forward mapping computes, against three specifications: substitution of the longest
  matching segment prefix (\<open>seg_map\<close>), text in place of stars (\<open>fill\<close>), and idempotence.
  It also holds the closed runs that show where globs go wrong.
\<close>

section \<open>A mapped path is under its TO\<close>

lemma under_own_to:
  assumes "tail = [] \<or> hd tail = slash"
  shows "pm_path_prefix_matches to (to @ tail)"
proof -
  obtain sl where sl: "to = strip_slashes to @ sl" "set sl \<subseteq> {slash}"
    by (rule strip_slashes_tail)
  moreover have "sl @ tail = [] \<or> hd (sl @ tail) = slash"
    using sl(2) assms by (cases sl) auto
  ultimately show ?thesis
    by (subst pm_path_prefix_matches_iff) (metis append.assoc)
qed

lemma forward_prefix_under_to:
  assumes "prefix_only (mappings config)"
    and "pm_apply_mapping_with_config fnm inp n config = New out"
  shows "list_ex (\<lambda>m. pm_path_prefix_matches (map_to m) out) (mappings config)"
proof -
  have guard: "\<not> list_ex (\<lambda>m. pm_path_prefix_matches (map_to m) inp) (mappings config)"
    using assms(2) by (auto simp: pm_apply_mapping_with_config_def split: if_splits)
  from assms(1) guard show ?thesis
  proof (cases rule: forward_prefix_cases [where fnm = fnm])
    case none
    with assms(2) show ?thesis by simp
  next
    case (some i)
    let ?m = "mappings config ! i"
    have out: "out = prefix_target inp ?m" using some(2) assms(2) by (auto split: if_splits)
    have "drop (pm_pathlen (map_from ?m)) inp = [] \<or> hd (drop (pm_pathlen (map_from ?m)) inp) = slash"
      using some(1) by (intro prefix_matches_split(2)) (simp add: longest_match_def)
    then have "pm_path_prefix_matches (map_to ?m) out"
      unfolding out prefix_target_def by (rule under_own_to)
    then show ?thesis using some(1) by (auto simp: longest_match_def list_ex_iff)
  qed
qed

lemma forward_idempotent:
  assumes "prefix_only (mappings config)"
    and "pm_apply_mapping_with_config fnm inp n config = New out"
  shows "pm_apply_mapping_with_config fnm out k config = Same"
  using forward_prefix_under_to [OF assms] by (simp add: pm_apply_mapping_with_config_def)

section \<open>Refinement: longest segment prefix\<close>

type_synonym seg_map = "string list \<times> string list"

fun seg_pick :: "string list \<Rightarrow> seg_map list \<Rightarrow> seg_map option \<Rightarrow> seg_map option" where
  "seg_pick ss [] b = b"
| "seg_pick ss (m # ms) b =
     seg_pick ss ms
       (if prefix (fst m) ss \<and> (case b of None \<Rightarrow> fst m \<noteq> [] | Some g \<Rightarrow> length (fst g) < length (fst m))
        then Some m else b)"

definition seg_map :: "seg_map list \<Rightarrow> string list \<Rightarrow> string list option" where
  "seg_map ms ss =
     (if list_ex (\<lambda>m. prefix (snd m) ss) ms then None
      else map_option (\<lambda>m. snd m @ drop (length (fst m)) ss) (seg_pick ss ms None))"

definition seg_mapping_ok :: "seg_map \<Rightarrow> bool" where
  "seg_mapping_ok m \<longleftrightarrow> list_all seg_ok (fst m) \<and> list_all seg_ok (snd m)"

definition seg_config :: "bool \<Rightarrow> seg_map list \<Rightarrow> pm_mapping list" where
  "seg_config mall ms = map (\<lambda>m. \<lparr>map_from = path_of (fst m), map_to = path_of (snd m),
     mapping_is_malloced = mall, mapping_is_glob = False\<rparr>) ms"

lemma prefix_only_seg_config [simp]: "prefix_only (seg_config mall ms)"
  by (simp add: prefix_only_def seg_config_def list_all_iff)

lemma path_of_mono: "prefix f g \<Longrightarrow> f \<noteq> g \<Longrightarrow> length (path_of f) < length (path_of g)"
  by (erule prefixE) (metis append_Nil2 length_append length_greater_0_conv less_add_same_cancel1
      path_of_eq_Nil(1) path_of_simps(3))

lemma path_of_length_order:
  assumes "prefix f ss" and "prefix g ss"
  shows "length (path_of g) < length (path_of f) \<longleftrightarrow> length g < length f"
proof -
  from assms consider "f = g" | "prefix f g" "f \<noteq> g" | "prefix g f" "f \<noteq> g"
    using prefix_same_cases by blast
  then show ?thesis
  proof cases
    case 2
    then have "length f \<le> length g" by (auto dest: prefix_length_le)
    with path_of_mono [OF 2] show ?thesis by simp
  next
    case 3
    then have "length g < length f" by (metis not_equal_is_parallel parallelE prefix_length_less prefix_order.le_less)
    with path_of_mono [OF 3(1)] 3(2) show ?thesis by simp
  qed simp
qed

lemma drop_path_of: "prefix f ss \<Longrightarrow> drop (length (path_of f)) (path_of ss) = path_of (drop (length f) ss)"
  by (auto simp: prefix_def)

text \<open>The loop of the code against the abstract choice, over the entries \<open>ms\<close> still to come.\<close>

definition seg_sim :: "string list \<Rightarrow> pm_mapping list \<Rightarrow> fwd_best \<Rightarrow> seg_map option \<Rightarrow> bool" where
  "seg_sim ss all b ob \<longleftrightarrow>
     best_caps b = [] \<and> \<not> best_has_captured_tail b
     \<and> (case ob of
          None \<Rightarrow> best_index b = None \<and> best_match_len b = 0
        | Some m \<Rightarrow> prefix (fst m) ss \<and> best_match_len b = length (path_of (fst m))
            \<and> best_tail b = Some (path_of (drop (length (fst m)) ss))
            \<and> (\<exists>i. best_index b = Some i \<and> map_to (all ! i) = path_of (snd m)))"

lemma seg_sim_step:
  assumes "seg_sim ss (seg_config mall all) b ob" and "all ! i = m" and "i < length all"
    and "seg_mapping_ok m" and "list_all seg_ok ss"
  shows "seg_sim ss (seg_config mall all) (fwd_step fnm (path_of ss) i (seg_config mall all ! i) b)
     (if prefix (fst m) ss \<and> (case ob of None \<Rightarrow> fst m \<noteq> [] | Some g \<Rightarrow> length (fst g) < length (fst m))
      then Some m else ob)"
proof -
  have m: "seg_config mall all ! i = \<lparr>map_from = path_of (fst m), map_to = path_of (snd m),
      mapping_is_malloced = mall, mapping_is_glob = False\<rparr>"
    using assms(2,3) by (simp add: seg_config_def)
  have match: "pm_path_prefix_matches (path_of (fst m)) (path_of ss) \<longleftrightarrow> prefix (fst m) ss"
    using assms(4,5) by (intro prefix_matches_path_of) (simp_all add: seg_mapping_ok_def)
  have len: "pm_pathlen (path_of (fst m)) = length (path_of (fst m))"
    using assms(4) by (simp add: pm_pathlen_strip seg_mapping_ok_def)
  show ?thesis
  proof (cases "prefix (fst m) ss")
    case False
    with assms(1) show ?thesis by (simp add: m fwd_step_def fwd_prefix_def match)
  next
    case True
    have longer: "best_match_len b < length (path_of (fst m)) \<longleftrightarrow>
        (case ob of None \<Rightarrow> fst m \<noteq> [] | Some g \<Rightarrow> length (fst g) < length (fst m))"
      using assms(1) True path_of_length_order [of "fst m" ss]
      by (auto simp: seg_sim_def split: option.splits)
    show ?thesis
      using assms(1) True longer
      by (auto simp: m fwd_step_def fwd_prefix_def match len Let_def seg_sim_def drop_path_of)
  qed
qed

lemma seg_sim_loop:
  assumes "seg_sim ss (seg_config mall (pre @ ms)) b ob"
    and "list_all seg_mapping_ok ms" and "list_all seg_ok ss"
  shows "seg_sim ss (seg_config mall (pre @ ms))
           (fwd_loop fnm (path_of ss) (length pre) (seg_config mall ms) b) (seg_pick ss ms ob)"
  using assms
proof (induction ms arbitrary: pre b ob)
  case Nil
  then show ?case by (simp add: seg_config_def)
next
  case (Cons m ms)
  have nth: "seg_config mall (m # ms) ! 0 = seg_config mall (pre @ m # ms) ! length pre"
    by (simp add: seg_config_def nth_append)
  have "seg_sim ss (seg_config mall (pre @ m # ms))
      (fwd_step fnm (path_of ss) (length pre) (seg_config mall (pre @ m # ms) ! length pre) b)
      (if prefix (fst m) ss \<and> (case ob of None \<Rightarrow> fst m \<noteq> [] | Some g \<Rightarrow> length (fst g) < length (fst m))
       then Some m else ob)"
    using Cons.prems by (intro seg_sim_step) simp_all
  with Cons.IH [of "pre @ [m]"] Cons.prems(2,3) nth show ?case
    by (simp add: seg_config_def)
qed

lemma forward_refines_seg_map:
  assumes "mappings config = seg_config mall ms" and "list_all seg_mapping_ok ms" and "list_all seg_ok ss"
  shows "pm_apply_mapping_with_config fnm (path_of ss) n config =
     (case seg_map ms ss of
        None \<Rightarrow> Same
      | Some ss' \<Rightarrow> if length (path_of ss') + 1 < n then New (path_of ss') else Same)"
proof -
  have "list_ex (\<lambda>m. pm_path_prefix_matches (map_to m) (path_of ss)) (mappings config) \<longleftrightarrow>
      list_ex (\<lambda>m. prefix (snd m) ss) ms"
    using assms prefix_matches_path_of
    by (auto simp: seg_config_def list_ex_iff list_all_iff seg_mapping_ok_def)
  moreover have sim: "seg_sim ss (mappings config) (fwd_loop fnm (path_of ss) 0 (mappings config) fwd_none)
      (seg_pick ss ms None)"
    using seg_sim_loop [of ss mall "[]" ms fwd_none None fnm] assms
    by (simp add: seg_sim_def fwd_none_def)
  have "build_mapped n (mappings config) (fwd_loop fnm (path_of ss) 0 (mappings config) fwd_none) =
      (case seg_pick ss ms None of None \<Rightarrow> Same
       | Some m \<Rightarrow> if length (path_of (snd m @ drop (length (fst m)) ss)) + 1 < n
                   then New (path_of (snd m @ drop (length (fst m)) ss)) else Same)"
    using sim join_tail_prefix [OF path_of_hd]
    by (auto simp: seg_sim_def build_mapped_def Let_def split: option.splits)
  ultimately show ?thesis
    by (auto simp: pm_apply_mapping_with_config_def seg_map_def split: option.splits)
qed

section \<open>Globs: the captures fill the stars of TO\<close>

text \<open>A capture the substitution copies as it is: inside the path, not empty, no slash at its end.\<close>

definition cap_clean :: "capture \<Rightarrow> bool" where
  "cap_clean c \<longleftrightarrow> snd c \<le> length (fst c) \<and> cap_text c \<noteq> [] \<and> last (cap_text c) \<noteq> slash"

lemma put_cap_clean:
  "cap_clean c \<Longrightarrow> put_cap n out c = (if length (out @ cap_text c) < n then Some (out @ cap_text c) else None)"
  by (auto simp: put_cap_def cap_clean_def cap_text_def)

lemma subst_loop_fill:
  assumes "list_all cap_clean caps" and "prev = Some slash \<longrightarrow> out = [] \<or> last out = slash"
    and "length out < n"
  shows "subst_loop n prev to caps out =
     (if length (out @ fill to (map cap_text caps)) < n
      then Some (out @ fill to (map cap_text caps)) else None)"
  using assms
proof (induction to arbitrary: prev caps out rule: length_induct)
  case (1 to)
  show ?case
  proof (cases to)
    case Nil
    with "1.prems"(3) show ?thesis by simp
  next
    case (Cons c cs)
    show ?thesis
    proof (cases "c = star \<and> caps \<noteq> []")
      case False
      have IH: "length (out @ [c]) < n \<Longrightarrow> subst_loop n (Some c) cs caps (out @ [c]) =
          (if length ((out @ [c]) @ fill cs (map cap_text caps)) < n
           then Some ((out @ [c]) @ fill cs (map cap_text caps)) else None)"
        using "1.IH" Cons "1.prems"(1) by simp
      from False have "fill to (map cap_text caps) = c # fill cs (map cap_text caps)"
        using Cons by (auto split: list.splits)
      with False Cons IH show ?thesis by (auto simp: put_char_def)
    next
      case True
      then obtain cap caps' where caps: "caps = cap # caps'" by (cases caps) auto
      with "1.prems"(1) have cap: "cap_clean cap" "list_all cap_clean caps'" by simp_all
      let ?out = "out @ cap_text cap"
      have no_sep: "\<not> (out \<noteq> [] \<and> last out \<noteq> slash \<and> \<not> cap_at_slash cap \<and> prev = Some slash)"
        using "1.prems"(2) by auto
      have last: "?out \<noteq> []" "last ?out \<noteq> slash" using cap(1) by (auto simp: cap_clean_def)
      show ?thesis
      proof (cases cs)
        case Nil
        with True Cons caps no_sep cap(1) show ?thesis by (auto simp: put_cap_clean)
      next
        case cs: (Cons d ds)
        have IH: "length t < length to \<Longrightarrow> prev' = Some slash \<longrightarrow> last o' = slash \<Longrightarrow> length o' < n \<Longrightarrow>
            subst_loop n prev' t caps' o' =
              (if length (o' @ fill t (map cap_text caps')) < n
               then Some (o' @ fill t (map cap_text caps')) else None)" for t prev' o'
          using "1.IH" cap(2) by blast
        show ?thesis
        proof (cases "d = slash")
          case d: True
          with True Cons cs caps no_sep cap(1) last IH [of ds "Some slash" "?out @ [slash]"]
          show ?thesis by (auto simp: put_cap_clean put_char_def)
        next
          case False
          have "cs = d # ds" by (fact cs)
          with True Cons False caps no_sep cap(1) IH [of cs "Some star" ?out]
          show ?thesis by (auto simp: put_cap_clean)
        qed
      qed
    qed
  qed
qed

lemma capture_loop_in_bounds:
  "capture_loop pp sp caps = Some caps' \<Longrightarrow> \<forall>c\<in>set caps. snd c \<le> length (fst c) \<Longrightarrow>
     \<forall>c\<in>set caps'. snd c \<le> length (fst c)"
proof (induction pp arbitrary: sp caps)
  case Nil
  then show ?case by (auto split: if_splits)
next
  case (Cons c pp)
  show ?case
  proof (cases "c = star")
    case True
    with Cons.prems obtain n where "star_stop pp sp = Some n"
      "capture_loop pp (drop n sp) (caps @ [(sp, n)]) = Some caps'"
      by (auto simp: capture_steps split: option.splits)
    then show ?thesis
      using Cons.IH [of "drop n sp" "caps @ [(sp, n)]"] Cons.prems(2) star_stop_le by fastforce
  next
    case False
    with Cons.prems obtain sp' where "sp = c # sp'" "capture_loop pp sp' caps = Some caps'"
      by (cases sp) (auto simp: capture_steps split: if_splits)
    then show ?thesis using Cons.IH [OF _ Cons.prems(2)] by blast
  qed
qed

lemma capture_stars_facts:
  assumes "pm_capture_stars from inp k = Some caps" and "count_list from star \<le> k"
  shows "length caps = count_list from star" and "fill from (map cap_text caps) = inp"
    and "\<forall>c\<in>set caps. snd c \<le> length (fst c)"
proof -
  from assms(1) obtain all where all: "capture_loop from inp [] = Some all" "caps = take k all"
    by (auto simp: pm_capture_stars_def split: if_splits)
  then have "length all = count_list from star \<and> fill from (map cap_text all) = inp"
    using capture_loop_fill [of "from" inp "[]" all] by simp
  moreover have "\<forall>c\<in>set all. snd c \<le> length (fst c)"
    using capture_loop_in_bounds [OF all(1)] by simp
  ultimately show "length caps = count_list from star" "fill from (map cap_text caps) = inp"
    "\<forall>c\<in>set caps. snd c \<le> length (fst c)"
    using all(2) assms(2) by simp_all
qed

definition glob_mapping :: "string \<Rightarrow> string \<Rightarrow> pm_mapping" where
  "glob_mapping from to = \<lparr>map_from = from, map_to = to, mapping_is_malloced = True, mapping_is_glob = True\<rparr>"

lemma single_star_None: "2 \<le> count_list from star \<Longrightarrow> single_star from = None"
proof -
  assume two: "2 \<le> count_list from star"
  { fix a assume a: "strchr from star = Some a" "star \<notin> set (drop (Suc a) from)"
    have "count_list from star = count_list (take a from @ star # drop (Suc a) from) star"
      using strchr_split(1) [OF a(1)] by simp
    also have "\<dots> = 1" using a(2) strchr_split(2) [OF a(1)] by (simp add: count_list_0_iff)
    finally have False using two by simp }
  then show ?thesis by (auto simp: single_star_def strchr_None_iff split: option.splits)
qed

lemma forward_multi_glob:
  assumes "mappings config = [glob_mapping from to]"
    and "2 \<le> count_list from star" and "count_list from star \<le> 8"
    and "pm_capture_stars from inp 8 = Some caps" and "\<forall>c\<in>set caps. cap_clean c"
    and "\<not> pm_path_prefix_matches to inp" and "0 < n"
  shows "pm_apply_mapping_with_config fnm inp n config =
     (if length (fill to (map cap_text caps)) < n then New (fill to (map cap_text caps)) else Same)"
proof -
  have caps: "caps \<noteq> []" using capture_stars_facts(1) [OF assms(4,3)] assms(2) by auto
  have "star \<in> set from" using assms(2) by (metis count_list_0_iff not_numeral_le_zero)
  moreover have "CHR ''?'' \<notin> set from \<and> CHR ''['' \<notin> set from"
    using assms(4) by (auto simp: pm_capture_stars_def split: if_splits)
  ultimately have "fwd_loop fnm inp 0 (mappings config) fwd_none =
      \<lparr>best_index = Some 0, best_match_len = length inp, best_tail = Some [],
        best_has_captured_tail = False, best_caps = caps\<rparr>"
    using assms single_star_None
    by (auto simp: fwd_step_def fwd_multi_def glob_mapping_def fwd_none_def strchr_None_iff)
  then show ?thesis
    using assms caps subst_loop_fill [of caps None "[]" n to]
    by (simp add: pm_apply_mapping_with_config_def build_mapped_def glob_mapping_def list_all_iff)
qed

section \<open>A star at the end\<close>

lemma strchr_here: "c \<notin> set a \<Longrightarrow> strchr (a @ c # b) c = Some (length a)"
  by (auto simp: strchr_Some_iff nth_append)

lemma subst_loop_plain:
  "star \<notin> set q \<Longrightarrow> length out < n \<Longrightarrow>
     subst_loop n prev (q @ t) caps out =
       (if length (out @ q) < n then subst_loop n (if q = [] then prev else Some (last q)) t caps (out @ q)
        else None)"
proof (induction q arbitrary: prev out)
  case (Cons c q)
  then show ?case by (auto simp: put_char_def)
qed simp

lemma forward_trailing_star:
  assumes "mappings config = [glob_mapping (p @ [star]) (q @ [star])]"
    and "set p \<inter> set ''*?['' = {}" and "star \<notin> set q"
    and "\<not> pm_path_prefix_matches (q @ [star]) (p @ rest)" and "0 < n"
  shows "pm_apply_mapping_with_config fnm (p @ rest) n config =
     (if length (q @ rest) < n then New (q @ rest) else Same)"
proof -
  have "single_star (p @ [star]) = Some (length p)"
    using assms(2) strchr_here [of star p "[]"] by (auto simp: single_star_def strchr_None_iff)
  then have "fwd_loop fnm (p @ rest) 0 (mappings config) fwd_none =
      \<lparr>best_index = Some 0, best_match_len = length p, best_tail = Some rest,
        best_has_captured_tail = True, best_caps = [(rest, length rest)]\<rparr>"
    by (simp add: assms(1) fwd_step_def fwd_single_def glob_mapping_def fwd_none_def strncmp_eq_def
        star_take_def)
  then show ?thesis
    using assms subst_loop_plain [of q "[]" n None "[star]" "[(rest, length rest)]"]
    by (auto simp: pm_apply_mapping_with_config_def build_mapped_def glob_mapping_def put_cap_def cap_text_def)
qed

section \<open>Question marks and brackets match everything\<close>

lemma forward_qmark:
  assumes "mappings config = [glob_mapping from to]"
    and "CHR ''?'' \<in> set from \<or> CHR ''['' \<in> set from"
    and "\<not> pm_path_prefix_matches to inp" and "length to + 1 < n"
  shows "pm_apply_mapping_with_config fnm inp n config = New to"
proof -
  have "single_star from = None"
    using assms(2) by (auto simp: single_star_def strchr_None_iff split: option.splits)
  then have "fwd_loop fnm inp 0 (mappings config) fwd_none =
      \<lparr>best_index = Some 0, best_match_len = length inp, best_tail = Some [],
        best_has_captured_tail = False, best_caps = []\<rparr>"
    using assms(1,2)
    by (auto simp: fwd_step_def fwd_multi_def glob_mapping_def fwd_none_def strchr_None_iff)
  then show ?thesis
    using assms by (simp add: pm_apply_mapping_with_config_def build_mapped_def glob_mapping_def join_tail_def)
qed

section \<open>Properties\<close>

text \<open>C10: On segments the forward mapping is the table lookup \<open>seg_map\<close>: a path already under
  some TO stays, otherwise the longest FROM that starts the path is replaced by its TO.\<close>

theorem forward_implements_lookup:
  assumes "mappings config = seg_config mall ms" and "list_all seg_mapping_ok ms" and "list_all seg_ok ss"
  shows "pm_apply_mapping_with_config fnm (path_of ss) n config =
     (case seg_map ms ss of
        None \<Rightarrow> Same
      | Some ss' \<Rightarrow> if length (path_of ss') + 1 < n then New (path_of ss') else Same)"
  using assms by (rule forward_refines_seg_map)

lemma forward_implements_lookup_witness:
  "pm_apply_mapping_with_config (\<lambda>_ _. False) ''/usr/lib/x'' 4096
     \<lparr>mappings = seg_config True [([''usr''], [''app'']), ([''usr'', ''lib''], [''libs''])], excludes = []\<rparr>
   = New ''/libs/x''"
  using forward_implements_lookup [of
      "\<lparr>mappings = seg_config True [([''usr''], [''app'']), ([''usr'', ''lib''], [''libs''])], excludes = []\<rparr>"
      True "[([''usr''], [''app'']), ([''usr'', ''lib''], [''libs''])]" "[''usr'', ''lib'', ''x'']"
      "\<lambda>_ _. False" 4096]
  by (simp add: seg_mapping_ok_def seg_ok_def seg_map_def)

text \<open>C17: With prefix mappings the forward mapping is idempotent: a mapped path is not mapped
  again, so nested interposed calls cannot map twice.\<close>

theorem forward_maps_once:
  assumes "prefix_only (mappings config)" and "pm_apply_mapping_with_config fnm inp n config = New out"
  shows "pm_apply_mapping_with_config fnm out k config = Same"
  using assms by (rule forward_idempotent)

lemma forward_maps_once_witness:
  "pm_apply_mapping_with_config (\<lambda>_ _. False) ''/usr/usr/x'' 4096
     \<lparr>mappings = [env_mapping (''/usr'', ''/usr/usr'')], excludes = []\<rparr> = Same"
  by (rule forward_maps_once [of _ _ "''/usr/x''" 4096]) code_simp+

text \<open>C18: With a glob of two to eight stars whose captures are not empty and end in no slash,
  the result is TO with its stars replaced by the captures in order.\<close>

theorem forward_glob_substitutes:
  assumes "mappings config = [glob_mapping from to]"
    and "2 \<le> count_list from star" and "count_list from star \<le> 8"
    and "pm_capture_stars from inp 8 = Some caps" and "\<forall>c\<in>set caps. cap_clean c"
    and "\<not> pm_path_prefix_matches to inp" and "0 < n"
  shows "pm_apply_mapping_with_config fnm inp n config =
     (if length (fill to (map cap_text caps)) < n then New (fill to (map cap_text caps)) else Same)"
  using assms by (rule forward_multi_glob)

lemma forward_glob_substitutes_witness:
  "pm_apply_mapping_with_config (\<lambda>_ _. False) ''/opt/app/libfoo.so'' 4096
     \<lparr>mappings = [glob_mapping ''/opt/*/lib*.so'' ''/x/*/y*.so''], excludes = []\<rparr> = New ''/x/app/yfoo.so''"
proof -
  have "pm_capture_stars ''/opt/*/lib*.so'' ''/opt/app/libfoo.so'' 8
      = Some [(''app/libfoo.so'', 3), (''foo.so'', 3)]"
    by code_simp
  from forward_glob_substitutes [OF _ _ _ this, of
      "\<lparr>mappings = [glob_mapping ''/opt/*/lib*.so'' ''/x/*/y*.so''], excludes = []\<rparr>" "''/x/*/y*.so''"
      4096 "\<lambda>_ _. False"]
  show ?thesis
    by (simp add: cap_clean_def cap_text_def pm_path_prefix_matches_def pm_pathlen_def cstr_evals)
qed

text \<open>C31: A mapping \<^verbatim>\<open>P*\<close> to \<^verbatim>\<open>Q*\<close> replaces the literal prefix
  P by Q and keeps the rest of the path, slashes included.\<close>

theorem forward_trailing_star_keeps_rest:
  assumes "mappings config = [glob_mapping (p @ [star]) (q @ [star])]"
    and "set p \<inter> set ''*?['' = {}" and "star \<notin> set q"
    and "\<not> pm_path_prefix_matches (q @ [star]) (p @ rest)" and "0 < n"
  shows "pm_apply_mapping_with_config fnm (p @ rest) n config =
     (if length (q @ rest) < n then New (q @ rest) else Same)"
  using assms by (rule forward_trailing_star)

lemma forward_trailing_star_keeps_rest_witness:
  "pm_apply_mapping_with_config (\<lambda>_ _. False) ''/usr/lib/x'' 4096
     \<lparr>mappings = [glob_mapping ''/usr/*'' ''/app/*''], excludes = []\<rparr> = New ''/app/lib/x''"
  using forward_trailing_star_keeps_rest [of
      "\<lparr>mappings = [glob_mapping ''/usr/*'' ''/app/*''], excludes = []\<rparr>"
      "''/usr/''" "''/app/''" "''lib/x''" 4096 "\<lambda>_ _. False"]
  by (simp add: pm_path_prefix_matches_def pm_pathlen_def cstr_evals)

text \<open>C36: A FROM pattern with \<^verbatim>\<open>?\<close> or \<^verbatim>\<open>[\<close> matches every path,
  whatever \<^verbatim>\<open>fnmatch\<close> says: the capture count starts at 0, which the test reads as
  a match. Every path is then replaced by TO.\<close>

theorem forward_question_mark_matches_all:
  assumes "mappings config = [glob_mapping from to]"
    and "CHR ''?'' \<in> set from \<or> CHR ''['' \<in> set from"
    and "\<not> pm_path_prefix_matches to inp" and "length to + 1 < n"
  shows "pm_apply_mapping_with_config fnm inp n config = New to"
  using assms by (rule forward_qmark)

lemma forward_question_mark_matches_all_witness:
  "pm_apply_mapping_with_config (\<lambda>_ _. False) ''/etc/hosts'' 4096
     \<lparr>mappings = [glob_mapping ''/usr/lib?'' ''/app''], excludes = []\<rparr> = New ''/app''"
  by (rule forward_question_mark_matches_all [of _ "''/usr/lib?''"])
    (simp_all add: pm_path_prefix_matches_def pm_pathlen_def cstr_evals)

end
