(* ===== verification/ReverseSpec.thy ===== *)
theory ReverseSpec
  imports Reverse ForwardSpec
begin

text \<open>
  When the reverse mapping stays inside its buffers, and when it inverts the forward mapping:
  refinement of the same segment specification with the pairs turned around, and the round trip.
\<close>

section \<open>size_t\<close>

lemma sz_sub_small: "b \<le> a \<Longrightarrow> a < SIZE_MOD \<Longrightarrow> sz_sub a b = a - b"
  by (simp add: sz_sub_def mod_if)

lemma sz_add_small: "a + b < SIZE_MOD \<Longrightarrow> sz_add a b = a + b"
  by (simp add: sz_add_def)

text \<open>The strings of a process are far shorter than the address space.\<close>

definition sizes_ok :: "string \<Rightarrow> pm_mapping list \<Rightarrow> bool" where
  "sizes_ok inp ms \<longleftrightarrow> list_all (\<lambda>m. length inp + length (map_from m) + 1 < SIZE_MOD) ms"

lemma rev_join_in_range:
  assumes "pm_pathlen to \<le> length inp" and "length inp + length from + 1 < SIZE_MOD"
  shows "rev_join n inp from to =
     Some (if length (strip_slashes from @ drop (pm_pathlen to) inp) + 1 < n
           then New (strip_slashes from @ drop (pm_pathlen to) inp) else Same)"
proof -
  have "pm_pathlen from \<le> length from" by simp
  with assms have "sz_add (sz_add (pm_pathlen from) (sz_sub (length inp) (pm_pathlen to))) 1 =
      length (strip_slashes from @ drop (pm_pathlen to) inp) + 1"
    by (simp add: sz_sub_small sz_add_small pm_pathlen_strip)
  with assms(1) show ?thesis by (simp add: rev_join_def Let_def del: length_append)
qed

section \<open>The loop\<close>

lemma rev_step_index:
  "rev_index (rev_step fnm inp i m b) = rev_index b \<or> rev_index (rev_step fnm inp i m b) = Some i"
  by (auto simp: rev_step_def Let_def)

lemma rev_loop_index:
  "rev_index (rev_loop fnm inp i ms b) = Some k \<Longrightarrow> rev_index b = Some k \<or> (i \<le> k \<and> k < i + length ms)"
proof (induction ms arbitrary: i b)
  case (Cons m ms)
  have "rev_index (rev_step fnm inp i m b) = Some k \<or> Suc i \<le> k \<and> k < Suc i + length ms"
    using Cons.IH [of "Suc i" "rev_step fnm inp i m b"] Cons.prems by simp
  with rev_step_index [of fnm inp i m b] show ?case by auto
qed simp

lemma rev_subst_fits: "rev_subst n from caps out = Some out' \<Longrightarrow> length out < n \<Longrightarrow> length out' < n"
proof (induction "from" arbitrary: caps out)
  case (Cons c cs)
  show ?case
  proof (cases "c = star \<and> caps \<noteq> []")
    case False
    with Cons.prems(1) obtain o1 where "put_char n out c = Some o1" "rev_subst n cs caps o1 = Some out'"
      by (auto simp: bind_eq_Some_conv simp del: put_char_Some)
    with Cons.IH show ?thesis by auto
  next
    case True
    then obtain o1 o2 o3 where "put_cap n o1 (hd caps) = Some o2"
      "(if cs \<noteq> [] \<and> hd cs \<noteq> slash \<and> o2 \<noteq> [] \<and> last o2 \<noteq> slash then put_char n o2 slash else Some o2) = Some o3"
      and rest: "rev_subst n cs (tl caps) o3 = Some out'"
      using Cons.prems(1) by (auto simp: bind_eq_Some_conv)
    then have "length o3 < n" by (auto dest: put_cap_Some split: if_splits)
    with rest show ?thesis by (rule Cons.IH)
  qed
qed simp

text \<open>No TO is a glob: only the prefix branch runs, and it never wraps.\<close>

definition plain_tos :: "pm_mapping list \<Rightarrow> bool" where
  "plain_tos ms = list_all (\<lambda>m. \<not> is_glob_pattern (map_to m)) ms"

lemma rev_loop_plain:
  assumes "plain_tos ms'" and "rev_caps b = []"
    and "\<forall>i. rev_index b = Some i \<longrightarrow> i < length ms \<and> pm_path_prefix_matches (map_to (ms ! i)) inp"
  shows "rev_caps (rev_loop fnm inp (length ms) ms' b) = []
     \<and> (\<forall>i. rev_index (rev_loop fnm inp (length ms) ms' b) = Some i \<longrightarrow>
           i < length (ms @ ms') \<and> pm_path_prefix_matches (map_to ((ms @ ms') ! i)) inp)"
  using assms
proof (induction ms' arbitrary: ms b)
  case (Cons m ms')
  have "rev_caps (rev_step fnm inp (length ms) m b) = []"
    "\<forall>i. rev_index (rev_step fnm inp (length ms) m b) = Some i \<longrightarrow>
       i < length (ms @ [m]) \<and> pm_path_prefix_matches (map_to ((ms @ [m]) ! i)) inp"
    using Cons.prems by (auto simp: rev_step_def Let_def plain_tos_def nth_append)
  with Cons.IH [of "rev_step fnm inp (length ms) m b" "ms @ [m]"] Cons.prems(1) show ?case
    by (simp add: plain_tos_def)
qed simp

lemma reverse_plain_total:
  assumes "plain_tos (mappings config)" and "sizes_ok inp (mappings config)"
  shows "\<exists>r. pm_apply_reverse_mapping_with_config fnm inp n config = Some r \<and> (\<forall>out. r = New out \<longrightarrow> length out < n)"
proof -
  let ?b = "rev_loop fnm inp 0 (mappings config) rev_none"
  have b: "rev_caps ?b = []" "\<And>i. rev_index ?b = Some i \<Longrightarrow>
      i < length (mappings config) \<and> pm_path_prefix_matches (map_to (mappings config ! i)) inp"
    using rev_loop_plain [OF assms(1), of rev_none "[]" inp fnm] by (auto simp: rev_none_def)
  show ?thesis
  proof (cases "rev_index ?b")
    case None
    then show ?thesis by (simp add: pm_apply_reverse_mapping_with_config_def Let_def)
  next
    case (Some i)
    let ?m = "mappings config ! i"
    have "pm_pathlen (map_to ?m) \<le> length inp" using b(2) [OF Some] prefix_matches_split(3) by blast
    moreover have "length inp + length (map_from ?m) + 1 < SIZE_MOD"
      using b(2) [OF Some] assms(2) by (simp add: sizes_ok_def list_all_length)
    ultimately show ?thesis
      using Some b(1) by (simp add: pm_apply_reverse_mapping_with_config_def Let_def rev_join_in_range)
  qed
qed

text \<open>With globs the result, when there is one, still fits.\<close>

lemma reverse_fits:
  assumes "sizes_ok inp (mappings config)"
    and "pm_apply_reverse_mapping_with_config fnm inp n config = Some (New out)"
  shows "length out < n"
proof -
  let ?b = "rev_loop fnm inp 0 (mappings config) rev_none"
  obtain i where i: "rev_index ?b = Some i" and n: "2 \<le> n"
    using assms(2) by (auto simp: pm_apply_reverse_mapping_with_config_def Let_def split: if_splits option.splits)
  then have "i < length (mappings config)"
    using rev_loop_index [of fnm inp 0 "mappings config" rev_none i] by (simp add: rev_none_def)
  then have size: "length inp + length (map_from (mappings config ! i)) + 1 < SIZE_MOD"
    using assms(1) by (simp add: sizes_ok_def list_all_length)
  show ?thesis
  proof (cases "rev_caps ?b \<noteq> [] \<and> strchr (map_from (mappings config ! i)) star \<noteq> None")
    case True
    with assms(2) i n have "rev_subst n (map_from (mappings config ! i)) (rev_caps ?b) [] = Some out"
      by (auto simp: pm_apply_reverse_mapping_with_config_def Let_def split: if_splits option.splits)
    then show ?thesis using n by (auto dest: rev_subst_fits)
  next
    case False
    let ?f = "map_from (mappings config ! i)" and ?t = "map_to (mappings config ! i)"
    from False assms(2) i n have j: "rev_join n inp ?f ?t = Some (New out)"
      by (auto simp: pm_apply_reverse_mapping_with_config_def Let_def split: if_splits)
    then have le: "pm_pathlen ?t \<le> length inp" by (auto simp: rev_join_def Let_def split: if_splits)
    from j show ?thesis by (auto simp: rev_join_in_range [OF le size] split: if_splits)
  qed
qed

section \<open>Refinement and round trip on segment lists\<close>

definition seg_rev_sim :: "string list \<Rightarrow> pm_mapping list \<Rightarrow> rev_best \<Rightarrow> seg_map option \<Rightarrow> bool" where
  "seg_rev_sim ss all b ob \<longleftrightarrow>
     rev_caps b = []
     \<and> (case ob of
          None \<Rightarrow> rev_index b = None \<and> rev_score b = 0
        | Some m \<Rightarrow> prefix (fst m) ss \<and> rev_score b = length (path_of (fst m))
            \<and> (\<exists>i. rev_index b = Some i \<and> i < length all \<and> map_to (all ! i) = path_of (fst m)
                 \<and> map_from (all ! i) = path_of (snd m)))"

definition swap :: "seg_map \<Rightarrow> seg_map" where
  "swap m = (snd m, fst m)"

lemma swap_simps [simp]: "fst (swap m) = snd m" "snd (swap m) = fst m" "swap (swap m) = m"
  by (simp_all add: swap_def)

lemma seg_rev_sim_step:
  assumes "seg_rev_sim ss (seg_config mall all) b ob" and "all ! i = m" and "i < length all"
    and "seg_mapping_ok m" and "list_all seg_ok ss" and "\<not> is_glob_pattern (path_of (snd m))"
  shows "seg_rev_sim ss (seg_config mall all) (rev_step fnm (path_of ss) i (seg_config mall all ! i) b)
     (if prefix (snd m) ss \<and> (case ob of None \<Rightarrow> snd m \<noteq> [] | Some g \<Rightarrow> length (fst g) < length (snd m))
      then Some (swap m) else ob)"
proof -
  have m: "seg_config mall all ! i = \<lparr>map_from = path_of (fst m), map_to = path_of (snd m),
      mapping_is_malloced = mall, mapping_is_glob = False\<rparr>" "i < length (seg_config mall all)"
    using assms(2,3) by (simp_all add: seg_config_def)
  have match: "pm_path_prefix_matches (path_of (snd m)) (path_of ss) \<longleftrightarrow> prefix (snd m) ss"
    using assms(4,5) by (intro prefix_matches_path_of) (simp_all add: seg_mapping_ok_def)
  have len: "pm_pathlen (path_of (snd m)) = length (path_of (snd m))"
    using assms(4) by (simp add: pm_pathlen_strip seg_mapping_ok_def)
  show ?thesis
  proof (cases "prefix (snd m) ss")
    case False
    with assms(1,6) show ?thesis by (simp add: m rev_step_def match Let_def)
  next
    case True
    have longer: "rev_score b < length (path_of (snd m)) \<longleftrightarrow>
        (case ob of None \<Rightarrow> snd m \<noteq> [] | Some g \<Rightarrow> length (fst g) < length (snd m))"
      using assms(1) True path_of_length_order [of "snd m" ss]
      by (auto simp: seg_rev_sim_def split: option.splits)
    show ?thesis
      using assms(1,6) True longer m(2)
      by (auto simp: m(1) rev_step_def match len Let_def seg_rev_sim_def)
  qed
qed

lemma seg_rev_sim_loop:
  assumes "seg_rev_sim ss (seg_config mall (pre @ ms)) b ob"
    and "list_all seg_mapping_ok ms" and "list_all seg_ok ss"
    and "list_all (\<lambda>m. \<not> is_glob_pattern (path_of (snd m))) ms"
  shows "seg_rev_sim ss (seg_config mall (pre @ ms))
           (rev_loop fnm (path_of ss) (length pre) (seg_config mall ms) b) (seg_pick ss (map swap ms) ob)"
  using assms
proof (induction ms arbitrary: pre b ob)
  case Nil
  then show ?case by (simp add: seg_config_def)
next
  case (Cons m ms)
  let ?ob = "if prefix (snd m) ss \<and> (case ob of None \<Rightarrow> snd m \<noteq> [] | Some g \<Rightarrow> length (fst g) < length (snd m))
       then Some (swap m) else ob"
  have cons: "seg_config mall (m # ms) = seg_config mall (pre @ m # ms) ! length pre # seg_config mall ms"
    by (simp add: seg_config_def nth_append)
  have "seg_rev_sim ss (seg_config mall (pre @ m # ms))
      (rev_step fnm (path_of ss) (length pre) (seg_config mall (pre @ m # ms) ! length pre) b) ?ob"
    using Cons.prems by (intro seg_rev_sim_step) simp_all
  then have "seg_rev_sim ss (seg_config mall ((pre @ [m]) @ ms))
      (rev_loop fnm (path_of ss) (length (pre @ [m])) (seg_config mall ms)
        (rev_step fnm (path_of ss) (length pre) (seg_config mall (pre @ m # ms) ! length pre) b))
      (seg_pick ss (map swap ms) ?ob)"
    using Cons.prems by (intro Cons.IH) simp_all
  then show ?case by (cases ob) (auto simp: cons)
qed

lemma reverse_refines_seg_pick:
  assumes "mappings config = seg_config mall ms" and "list_all seg_mapping_ok ms" and "list_all seg_ok ss"
    and "list_all (\<lambda>m. \<not> is_glob_pattern (path_of (snd m))) ms" and "ss \<noteq> []" and "2 \<le> n"
    and "sizes_ok (path_of ss) (mappings config)"
  shows "pm_apply_reverse_mapping_with_config fnm (path_of ss) n config =
     Some (case seg_pick ss (map swap ms) None of
        None \<Rightarrow> Same
      | Some m \<Rightarrow> if length (path_of (snd m @ drop (length (fst m)) ss)) + 1 < n
                  then New (path_of (snd m @ drop (length (fst m)) ss)) else Same)"
proof -
  let ?b = "rev_loop fnm (path_of ss) 0 (mappings config) rev_none"
  have sim: "seg_rev_sim ss (mappings config) ?b (seg_pick ss (map swap ms) None)"
    using seg_rev_sim_loop [of ss mall "[]" ms rev_none None fnm] assms
    by (simp add: seg_rev_sim_def rev_none_def)
  show ?thesis
  proof (cases "seg_pick ss (map swap ms) None")
    case None
    with sim assms(5,6) show ?thesis
      by (simp add: seg_rev_sim_def pm_apply_reverse_mapping_with_config_def Let_def)
  next
    case (Some m)
    with sim obtain i where i: "rev_index ?b = Some i" "i < length (mappings config)"
      "map_to (mappings config ! i) = path_of (fst m)" "map_from (mappings config ! i) = path_of (snd m)"
      and m: "prefix (fst m) ss" "rev_caps ?b = []"
      by (auto simp: seg_rev_sim_def)
    have x: "i < length ms" "path_of (snd (ms ! i)) = path_of (fst m)" "path_of (fst (ms ! i)) = path_of (snd m)"
      using i assms(1) by (simp_all add: seg_config_def)
    then have "seg_mapping_ok (ms ! i)" using assms(2) by (simp add: list_all_length)
    then have "strip_slashes (path_of (snd (ms ! i))) = path_of (snd (ms ! i))"
      "strip_slashes (path_of (fst (ms ! i))) = path_of (fst (ms ! i))"
      by (simp_all add: seg_mapping_ok_def)
    with x have strip: "strip_slashes (path_of (fst m)) = path_of (fst m)"
      "strip_slashes (path_of (snd m)) = path_of (snd m)"
      by simp_all
    have "length (path_of ss) + length (path_of (snd m)) + 1 < SIZE_MOD"
      using assms(7) i(2,4) by (auto simp: sizes_ok_def list_all_length)
    moreover have "pm_pathlen (path_of (fst m)) \<le> length (path_of ss)"
      using m(1) by (auto simp: pm_pathlen_strip strip prefix_def)
    ultimately show ?thesis
      using Some i m assms(5,6) rev_join_in_range [of "path_of (fst m)" "path_of ss" "path_of (snd m)" n]
      by (simp add: pm_apply_reverse_mapping_with_config_def Let_def strip pm_pathlen_strip drop_path_of)
  qed
qed

text \<open>
  The round trip needs the TOs to be pairwise unrelated: then the real path lies under exactly
  one of them.
\<close>

definition tos_unrelated :: "seg_map list \<Rightarrow> bool" where
  "tos_unrelated ms \<longleftrightarrow>
     (\<forall>i < length ms. \<forall>j < length ms. i \<noteq> j \<longrightarrow> \<not> prefix (snd (ms ! i)) (snd (ms ! j)))"

lemma seg_pick_no_match:
  "\<forall>m\<in>set ms. \<not> prefix (fst m) ss \<Longrightarrow> seg_pick ss ms b = b"
  by (induction ms) simp_all

lemma seg_pick_append: "seg_pick ss (ms @ ns) b = seg_pick ss ns (seg_pick ss ms b)"
  by (induction ms arbitrary: b) simp_all

lemma seg_pick_in: "seg_pick ss ms b = Some m \<Longrightarrow> b = Some m \<or> m \<in> set ms \<and> prefix (fst m) ss"
  by (induction ms arbitrary: b) (auto split: if_splits)

lemma seg_pick_unique:
  assumes "i < length ms" and "prefix (fst (ms ! i)) ss" and "fst (ms ! i) \<noteq> []"
    and "\<forall>j < length ms. j \<noteq> i \<longrightarrow> \<not> prefix (fst (ms ! j)) ss"
  shows "seg_pick ss ms None = Some (ms ! i)"
proof -
  have "ms = take i ms @ ms ! i # drop (Suc i) ms" using assms(1) by (rule id_take_nth_drop)
  moreover have "\<forall>m\<in>set (take i ms). \<not> prefix (fst m) ss"
  proof
    fix m
    assume "m \<in> set (take i ms)"
    then obtain j where "j < i" "m = ms ! j" by (auto simp: in_set_conv_nth)
    then show "\<not> prefix (fst m) ss" using assms(1,4) by simp
  qed
  moreover have after: "\<forall>m\<in>set (drop (Suc i) ms). \<not> prefix (fst m) ss"
  proof
    fix m
    assume "m \<in> set (drop (Suc i) ms)"
    then obtain j where "j < length ms - Suc i" "m = ms ! (Suc i + j)" by (auto simp: in_set_conv_nth)
    then show "\<not> prefix (fst m) ss" using assms(4) by simp
  qed
  ultimately have "seg_pick ss ms None = seg_pick ss (drop (Suc i) ms) (seg_pick ss [ms ! i] None)"
    using seg_pick_append seg_pick_no_match by (metis append_Cons append_Nil)
  then show ?thesis
    using assms(2,3) after by (simp add: seg_pick_no_match)
qed

lemma seg_round_trip:
  assumes "tos_unrelated ms" and "\<forall>m\<in>set ms. snd m \<noteq> []" and "seg_map ms ss = Some ss'"
  shows "\<exists>m. seg_pick ss' (map swap ms) None = Some m \<and> snd m @ drop (length (fst m)) ss' = ss"
proof -
  obtain m where m: "seg_pick ss ms None = Some m" and ss': "ss' = snd m @ drop (length (fst m)) ss"
    using assms(3) by (auto simp: seg_map_def split: if_splits)
  then have mem: "m \<in> set ms" "prefix (fst m) ss" using seg_pick_in by fastforce+
  then obtain i where i: "i < length ms" "ms ! i = m" by (auto simp: in_set_conv_nth)
  have nomatch: "\<not> prefix (snd (ms ! j)) ss'" if j: "j < length ms" "j \<noteq> i" for j
  proof
    assume "prefix (snd (ms ! j)) ss'"
    moreover have "prefix (snd m) ss'" by (simp add: ss')
    ultimately have "prefix (snd (ms ! j)) (snd m) \<or> prefix (snd m) (snd (ms ! j))"
      using prefix_same_cases by blast
    with assms(1) i j show False by (auto simp: tos_unrelated_def)
  qed
  have "seg_pick ss' (map swap ms) None = Some (map swap ms ! i)"
    using i assms(2) mem(1) ss' nomatch by (intro seg_pick_unique) simp_all
  then show ?thesis using i mem(2) by (auto simp: ss' prefix_def)
qed

lemma forward_then_reverse:
  assumes "mappings config = seg_config mall ms" and "list_all seg_mapping_ok ms" and "list_all seg_ok ss"
    and "list_all (\<lambda>m. \<not> is_glob_pattern (path_of (snd m)) \<and> snd m \<noteq> []) ms" and "tos_unrelated ms"
    and "sizes_ok out (mappings config)" and "2 \<le> k" and "length (path_of ss) + 1 < k"
    and "pm_apply_mapping_with_config fnm (path_of ss) n config = New out"
  shows "pm_apply_reverse_mapping_with_config fnm out k config = Some (New (path_of ss))"
proof -
  obtain ss' where ss': "seg_map ms ss = Some ss'" "out = path_of ss'"
    using assms(9) forward_refines_seg_map [OF assms(1-3), of fnm n] by (auto split: option.splits if_splits)
  have ne: "\<forall>m\<in>set ms. snd m \<noteq> []" using assms(4) by (simp add: list_all_iff)
  obtain m where m: "seg_pick ss' (map swap ms) None = Some m" "snd m @ drop (length (fst m)) ss' = ss"
    using seg_round_trip [OF assms(5) ne ss'(1)] by blast
  obtain m' where m': "seg_pick ss ms None = Some m'" "ss' = snd m' @ drop (length (fst m')) ss"
    using ss'(1) by (auto simp: seg_map_def split: if_splits)
  then have "m' \<in> set ms" using seg_pick_in by fastforce
  then have "list_all seg_ok ss'" "ss' \<noteq> []"
    using assms(2,3) ne m'(2) by (auto simp: list_all_iff seg_mapping_ok_def dest: in_set_dropD)
  then show ?thesis
    using reverse_refines_seg_pick [of config mall ms ss' k fnm] assms(1-4,6-8) ss'(2) m
    by (simp add: list_all_iff)
qed

section \<open>Properties\<close>

text \<open>C11: On segments the reverse mapping is the lookup in the swapped table: the longest TO that
  starts the real path is replaced by its FROM.\<close>

theorem reverse_implements_lookup:
  assumes "mappings config = seg_config mall ms" and "list_all seg_mapping_ok ms" and "list_all seg_ok ss"
    and "list_all (\<lambda>m. \<not> is_glob_pattern (path_of (snd m))) ms" and "ss \<noteq> []" and "2 \<le> n"
    and "sizes_ok (path_of ss) (mappings config)"
  shows "pm_apply_reverse_mapping_with_config fnm (path_of ss) n config =
     Some (case seg_pick ss (map swap ms) None of
        None \<Rightarrow> Same
      | Some m \<Rightarrow> if length (path_of (snd m @ drop (length (fst m)) ss)) + 1 < n
                  then New (path_of (snd m @ drop (length (fst m)) ss)) else Same)"
  using assms by (rule reverse_refines_seg_pick)

lemma reverse_implements_lookup_witness:
  "pm_apply_reverse_mapping_with_config (\<lambda>_ _. False) ''/app/x'' 4096
     \<lparr>mappings = seg_config True [([''usr''], [''app'']), ([''etc''], [''conf''])], excludes = []\<rparr>
   = Some (New ''/usr/x'')"
  using reverse_implements_lookup [of
      "\<lparr>mappings = seg_config True [([''usr''], [''app'']), ([''etc''], [''conf''])], excludes = []\<rparr>"
      True "[([''usr''], [''app'']), ([''etc''], [''conf''])]" "[''app'', ''x'']" 4096 "\<lambda>_ _. False"]
  by (simp add: seg_mapping_ok_def seg_ok_def is_glob_pattern_def sizes_ok_def SIZE_MOD_def seg_config_def swap_def)

text \<open>C3: The two mappings invert each other: when no TO is a prefix of another, the reverse mapping
  turns every mapped path back into the path the program asked for.\<close>

theorem forward_reverse_round_trip:
  assumes "mappings config = seg_config mall ms" and "list_all seg_mapping_ok ms" and "list_all seg_ok ss"
    and "list_all (\<lambda>m. \<not> is_glob_pattern (path_of (snd m)) \<and> snd m \<noteq> []) ms" and "tos_unrelated ms"
    and "sizes_ok out (mappings config)" and "2 \<le> k" and "length (path_of ss) + 1 < k"
    and "pm_apply_mapping_with_config fnm (path_of ss) n config = New out"
  shows "pm_apply_reverse_mapping_with_config fnm out k config = Some (New (path_of ss))"
  using assms by (rule forward_then_reverse)

lemma forward_reverse_round_trip_witness:
  "pm_apply_reverse_mapping_with_config (\<lambda>_ _. False) ''/app/x'' 4096
     \<lparr>mappings = seg_config True [([''usr''], [''app'']), ([''etc''], [''conf''])], excludes = []\<rparr>
   = Some (New (path_of [''usr'', ''x'']))"
proof -
  let ?ms = "[([''usr''], [''app'']), ([''etc''], [''conf''])]"
  let ?c = "\<lparr>mappings = seg_config True ?ms, excludes = []\<rparr>"
  have "pm_apply_mapping_with_config (\<lambda>_ _. False) (path_of [''usr'', ''x'']) 4096 ?c = New ''/app/x''"
    by code_simp
  then show ?thesis
    using forward_reverse_round_trip [of ?c True ?ms "[''usr'', ''x'']" "''/app/x''" 4096 "\<lambda>_ _. False" 4096]
    by (simp add: seg_mapping_ok_def seg_ok_def is_glob_pattern_def sizes_ok_def SIZE_MOD_def seg_config_def
        tos_unrelated_def All_less_Suc)
qed


text \<open>C32: Neither direction overruns the buffer of the caller. A mapped path fits with its terminating
  byte for every table, prefix and glob mappings alike. The reverse mapping does too, and is free of
  undefined behaviour on every path, when no TO is a glob.\<close>

theorem mappings_fit_buffers:
  assumes "0 < n"
  shows "(pm_apply_mapping_with_config fnm inp n config = New out \<longrightarrow> length out < n)
   \<and> (plain_tos (mappings config) \<and> sizes_ok inp (mappings config) \<longrightarrow>
        (\<exists>r. pm_apply_reverse_mapping_with_config fnm inp n config = Some r
           \<and> (\<forall>out. r = New out \<longrightarrow> length out < n)))"
  using assms forward_fits reverse_plain_total by blast

lemma mappings_fit_buffers_witness:
  "length ''/app/lib/x'' < 4096
   \<and> (\<exists>r. pm_apply_reverse_mapping_with_config (\<lambda>_ _. False) ''/app/x'' 4096
          \<lparr>mappings = [env_mapping (''/usr'', ''/app'')], excludes = []\<rparr> = Some r
        \<and> (\<forall>out. r = New out \<longrightarrow> length out < 4096))"
proof
  have "pm_apply_mapping_with_config (\<lambda>_ _. False) ''/usr/lib/x'' 4096
      \<lparr>mappings = [env_mapping (''/usr/*'', ''/app/*'')], excludes = []\<rparr> = New ''/app/lib/x''"
    by code_simp
  then show "length ''/app/lib/x'' < 4096"
    using mappings_fit_buffers [of 4096 "\<lambda>_ _. False" "''/usr/lib/x''"
        "\<lparr>mappings = [env_mapping (''/usr/*'', ''/app/*'')], excludes = []\<rparr>" "''/app/lib/x''"] by simp
  have "plain_tos [env_mapping (''/usr'', ''/app'')]" "sizes_ok ''/app/x'' [env_mapping (''/usr'', ''/app'')]"
    by (simp_all add: plain_tos_def sizes_ok_def env_mapping_def is_glob_pattern_def SIZE_MOD_def)
  then show "\<exists>r. pm_apply_reverse_mapping_with_config (\<lambda>_ _. False) ''/app/x'' 4096
          \<lparr>mappings = [env_mapping (''/usr'', ''/app'')], excludes = []\<rparr> = Some r
        \<and> (\<forall>out. r = New out \<longrightarrow> length out < 4096)"
    using mappings_fit_buffers [of 4096 "\<lambda>_ _. False" "''/app/x''"
        "\<lparr>mappings = [env_mapping (''/usr'', ''/app'')], excludes = []\<rparr>" "[]"] by simp
qed


end
