(* ===== verification/FixPath.thy ===== *)
theory FixPath
  imports ReverseSpec
begin

text \<open>
  The path rewriting that every interposed function goes through:
  \<^verbatim>\<open>pm_fix_path_common\<close> with the symbolic-link resolution, the configuration that
  \<^verbatim>\<open>pm_init_common_config\<close> reads from the environment, and the rewriting of
  \<^verbatim>\<open>argv[0]\<close>, all from \<^verbatim>\<open>src/lib/pathmap_common.h\<close>.

  The operating system is a record of the three calls the header makes. \<open>os_readlink p n\<close>
  is the return value and the buffer of \<^verbatim>\<open>readlink(p, buf, n)\<close>. It is an option
  because in the preload library that name is the interposed function, which runs the reverse
  mapping.
\<close>

section \<open>The interface of a mapper\<close>

text \<open>
  What the callers of a mapping rely on: a result in the caller's buffer fits there, so copying
  it to another buffer of that size loses nothing.
\<close>

locale buffer_mapper =
  fixes mapper :: "string \<Rightarrow> nat \<Rightarrow> cptr"
  assumes fits: "mapper p n = New q \<Longrightarrow> 0 < n \<Longrightarrow> length q < n"
begin

lemma deref_fits: "0 < n \<Longrightarrow> length p < n \<Longrightarrow> length (deref p (mapper p n)) < n"
  by (cases "mapper p n") (auto dest: fits)

lemma copy_deref:
  "0 < n \<Longrightarrow> length p < n \<Longrightarrow> copy_trunc n (deref p (mapper p n)) = deref p (mapper p n)"
  by (simp add: deref_fits)

end

interpretation fwd: buffer_mapper "\<lambda>p n. pm_apply_mapping_with_config fnm p n config" for fnm config
  by unfold_locales (rule forward_fits)

interpretation fwd_pairs: buffer_mapper "\<lambda>p n. pm_apply_mapping_pairs p pairs n" for pairs
  by unfold_locales (rule mapping_pairs_fits)

section \<open>The calls of the operating system\<close>

record os_view =
  os_readlink :: "string \<Rightarrow> nat \<Rightarrow> (int \<times> string) option"
  os_is_symlink :: "string \<Rightarrow> bool"
  os_is_dir :: "string \<Rightarrow> bool"

text \<open>\<^verbatim>\<open>readlink\<close> fills at most the bytes it was given.\<close>

definition os_ok :: "os_view \<Rightarrow> bool" where
  "os_ok os \<longleftrightarrow> (\<forall>p n. \<exists>r b. os_readlink os p n = Some (r, b) \<and> r \<le> int n)"

section \<open>Symbolic links\<close>

text \<open>The result is relative to \<open>mapped_path\<close>: the same pointer or the resolved buffer.\<close>

definition pm_resolve_symlink_path_impl ::
    "(string \<Rightarrow> string \<Rightarrow> bool) \<Rightarrow> os_view \<Rightarrow> string \<Rightarrow> cptr \<Rightarrow> nat \<Rightarrow> pm_mapping_config \<Rightarrow> cptr option" where
  "pm_resolve_symlink_path_impl fnm os original_path mapped buffer_size config =
     (case mapped of
        Same \<Rightarrow> Some Same
      | New mapped_path \<Rightarrow>
          if \<not> os_is_symlink os mapped_path then Some Same
          else do {
            (len, buf) \<leftarrow> os_readlink os mapped_path (buffer_size - 1);
            if len \<le> 0 then Some Same
            else
              (let target = take (nat len) buf in
               if \<not> is_absolute target then
                 (let dir = copy_trunc MAX_PATH original_path;
                      virtual_dir = (case strrchr dir slash of Some k \<Rightarrow> take k dir | None \<Rightarrow> ''.'');
                      joined = virtual_dir @ slash # target
                  in if length joined < MAX_PATH then
                       do {
                         abs_resolved \<leftarrow> pm_normalize_path_inplace joined;
                         Some (New (copy_trunc buffer_size
                           (deref abs_resolved
                             (pm_apply_mapping_with_config fnm abs_resolved MAX_PATH config))))
                       }
                     else Some Same)
               else
                 Some (New (copy_trunc buffer_size
                   (deref target (pm_apply_mapping_with_config fnm target MAX_PATH config)))))
          })"

definition pm_should_resolve_symlink :: "string \<Rightarrow> bool \<Rightarrow> bool" where
  "pm_should_resolve_symlink function_name relsymlink =
     (if strstr function_name ''readlink'' then False else relsymlink)"

section \<open>The common configuration\<close>

datatype pm_log_level_t = PM_LOG_QUIET | PM_LOG_INFO | PM_LOG_DEBUG

fun log_level_value :: "pm_log_level_t \<Rightarrow> nat" where
  "log_level_value PM_LOG_QUIET = 0"
| "log_level_value PM_LOG_INFO = 1"
| "log_level_value PM_LOG_DEBUG = 2"

lemma log_level_value_inj: "log_level_value a = log_level_value b \<Longrightarrow> a = b"
  by (cases a; cases b) simp_all

text \<open>C compares the enumeration by its values.\<close>

instantiation pm_log_level_t :: linorder
begin

definition less_eq_pm_log_level_t :: "pm_log_level_t \<Rightarrow> pm_log_level_t \<Rightarrow> bool" where
  "less_eq_pm_log_level_t a b = (log_level_value a \<le> log_level_value b)"

definition less_pm_log_level_t :: "pm_log_level_t \<Rightarrow> pm_log_level_t \<Rightarrow> bool" where
  "less_pm_log_level_t a b = (log_level_value a < log_level_value b)"

instance
  by standard (auto simp: less_eq_pm_log_level_t_def less_pm_log_level_t_def dest: log_level_value_inj)

end

text \<open>\<^verbatim>\<open>PM_DEFAULT_DEBUG\<close> and \<^verbatim>\<open>PM_DEFAULT_RELSYMLINK\<close> are 0, \<^verbatim>\<open>PM_DEFAULT_REVERSE_ENABLED\<close> is 1.\<close>

definition pm_init_logging :: "(string \<Rightarrow> string option) \<Rightarrow> pm_log_level_t" where
  "pm_init_logging getenv =
     (case getenv ''PATHMAP_DEBUG'' of
        None \<Rightarrow> PM_LOG_QUIET
      | Some v \<Rightarrow>
          if v = [] then PM_LOG_QUIET
          else if v = ''0'' then PM_LOG_QUIET
          else if v = ''1'' then PM_LOG_INFO
          else PM_LOG_DEBUG)"

record pm_common_config =
  mapping_config :: pm_mapping_config
  relsymlink :: bool
  reverse_enabled :: bool
  debug :: bool
  dry_run :: bool

definition empty_config :: pm_mapping_config where
  "empty_config = \<lparr>mappings = [], excludes = []\<rparr>"

definition pm_init_common_config ::
    "(nat \<Rightarrow> bool) \<Rightarrow> (nat \<Rightarrow> bool) \<Rightarrow> (string \<Rightarrow> string option) \<Rightarrow> pm_common_config option" where
  "pm_init_common_config alloc_m alloc_x getenv = do {
     let level = pm_init_logging getenv;
     let mc = pm_load_mappings_from_env alloc_m (getenv ''PATH_MAPPING'') empty_config;
     mc \<leftarrow> pm_load_excludes_from_env alloc_x (getenv ''PATH_MAPPING_EXCLUDE'') mc;
     Some \<lparr>mapping_config = mc,
           relsymlink = (case getenv ''PATHMAP_RELSYMLINK'' of Some v \<Rightarrow> v = ''1'' | None \<Rightarrow> False),
           reverse_enabled = (case getenv ''PATHMAP_REVERSE'' of Some v \<Rightarrow> v = ''1'' | None \<Rightarrow> True),
           debug = (PM_LOG_INFO \<le> level),
           dry_run = False\<rparr>
   }"

section \<open>The rewriting of a path argument\<close>

definition searches_path :: "string \<Rightarrow> bool" where
  "searches_path function_name \<longleftrightarrow>
     function_name = ''execvp'' \<or> function_name = ''execvpe'' \<or> function_name = ''execlp''
     \<or> function_name = ''posix_spawnp''"

text \<open>\<^verbatim>\<open>strncat(dst, src, sizeof dst - strlen(dst) - 1)\<close> on a buffer of \<^term>\<open>MAX_PATH\<close> bytes.\<close>

definition cat_trunc :: "string \<Rightarrow> string \<Rightarrow> string" where
  "cat_trunc dst src = dst @ take (MAX_PATH - length dst - 1) src"

text \<open>The path the tables are searched with; \<^term>\<open>Some None\<close> is the early return without a working directory.\<close>

definition match_path :: "os_view \<Rightarrow> string \<Rightarrow> string option option" where
  "match_path os path =
     (if \<not> is_absolute path then
        do {
          (n, buf) \<leftarrow> os_readlink os ''/proc/self/cwd'' (MAX_PATH - 1);
          if n \<le> 0 then Some None
          else
            (let base = take (nat n) buf;
                 absbuf = copy_trunc MAX_PATH base;
                 absbuf = (if base = [] \<or> last absbuf \<noteq> slash then cat_trunc absbuf [slash] else absbuf);
                 absbuf = cat_trunc absbuf path
             in map_option Some (pm_normalize_path_inplace absbuf))
        }
      else map_option Some (pm_normalize_path_inplace (copy_trunc MAX_PATH path)))"

definition pm_fix_path_common ::
    "(string \<Rightarrow> string \<Rightarrow> bool) \<Rightarrow> os_view \<Rightarrow> string \<Rightarrow> string option \<Rightarrow> nat \<Rightarrow> pm_common_config
       \<Rightarrow> cptr option" where
  "pm_fix_path_common fnm os function_name path new_path_size config =
     (case path of
        None \<Rightarrow> Some Same
      | Some path \<Rightarrow>
          if path = ''.'' then Some Same
          else if \<not> is_absolute path \<and> strchr path slash = None \<and> searches_path function_name
          then Some Same
          else do {
            mp \<leftarrow> match_path os path;
            (case mp of
               None \<Rightarrow> Some Same
             | Some match \<Rightarrow>
                 if pm_is_excluded_prefix fnm match (mapping_config config) then Some Same
                 else
                   (case pm_apply_mapping_with_config fnm match new_path_size (mapping_config config) of
                      Same \<Rightarrow> Some Same
                    | New mapped \<Rightarrow>
                        if pm_should_resolve_symlink function_name (relsymlink config) then
                          do {
                            final_path \<leftarrow> pm_resolve_symlink_path_impl fnm os match (New mapped)
                              MAX_PATH (mapping_config config);
                            (case final_path of
                               Same \<Rightarrow> Some (New mapped)
                             | New f \<Rightarrow> Some (New (copy_trunc new_path_size f)))
                          }
                        else Some (New mapped)))
          })"

section \<open>argv[0]\<close>

text \<open>
  \<open>same\<close>: the two path pointers are equal. The result is the new array, or \<^term>\<open>None\<close>
  for NULL. \<open>alloc\<close> covers the checked allocations in their order.
\<close>

definition pm_update_argv0 ::
    "(nat \<Rightarrow> bool) \<Rightarrow> bool \<Rightarrow> string \<Rightarrow> string \<Rightarrow> string list option \<Rightarrow> string list option" where
  "pm_update_argv0 alloc same original_path new_path argv =
     (case argv of
        None \<Rightarrow> None
      | Some [] \<Rightarrow> None
      | Some (_ # args) \<Rightarrow>
          if same then None
          else if \<not> alloc 0 then None
          else
            (let original_filename = basename_of original_path;
                 dir = copy_trunc MAX_PATH new_path;
                 new_dir = (case strrchr dir slash of Some k \<Rightarrow> take k dir | None \<Rightarrow> ''.'');
                 joined = new_dir @ slash # original_filename
             in if alloc 1 then
                  (if length joined < MAX_PATH then Some (joined # args) else Some (new_path # args))
                else Some (new_path # args)))"

definition pm_update_argv0_common ::
    "(string \<Rightarrow> string \<Rightarrow> bool) \<Rightarrow> (nat \<Rightarrow> bool) \<Rightarrow> bool \<Rightarrow> string \<Rightarrow> string list option
       \<Rightarrow> pm_common_config \<Rightarrow> string list option" where
  "pm_update_argv0_common fnm alloc same original_path argv config =
     (case argv of
        None \<Rightarrow> None
      | Some [] \<Rightarrow> None
      | Some (_ # args) \<Rightarrow>
          if same then None
          else
            (let mapped = deref original_path
                   (pm_apply_mapping_with_config fnm original_path MAX_PATH (mapping_config config))
             in if mapped = original_path then None
                else if \<not> alloc 0 then None
                else if \<not> alloc 1 then None
                else Some (mapped # args)))"

text \<open>The call that is made: the path, the argument vector and, with \<open>has_env\<close>, the environment.\<close>

record exec_call =
  call_path :: string
  call_argv :: "string list option"
  call_env :: "string list option option"

definition pm_execute_with_resolved_path_universal ::
    "(string \<Rightarrow> string \<Rightarrow> bool) \<Rightarrow> (nat \<Rightarrow> bool) \<Rightarrow> bool \<Rightarrow> string \<Rightarrow> string \<Rightarrow> string list option
       \<Rightarrow> string list option \<Rightarrow> bool \<Rightarrow> pm_common_config \<Rightarrow> exec_call" where
  "pm_execute_with_resolved_path_universal fnm alloc same original_path final_path argv env has_env config =
     (case pm_update_argv0_common fnm alloc same original_path argv config of
        Some new_argv \<Rightarrow>
          \<lparr>call_path = final_path, call_argv = Some new_argv, call_env = (if has_env then Some env else None)\<rparr>
      | None \<Rightarrow>
          \<lparr>call_path = final_path, call_argv = argv, call_env = (if has_env then Some env else None)\<rparr>)"

section \<open>Nothing leaves the buffers\<close>

lemma os_readlinkE:
  assumes "os_ok os"
  obtains r b where "os_readlink os p n = Some (r, b)" "r \<le> int n"
  using assms unfolding os_ok_def by meson

lemma cat_trunc_bound [path_intros]: "length dst < MAX_PATH \<Longrightarrow> length (cat_trunc dst src) < MAX_PATH"
  by (simp add: cat_trunc_def)

lemma match_path_total:
  assumes "os_ok os"
  shows "\<exists>mp. match_path os path = Some mp"
proof (cases "is_absolute path")
  case True
  have "length (copy_trunc MAX_PATH path) < MAX_PATH"
    by (simp add: length_copy_trunc MAX_PATH_def)
  then show ?thesis
    using normalize_total True unfolding match_path_def by fastforce
next
  case False
  obtain r b where rb: "os_readlink os ''/proc/self/cwd'' (MAX_PATH - 1) = Some (r, b)"
    using os_readlinkE [OF assms] by metis
  have norm: "\<exists>q. pm_normalize_path_inplace (cat_trunc s path) = Some q" if "length s < MAX_PATH" for s
    using normalize_total [OF cat_trunc_bound [OF that]] by blast
  have base: "length (copy_trunc MAX_PATH s) < MAX_PATH" for s
    by (simp add: length_copy_trunc MAX_PATH_def)
  show ?thesis
    using False rb norm [OF base] norm [OF cat_trunc_bound [OF base]]
    by (auto simp: match_path_def Let_def)
qed

lemma resolve_symlink_total:
  assumes "os_ok os" and "0 < n"
  shows "\<exists>r. pm_resolve_symlink_path_impl fnm os orig mapped n config = Some r
           \<and> (\<forall>q. r = New q \<longrightarrow> length q < n)"
proof (cases mapped)
  case Same
  then show ?thesis by (simp add: pm_resolve_symlink_path_impl_def)
next
  case (New m)
  obtain r b where rb: "os_readlink os m (n - 1) = Some (r, b)"
    using os_readlinkE [OF assms(1)] by metis
  have trunc: "length (copy_trunc n s) < n" for s
    using assms(2) by (rule length_copy_trunc)
  define joined where "joined = (case strrchr (copy_trunc MAX_PATH orig) slash of
      Some k \<Rightarrow> take k (copy_trunc MAX_PATH orig) | None \<Rightarrow> ''.'') @ slash # take (nat r) b"
  show ?thesis
  proof (cases "length joined < MAX_PATH")
    case True
    then obtain q where "pm_normalize_path_inplace joined = Some q"
      using normalize_total by blast
    then show ?thesis
      using New rb trunc True by (auto simp: pm_resolve_symlink_path_impl_def Let_def joined_def)
  next
    case False
    then show ?thesis
      using New rb trunc by (auto simp: pm_resolve_symlink_path_impl_def Let_def joined_def)
  qed
qed

lemma fix_path_total:
  assumes "os_ok os" and "0 < n"
  shows "\<exists>r. pm_fix_path_common fnm os f path n c = Some r \<and> (\<forall>q. r = New q \<longrightarrow> length q < n)"
proof (cases path)
  case None
  then show ?thesis by (simp add: pm_fix_path_common_def)
next
  case (Some p)
  obtain mp where mp: "match_path os p = Some mp"
    using match_path_total [OF assms(1)] by blast
  show ?thesis
  proof (cases mp)
    case None
    then show ?thesis using Some mp by (simp add: pm_fix_path_common_def)
  next
    case (Some m)
    note p = \<open>path = Some p\<close>
    show ?thesis
    proof (cases "pm_apply_mapping_with_config fnm m n (mapping_config c)")
      case Same
      then show ?thesis using Some p mp by (simp add: pm_fix_path_common_def)
    next
      case (New q)
      have fit: "length q < n" using forward_fits [OF New assms(2)] .
      have max: "0 < MAX_PATH" by (simp add: MAX_PATH_def)
      obtain r where r: "pm_resolve_symlink_path_impl fnm os m (New q) MAX_PATH (mapping_config c) = Some r"
        using resolve_symlink_total [OF assms(1) max] by blast
      have trunc: "length (copy_trunc n s) < n" for s
        using assms(2) by (rule length_copy_trunc)
      show ?thesis
        using Some p mp New fit r trunc
        by (cases r) (auto simp: pm_fix_path_common_def)
    qed
  qed
qed

section \<open>Properties\<close>

text \<open>C23: The configuration read from the environment is always well formed: at most 64 mappings
  and 64 exclusions, no empty FROM or TO, the glob flag of an entry from the environment true of its
  pattern, and reading the exclusions never writes outside a buffer.\<close>

theorem init_config_well_formed:
  "\<exists>c. pm_init_common_config alloc_m alloc_x getenv = Some c \<and> wf_config (mapping_config c) \<and> \<not> dry_run c"
proof -
  obtain c' where c': "pm_load_excludes_from_env alloc_x (getenv ''PATH_MAPPING_EXCLUDE'')
        (pm_load_mappings_from_env alloc_m (getenv ''PATH_MAPPING'') empty_config) = Some c'"
      "mappings c' = mappings (pm_load_mappings_from_env alloc_m (getenv ''PATH_MAPPING'') empty_config)"
      "list_all exclude_ok (excludes c')" "length (excludes c') \<le> max_excludes"
    using load_excludes_total by metis
  then have "wf_config c'"
    using load_mappings_ok [of alloc_m "getenv ''PATH_MAPPING''" empty_config] by (simp add: wf_config_def)
  with c'(1) show ?thesis
    by (simp add: pm_init_common_config_def)
qed


definition sample_os :: os_view where
  "sample_os = \<lparr>os_readlink = (\<lambda>p n. if p = ''/proc/self/cwd'' \<and> 5 < n then Some (5, ''/home'') else Some (- 1, [])),
     os_is_symlink = (\<lambda>p. False), os_is_dir = (\<lambda>p. p = ''/'')\<rparr>"


end
