(* ===== verification/FixPathSpec.thy ===== *)
theory FixPathSpec
  imports FixPath
begin

text \<open>
  What \<^verbatim>\<open>pm_fix_path_common\<close> means. On a table of prefix mappings it acts on the list of
  segments that a path stands for, however the path spells it: \<open>resolve\<close> interprets
  \<^verbatim>\<open>.\<close>, \<^verbatim>\<open>..\<close>, doubled slashes and, for a relative path, the working
  directory; the exclusions and the table are then looked up on segments.
\<close>

section \<open>A final slash\<close>

lemma longest_match_final_slash: "longest_match (p @ [slash]) ms i = longest_match p ms i"
  by (simp add: longest_match_def prefix_matches_final_slash)

lemma forward_final_slash:
  assumes "mappings config = seg_config mall ms" and "list_all seg_mapping_ok ms" and "list_all seg_ok ss"
  shows "pm_apply_mapping_with_config fnm (path_of ss @ [slash]) n config =
     (case seg_map ms ss of
        None \<Rightarrow> Same
      | Some ss' \<Rightarrow> if length (path_of ss') + 2 < n then New (path_of ss' @ [slash]) else Same)"
proof -
  note refines = forward_refines_seg_map [OF assms, where fnm = fnm]
  have pre: "prefix_only (mappings config)" by (simp add: assms(1))
  let ?to = "list_ex (\<lambda>m. pm_path_prefix_matches (map_to m) (path_of ss)) (mappings config)"
  show ?thesis
  proof (cases ?to)
    case True
    then have same: "pm_apply_mapping_with_config fnm (path_of ss) n' config = Same" for n'
      by (simp add: pm_apply_mapping_with_config_def)
    have "seg_map ms ss = None"
    proof (rule ccontr)
      assume "seg_map ms ss \<noteq> None"
      then obtain ss' where "seg_map ms ss = Some ss'" by blast
      with refines [of "length (path_of ss') + 2"] same show False by simp
    qed
    with True show ?thesis
      by (simp add: pm_apply_mapping_with_config_def prefix_matches_final_slash)
  next
    case False
    then have slash: "\<not> list_ex (\<lambda>m. pm_path_prefix_matches (map_to m) (path_of ss @ [slash])) (mappings config)"
      by (simp add: prefix_matches_final_slash)
    from pre False show ?thesis
    proof (cases rule: forward_prefix_cases [where fnm = fnm])
      case none
      have "seg_map ms ss = None"
      proof (rule ccontr)
        assume "seg_map ms ss \<noteq> None"
        then obtain ss' where "seg_map ms ss = Some ss'" by blast
        with refines [of "length (path_of ss') + 2"] none(1) show False by simp
      qed
      moreover have "pm_apply_mapping_with_config fnm (path_of ss @ [slash]) n config = Same"
      using pre slash proof (cases rule: forward_prefix_cases [where fnm = fnm])
        case (some i)
        then show ?thesis
          using none(2) by (auto simp: prefix_matches_final_slash longest_match_def)
      qed simp
      ultimately show ?thesis by simp
    next
      case (some i)
      let ?m = "mappings config ! i"
      have le: "pm_pathlen (map_from ?m) \<le> length (path_of ss)"
        using some(1) prefix_matches_split(3) by (auto simp: longest_match_def)
      have "\<exists>ss'. seg_map ms ss = Some ss' \<and> path_of ss' = prefix_target (path_of ss) ?m"
        using refines [of "length (prefix_target (path_of ss) ?m) + 2"]
          some(2) [of "length (prefix_target (path_of ss) ?m) + 2"]
        by (auto split: option.splits if_splits)
      then obtain ss' where ss': "seg_map ms ss = Some ss'" "path_of ss' = prefix_target (path_of ss) ?m"
        by blast
      from pre slash show ?thesis
      proof (cases rule: forward_prefix_cases [where fnm = fnm])
        case none': none
        then show ?thesis
          using some(1) nth_mem [of i "mappings config"]
          by (fastforce simp: longest_match_def prefix_matches_final_slash)
      next
        case (some j)
        have "i = j"
          using longest_match_unique \<open>longest_match (path_of ss) (mappings config) i\<close>
            some(1) [unfolded longest_match_final_slash] by blast
        moreover have "prefix_target (path_of ss @ [slash]) ?m = path_of ss' @ [slash]"
          using le by (simp add: ss'(2) prefix_target_def)
        ultimately show ?thesis
          using some(2) [of n] ss'(1) by simp
      qed
    qed
  qed
qed

lemma forward_stands_for:
  assumes "mappings config = seg_config mall ms" and "list_all seg_mapping_ok ms" and "stands_for q ss"
  shows "case seg_map ms ss of
      None \<Rightarrow> pm_apply_mapping_with_config fnm q n config = Same
    | Some ss' \<Rightarrow> length (path_of ss') + 2 < n \<longrightarrow>
        (\<exists>r. pm_apply_mapping_with_config fnm q n config = New r \<and> (r = path_of ss' \<or> r = path_of ss' @ [slash]))"
proof -
  have ok: "list_all seg_ok ss" and q: "q = path_of ss \<or> q = path_of ss @ [slash]"
    using assms(3) by (auto simp: stands_for_def)
  from q show ?thesis
    using forward_refines_seg_map [OF assms(1,2) ok, of fnm n] forward_final_slash [OF assms(1,2) ok, of fnm n]
    by (auto split: option.splits)
qed

section \<open>The rewriting on segments\<close>

text \<open>The absolute spelling of a path argument in the working directory \<open>cwd\<close>.\<close>

definition abs_name :: "string \<Rightarrow> string \<Rightarrow> string" where
  "abs_name cwd p = (if is_absolute p then p else cwd @ slash # p)"

definition cwd_is :: "os_view \<Rightarrow> string \<Rightarrow> bool" where
  "cwd_is os cwd \<longleftrightarrow>
     is_absolute cwd \<and> os_readlink os ''/proc/self/cwd'' (MAX_PATH - 1) = Some (int (length cwd), cwd)"

lemma resolve_double_slash: "resolve (a @ slash # slash # b) = resolve (a @ slash # b)"
proof -
  have "split_slash seg (a @ slash # slash # b) = split_slash seg a @ [] # split_slash [] b
      \<and> split_slash seg (a @ slash # b) = split_slash seg a @ split_slash [] b" for seg
    by (induction a arbitrary: seg) auto
  then show ?thesis by (simp add: resolve_def resolve_step_def)
qed

lemma match_path_resolves:
  assumes "is_absolute p \<or> cwd_is os cwd" and "length (abs_name cwd p) + 1 < MAX_PATH"
  shows "\<exists>q. match_path os p = Some (Some q) \<and> stands_for q (resolve (abs_name cwd p)) \<and> q \<noteq> []"
proof (cases "is_absolute p")
  case True
  then have "length p + 1 < MAX_PATH" using assms(2) by (simp add: abs_name_def)
  then obtain q where "pm_normalize_path_inplace p = Some q" "stands_for q (resolve p)" "q \<noteq> []"
    by (rule normalize_refines)
  with True \<open>length p + 1 < MAX_PATH\<close> show ?thesis
    by (simp add: match_path_def abs_name_def)
next
  case False
  have len: "length cwd + length p + 2 < MAX_PATH"
    using assms(2) False by (simp add: abs_name_def)
  have cwd: "cwd \<noteq> []" "os_readlink os ''/proc/self/cwd'' (MAX_PATH - 1) = Some (int (length cwd), cwd)"
    using assms(1) False by (auto simp: cwd_is_def is_absolute_def)
  define joined where "joined = (if last cwd \<noteq> slash then cwd @ slash # p else cwd @ p)"
  have "match_path os p = map_option Some (pm_normalize_path_inplace joined)"
    using False cwd len by (simp add: match_path_def joined_def cat_trunc_def Let_def)
  moreover have "resolve joined = resolve (cwd @ slash # p)"
  proof (cases "last cwd = slash")
    case True
    then obtain d where "cwd = d @ [slash]" using cwd(1) by (metis append_butlast_last_id)
    then show ?thesis by (simp add: joined_def resolve_double_slash)
  qed (simp add: joined_def)
  moreover have "length joined + 1 < MAX_PATH" using len by (simp add: joined_def)
  then obtain q where "pm_normalize_path_inplace joined = Some q" "stands_for q (resolve joined)" "q \<noteq> []"
    by (rule normalize_refines)
  ultimately show ?thesis using False by (simp add: abs_name_def)
qed

definition seg_excludes :: "string list list \<Rightarrow> pm_exclude list" where
  "seg_excludes es = map (\<lambda>e. \<lparr>excl_pat = path_of e, exclude_is_malloced = True, exclude_is_glob = False\<rparr>) es"

lemma stands_for_absolute: "stands_for q ss \<Longrightarrow> q \<noteq> [] \<Longrightarrow> is_absolute q"
  using path_of_hd [of ss] by (cases ss) (auto simp: stands_for_def is_absolute_def)

lemma excluded_segments:
  assumes "stands_for q ss" and "q \<noteq> []" and "excludes config = seg_excludes es"
    and "list_all (list_all seg_ok) es"
  shows "pm_is_excluded_prefix fnm q config \<longleftrightarrow> (\<exists>e\<in>set es. prefix e ss)"
proof -
  have "pm_path_prefix_matches (path_of e) q \<longleftrightarrow> prefix e ss" if "e \<in> set es" for e
    using that assms(1,4) prefix_matches_path_of [of e ss]
    by (auto simp: stands_for_def prefix_matches_final_slash list_all_iff)
  then show ?thesis
    using assms(3) stands_for_absolute [OF assms(1,2)]
    by (simp add: pm_is_excluded_prefix_def seg_excludes_def list_ex_iff exclude_hit_def)
qed

text \<open>The promise of the rewriting: \<open>fix_spec\<close> is the lookup on the resolved segments.\<close>

definition fix_spec :: "string list list \<Rightarrow> seg_map list \<Rightarrow> string list \<Rightarrow> string list option" where
  "fix_spec es ms ss = (if \<exists>e\<in>set es. prefix e ss then None else seg_map ms ss)"

definition bare_search :: "string \<Rightarrow> string \<Rightarrow> bool" where
  "bare_search f p \<longleftrightarrow> slash \<notin> set p \<and> searches_path f"

definition seg_common :: "string list list \<Rightarrow> seg_map list \<Rightarrow> pm_common_config \<Rightarrow> bool" where
  "seg_common es ms c \<longleftrightarrow>
     mappings (mapping_config c) = seg_config True ms \<and> excludes (mapping_config c) = seg_excludes es
     \<and> list_all seg_mapping_ok ms \<and> list_all (list_all seg_ok) es"

lemma fix_path_segments:
  assumes "seg_common es ms c" and "\<not> relsymlink c" and "is_absolute p \<or> cwd_is os cwd"
    and "length (abs_name cwd p) + 1 < MAX_PATH" and "p \<noteq> ''.''" and "\<not> bare_search f p"
  shows "case fix_spec es ms (resolve (abs_name cwd p)) of
      None \<Rightarrow> pm_fix_path_common fnm os f (Some p) n c = Some Same
    | Some ss' \<Rightarrow> length (path_of ss') + 2 < n \<longrightarrow>
        (\<exists>r. pm_fix_path_common fnm os f (Some p) n c = Some (New r) \<and> (r = path_of ss' \<or> r = path_of ss' @ [slash]))"
proof -
  let ?ss = "resolve (abs_name cwd p)"
  obtain q where q: "match_path os p = Some (Some q)" "stands_for q ?ss" "q \<noteq> []"
    using match_path_resolves [OF assms(3,4)] by blast
  have cfg: "mappings (mapping_config c) = seg_config True ms" "excludes (mapping_config c) = seg_excludes es"
      "list_all seg_mapping_ok ms" "list_all (list_all seg_ok) es"
    using assms(1) by (simp_all add: seg_common_def)
  have ex: "pm_is_excluded_prefix fnm q (mapping_config c) \<longleftrightarrow> (\<exists>e\<in>set es. prefix e ?ss)"
    by (rule excluded_segments [OF q(2,3) cfg(2,4)])
  have search: "\<not> (\<not> is_absolute p \<and> strchr p slash = None \<and> searches_path f)"
    using assms(6) by (auto simp: bare_search_def strchr_None_iff)
  have sym: "\<not> pm_should_resolve_symlink f (relsymlink c)"
    using assms(2) by (simp add: pm_should_resolve_symlink_def)
  have step: "pm_fix_path_common fnm os f (Some p) n c =
      Some (if \<exists>e\<in>set es. prefix e ?ss then Same else pm_apply_mapping_with_config fnm q n (mapping_config c))"
    using q(1) ex search sym assms(5) by (auto simp: pm_fix_path_common_def split: cptr.splits)
  show ?thesis
    using forward_stands_for [OF cfg(1,3) q(2), of fnm n]
    by (auto simp: step fix_spec_def split: option.splits)
qed

text \<open>An excluded path is left alone by every function, with or without symbolic-link resolution.\<close>

lemma excluded_untouched:
  assumes "seg_common es ms c" and "is_absolute p \<or> cwd_is os cwd" and "length (abs_name cwd p) + 1 < MAX_PATH"
    and "e \<in> set es" and "prefix e (resolve (abs_name cwd p))"
  shows "pm_fix_path_common fnm os f (Some p) n c = Some Same"
proof -
  obtain q where q: "match_path os p = Some (Some q)" "stands_for q (resolve (abs_name cwd p))" "q \<noteq> []"
    using match_path_resolves [OF assms(2,3)] by blast
  have "pm_is_excluded_prefix fnm q (mapping_config c)"
    using excluded_segments [OF q(2,3), of "mapping_config c" es fnm] assms(1,4,5) by (auto simp: seg_common_def)
  with q(1) show ?thesis by (simp add: pm_fix_path_common_def)
qed

lemma bare_search_untouched:
  assumes "bare_search f p"
  shows "pm_fix_path_common fnm os f (Some p) n c = Some Same"
proof -
  have "strchr p slash = None"
    using assms by (simp add: bare_search_def strchr_None_iff)
  moreover have "\<not> is_absolute p"
    using assms by (cases p) (auto simp: bare_search_def is_absolute_def)
  ultimately show ?thesis
    using assms by (simp add: pm_fix_path_common_def bare_search_def)
qed

lemma dot_untouched: "pm_fix_path_common fnm os f (Some ''.'') n c = Some Same"
  by (simp add: pm_fix_path_common_def)

section \<open>Properties\<close>

text \<open>C1: The rewriting of a path argument is the lookup on its resolved segments, for every
  spelling of the path: relative to the working directory, with \<^verbatim>\<open>.\<close>,
  \<^verbatim>\<open>..\<close> or doubled slashes, the exclusions first and then the longest FROM.\<close>

theorem fix_path_is_lookup:
  assumes "seg_common es ms c" and "\<not> relsymlink c" and "is_absolute p \<or> cwd_is os cwd"
    and "length (abs_name cwd p) + 1 < MAX_PATH" and "p \<noteq> ''.''" and "\<not> bare_search f p"
  shows "case fix_spec es ms (resolve (abs_name cwd p)) of
      None \<Rightarrow> pm_fix_path_common fnm os f (Some p) n c = Some Same
    | Some ss' \<Rightarrow> length (path_of ss') + 2 < n \<longrightarrow>
        (\<exists>r. pm_fix_path_common fnm os f (Some p) n c = Some (New r) \<and> (r = path_of ss' \<or> r = path_of ss' @ [slash]))"
  using assms by (rule fix_path_segments)

definition sample_config :: pm_common_config where
  "sample_config = \<lparr>mapping_config = \<lparr>mappings = seg_config True [([''usr''], [''app''])],
       excludes = seg_excludes [[''usr'', ''keep'']]\<rparr>,
     relsymlink = False, reverse_enabled = True, debug = False, dry_run = False\<rparr>"

lemma sample_config_ok: "seg_common [[''usr'', ''keep'']] [([''usr''], [''app''])] sample_config"
  by (simp add: seg_common_def sample_config_def seg_mapping_ok_def seg_ok_def)

lemma sample_cwd: "cwd_is sample_os ''/home''"
  by (simp add: cwd_is_def sample_os_def is_absolute_def MAX_PATH_def)

lemma fix_path_is_lookup_witness:
  "\<exists>r. pm_fix_path_common (\<lambda>_ _. False) sample_os ''open'' (Some ''../usr/./x'') 4096 sample_config = Some (New r)
     \<and> (r = ''/app/x'' \<or> r = ''/app/x/'')"
proof -
  have res: "resolve (abs_name ''/home'' ''../usr/./x'') = [''usr'', ''x'']"
    by (simp add: abs_name_def is_absolute_def resolve_def resolve_step_def)
  show ?thesis
    using fix_path_is_lookup [OF sample_config_ok _ disjI2 [OF sample_cwd], of "''../usr/./x''" "''open''" "\<lambda>_ _. False" 4096,
        unfolded res]
    by (simp add: sample_config_def abs_name_def is_absolute_def MAX_PATH_def bare_search_def searches_path_def
        fix_spec_def seg_map_def)
qed



end
