(* ===== verification/Cwd.thy ===== *)
theory Cwd
  imports FixPathSpec
begin

text \<open>
  The working directory at startup: \<^verbatim>\<open>pm_startup_cwd_needs_fix\<close>,
  \<^verbatim>\<open>pm_build_validated_startup_cwd_plan\<close> of
  \<^verbatim>\<open>src/lib/pathmap_common.h\<close> and the constructor
  \<^verbatim>\<open>path_mapping_init\<close> of \<^verbatim>\<open>src/lib/path-mapping.c\<close>. The home
  directory comes from \<^verbatim>\<open>HOME\<close> or from the password entry; both are arguments.
  A plan is a value of \<^verbatim>\<open>struct pm_cwd_plan\<close>; the functions are options because the
  reverse mapping is.
\<close>

record pm_cwd_plan =
  have_target :: bool
  chdir_target :: string
  pwd_value :: string

definition empty_plan :: pm_cwd_plan where
  "empty_plan = \<lparr>have_target = False, chdir_target = [], pwd_value = []\<rparr>"

definition pm_real_stat_is_dir :: "os_view \<Rightarrow> string \<Rightarrow> bool" where
  "pm_real_stat_is_dir os path = (if path = [] then False else os_is_dir os path)"

definition pm_startup_cwd_needs_fix ::
    "(string \<Rightarrow> string \<Rightarrow> bool) \<Rightarrow> os_view \<Rightarrow> string \<Rightarrow> pm_mapping_config \<Rightarrow> bool" where
  "pm_startup_cwd_needs_fix fnm os real_cwd config =
     (if real_cwd = [] then False
      else if pm_is_excluded_prefix fnm real_cwd config then False
      else (case pm_apply_mapping_with_config fnm real_cwd MAX_PATH config of
              Same \<Rightarrow> False
            | New fwd \<Rightarrow> \<not> pm_real_stat_is_dir os fwd))"

definition pm_set_root_fallback :: "pm_cwd_plan \<Rightarrow> pm_cwd_plan" where
  "pm_set_root_fallback plan = plan\<lparr>chdir_target := ''/'', pwd_value := ''/'', have_target := True\<rparr>"

text \<open>The target and the \<^verbatim>\<open>PWD\<close> for a real directory: its virtual name when it has one.\<close>

definition target_with_pwd ::
    "(string \<Rightarrow> string \<Rightarrow> bool) \<Rightarrow> string \<Rightarrow> pm_mapping_config \<Rightarrow> pm_cwd_plan option" where
  "target_with_pwd fnm tgt config = do {
     pv \<leftarrow> pm_virtualize_cwd_string fnm tgt MAX_PATH config;
     Some \<lparr>have_target = True, chdir_target = copy_trunc MAX_PATH tgt,
           pwd_value = (case pv of Same \<Rightarrow> copy_trunc MAX_PATH tgt | New v \<Rightarrow> v)\<rparr>
   }"

definition unchecked_plan ::
    "(string \<Rightarrow> string \<Rightarrow> bool) \<Rightarrow> string \<Rightarrow> pm_mapping_config \<Rightarrow> pm_cwd_plan option" where
  "unchecked_plan fnm real_cwd config = do {
     virt \<leftarrow> pm_virtualize_cwd_string fnm real_cwd MAX_PATH config;
     (case virt of
        New v \<Rightarrow>
          Some \<lparr>have_target = True,
                chdir_target = (case pm_apply_mapping_with_config fnm v MAX_PATH config of
                    Same \<Rightarrow> copy_trunc MAX_PATH real_cwd
                  | New virt_real \<Rightarrow> copy_trunc MAX_PATH virt_real),
                pwd_value = copy_trunc MAX_PATH v\<rparr>
      | Same \<Rightarrow>
          (case pm_apply_mapping_with_config fnm real_cwd MAX_PATH config of
             New tgt \<Rightarrow> target_with_pwd fnm tgt config
           | Same \<Rightarrow> Some (pm_set_root_fallback empty_plan)))
   }"

text \<open>The home directory: \<open>home_env\<close> is \<^verbatim>\<open>getenv("HOME")\<close>, \<open>pw_dir\<close> the directory of the password entry.\<close>

definition home_of :: "string option \<Rightarrow> string option \<Rightarrow> string option option" where
  "home_of home_env pw_dir =
     (case home_env of
        Some (h # hs) \<Rightarrow> map_option Some (pm_normalize_path_inplace (copy_trunc MAX_PATH (h # hs)))
      | _ \<Rightarrow>
          (case pw_dir of
             Some (h # hs) \<Rightarrow> map_option Some (pm_normalize_path_inplace (copy_trunc MAX_PATH (h # hs)))
           | _ \<Rightarrow> Some None))"

definition pm_build_validated_startup_cwd_plan ::
    "(string \<Rightarrow> string \<Rightarrow> bool) \<Rightarrow> os_view \<Rightarrow> string option \<Rightarrow> string option \<Rightarrow> string option
       \<Rightarrow> pm_mapping_config \<Rightarrow> pm_cwd_plan option" where
  "pm_build_validated_startup_cwd_plan fnm os home_env pw_dir real_cwd config =
     (case real_cwd of
        None \<Rightarrow> Some empty_plan
      | Some real_cwd \<Rightarrow>
          if pm_is_excluded_prefix fnm real_cwd config then Some empty_plan
          else if real_cwd = [] then Some empty_plan
          else do {
            plan \<leftarrow> unchecked_plan fnm real_cwd config;
            (if have_target plan \<and> \<not> pm_real_stat_is_dir os (chdir_target plan) then
               do {
                 home \<leftarrow> home_of home_env pw_dir;
                 (case home of
                    None \<Rightarrow> Some (pm_set_root_fallback plan)
                  | Some home \<Rightarrow>
                      (let mapped_home = deref home (pm_apply_mapping_with_config fnm home MAX_PATH config)
                       in if pm_real_stat_is_dir os mapped_home then target_with_pwd fnm mapped_home config
                          else Some (pm_set_root_fallback plan)))
               }
             else Some plan)
          })"

text \<open>
  The constructor. \<open>readlink_real\<close> is the C library's own \<^verbatim>\<open>readlink\<close>;
  \<open>chdir_ok\<close> tells whether the system call succeeds. The result is the configuration, the
  directory the process changes to and the value it sets \<^verbatim>\<open>PWD\<close> to. The call of
  \<^verbatim>\<open>chdir\<close> is interposed as well, so its argument is rewritten once more.
\<close>

definition startup_move ::
    "(string \<Rightarrow> string \<Rightarrow> bool) \<Rightarrow> os_view \<Rightarrow> (string \<Rightarrow> bool) \<Rightarrow> pm_cwd_plan \<Rightarrow> pm_common_config
       \<Rightarrow> (string option \<times> string option) option" where
  "startup_move fnm os chdir_ok plan config = do {
     r \<leftarrow> pm_fix_path_common fnm os ''chdir'' (Some (chdir_target plan)) MAX_PATH config;
     (let target = deref (chdir_target plan) r
      in Some (if chdir_ok target then (Some target, Some (pwd_value plan)) else (None, None)))
   }"

definition path_mapping_init ::
    "(string \<Rightarrow> string \<Rightarrow> bool) \<Rightarrow> os_view \<Rightarrow> (string \<Rightarrow> nat \<Rightarrow> int \<times> string) \<Rightarrow> (string \<Rightarrow> bool) \<Rightarrow> string option
       \<Rightarrow> (nat \<Rightarrow> bool) \<Rightarrow> (nat \<Rightarrow> bool) \<Rightarrow> (string \<Rightarrow> string option)
       \<Rightarrow> (pm_common_config \<times> string option \<times> string option) option" where
  "path_mapping_init fnm os readlink_real chdir_ok pw_dir alloc_m alloc_x getenv = do {
     g_config \<leftarrow> pm_init_common_config alloc_m alloc_x getenv;
     (let (n, buf) = readlink_real ''/proc/self/cwd'' (MAX_PATH - 1) in
      if 0 < n then do {
        real_cwd \<leftarrow> pm_normalize_path_inplace (take (nat n) buf);
        (if pm_startup_cwd_needs_fix fnm os real_cwd (mapping_config g_config) then do {
           plan \<leftarrow> pm_build_validated_startup_cwd_plan fnm os (getenv ''HOME'') pw_dir (Some real_cwd)
                     (mapping_config g_config);
           (if have_target plan then do {
              moved \<leftarrow> startup_move fnm os chdir_ok plan g_config;
              Some (g_config, moved)
            }
            else Some (g_config, None, None))
         }
         else Some (g_config, None, None))
      }
      else Some (g_config, None, None))
   }"

section \<open>The target is a directory\<close>

lemma empty_plan_no_target [simp]: "\<not> have_target empty_plan"
  by (simp add: empty_plan_def)

lemma target_with_pwd_target:
  "target_with_pwd fnm tgt config = Some plan \<Longrightarrow> chdir_target plan = copy_trunc MAX_PATH tgt \<and> have_target plan"
  by (auto simp: target_with_pwd_def split: Option.bind_splits)

lemma normalize_copy_fits: "pm_normalize_path_inplace (copy_trunc MAX_PATH s) = Some q \<Longrightarrow> length q < MAX_PATH"
  by (rule normalize_copy [of s]) simp

lemma home_of_fits: "home_of home_env pw_dir = Some (Some home) \<Longrightarrow> length home < MAX_PATH"
  by (auto simp: home_of_def split: option.splits list.splits intro: normalize_copy_fits)

lemma mapped_fits: "length p < MAX_PATH \<Longrightarrow> length (deref p (pm_apply_mapping_with_config fnm p MAX_PATH config)) < MAX_PATH"
  by (rule fwd.deref_fits) (simp_all add: MAX_PATH_def)

lemma plan_target_valid:
  assumes "pm_build_validated_startup_cwd_plan fnm os home_env pw_dir real_cwd config = Some plan"
    and "have_target plan"
  shows "chdir_target plan = ''/'' \<or> pm_real_stat_is_dir os (chdir_target plan)"
proof (cases real_cwd)
  case None
  then show ?thesis using assms by (auto simp: pm_build_validated_startup_cwd_plan_def)
next
  case (Some cwd)
  show ?thesis
  proof (cases "pm_is_excluded_prefix fnm cwd config \<or> cwd = []")
    case True
    then show ?thesis
      using assms Some by (auto simp: pm_build_validated_startup_cwd_plan_def split: if_splits)
  next
    case False
    obtain p0 where p0: "unchecked_plan fnm cwd config = Some p0"
      using assms(1) Some False by (auto simp: pm_build_validated_startup_cwd_plan_def split: Option.bind_splits)
    have home: "chdir_target plan = ''/'' \<or> pm_real_stat_is_dir os (chdir_target plan)"
      if h: "home_of home_env pw_dir = Some (Some home)"
        and t: "target_with_pwd fnm (deref home (pm_apply_mapping_with_config fnm home MAX_PATH config)) config = Some plan"
        and d: "pm_real_stat_is_dir os (deref home (pm_apply_mapping_with_config fnm home MAX_PATH config))" for home
      using target_with_pwd_target [OF t] mapped_fits [OF home_of_fits [OF h]] d by simp
    show ?thesis
      using assms Some False p0 home
      by (auto simp: pm_build_validated_startup_cwd_plan_def pm_set_root_fallback_def Let_def
          split: if_splits Option.bind_splits option.splits)
  qed
qed

section \<open>The plan always exists\<close>

definition froms_short :: "pm_mapping_config \<Rightarrow> bool" where
  "froms_short config \<longleftrightarrow> list_all (\<lambda>m. length (map_from m) + MAX_PATH + 1 < SIZE_MOD) (mappings config)"

lemma froms_short_sizes: "froms_short config \<Longrightarrow> length p < MAX_PATH \<Longrightarrow> sizes_ok p (mappings config)"
  by (auto simp: froms_short_def sizes_ok_def list_all_iff)

definition config_plain :: "pm_mapping_config \<Rightarrow> bool" where
  "config_plain config \<longleftrightarrow> plain_tos (mappings config) \<and> froms_short config"

lemma virtualize_total:
  assumes "config_plain config" and "length p < MAX_PATH"
  shows "\<exists>r. pm_virtualize_cwd_string fnm p MAX_PATH config = Some r \<and> (\<forall>v. r = New v \<longrightarrow> length v < MAX_PATH)"
proof -
  obtain r where "pm_apply_reverse_mapping_with_config fnm p MAX_PATH config = Some r"
      "\<forall>v. r = New v \<longrightarrow> length v < MAX_PATH"
    using reverse_plain_total [of config p fnm MAX_PATH] assms froms_short_sizes
    by (auto simp: config_plain_def)
  then show ?thesis by (cases r) (auto simp: pm_virtualize_cwd_string_def)
qed

definition plan_fits :: "pm_cwd_plan \<Rightarrow> bool" where
  "plan_fits plan \<longleftrightarrow> length (chdir_target plan) < MAX_PATH \<and> length (pwd_value plan) < MAX_PATH"

lemma copy_max_fits: "length (copy_trunc MAX_PATH s) < MAX_PATH"
  by (simp add: length_copy_trunc MAX_PATH_def)

lemma root_fallback_fits: "plan_fits (pm_set_root_fallback plan)"
  by (simp add: plan_fits_def pm_set_root_fallback_def MAX_PATH_def)

lemma target_with_pwd_total:
  assumes "config_plain config" and "length p < MAX_PATH"
  shows "\<exists>plan. target_with_pwd fnm p config = Some plan \<and> plan_fits plan"
  using virtualize_total [OF assms, of fnm] copy_max_fits
  by (auto simp: target_with_pwd_def plan_fits_def split: cptr.splits)

lemma unchecked_plan_total:
  assumes "config_plain config" and "length cwd < MAX_PATH"
  shows "\<exists>plan. unchecked_plan fnm cwd config = Some plan \<and> plan_fits plan"
proof -
  obtain r where r: "pm_virtualize_cwd_string fnm cwd MAX_PATH config = Some r"
    using virtualize_total [OF assms] by blast
  have fwd: "length t < MAX_PATH" if "pm_apply_mapping_with_config fnm cwd MAX_PATH config = New t" for t
    using forward_fits [OF that] by (simp add: MAX_PATH_def)
  show ?thesis
  proof (cases r)
    case Same
    with r fwd show ?thesis
      using target_with_pwd_total [OF assms(1) fwd] root_fallback_fits
      by (auto simp: unchecked_plan_def split: cptr.splits)
  next
    case (New v)
    with r show ?thesis
      using copy_max_fits by (auto simp: unchecked_plan_def plan_fits_def split: cptr.splits)
  qed
qed

lemma home_of_total: "\<exists>home. home_of home_env pw_dir = Some home"
proof -
  have "\<exists>q. pm_normalize_path_inplace (copy_trunc MAX_PATH s) = Some q" for s
    by (rule normalize_copy [of s]) blast
  then show ?thesis by (auto simp: home_of_def split: option.splits list.splits)
qed

lemma plan_total:
  assumes "config_plain config" and "\<forall>cwd. real_cwd = Some cwd \<longrightarrow> length cwd < MAX_PATH"
  shows "\<exists>plan. pm_build_validated_startup_cwd_plan fnm os home_env pw_dir real_cwd config = Some plan \<and> plan_fits plan"
proof (cases real_cwd)
  case None
  then show ?thesis
    by (simp add: pm_build_validated_startup_cwd_plan_def plan_fits_def empty_plan_def MAX_PATH_def)
next
  case (Some cwd)
  then obtain p0 where p0: "unchecked_plan fnm cwd config = Some p0" "plan_fits p0"
    using unchecked_plan_total [OF assms(1)] assms(2) by blast
  obtain home where home: "home_of home_env pw_dir = Some home"
    using home_of_total by blast
  have empty: "plan_fits empty_plan"
    by (simp add: plan_fits_def empty_plan_def MAX_PATH_def)
  show ?thesis
  proof (cases home)
    case None
    with Some p0 home empty show ?thesis
      using root_fallback_fits by (auto simp: pm_build_validated_startup_cwd_plan_def)
  next
    case h: (Some hd)
    have "length (deref hd (pm_apply_mapping_with_config fnm hd MAX_PATH config)) < MAX_PATH"
      using mapped_fits home_of_fits home h by blast
    from target_with_pwd_total [OF assms(1) this, of fnm] obtain p1 where
      "target_with_pwd fnm (deref hd (pm_apply_mapping_with_config fnm hd MAX_PATH config)) config = Some p1"
      "plan_fits p1" by blast
    with Some p0 home empty h show ?thesis
      using root_fallback_fits by (auto simp: pm_build_validated_startup_cwd_plan_def Let_def)
  qed
qed

section \<open>Where the fix leads\<close>

text \<open>
  The test that triggers the fix finds a forward mapping to a missing directory. Then the path lies
  under no TO, so it has no virtual name, and the forward target fails the validation: the
  process ends up in its mapped home directory or in \<^verbatim>\<open>/\<close>.
\<close>

lemma not_under_to:
  assumes "prefix_only (mappings config)" and "pm_apply_mapping_with_config fnm p n config = New q"
  shows "pm_virtualize_cwd_string fnm p k config = Some Same"
proof -
  have "\<not> list_ex (\<lambda>m. pm_path_prefix_matches (map_to m) p) (mappings config)"
    using assms(2) by (auto simp: pm_apply_mapping_with_config_def split: if_splits)
  then have "\<not> pm_is_under_any_to_prefix fnm p config"
    using assms(1) by (auto simp: pm_is_under_any_to_prefix_def prefix_only_def list_ex_iff list_all_iff)
  then show ?thesis by (simp add: pm_virtualize_cwd_string_def)
qed

lemma fix_leads_home:
  assumes "prefix_only (mappings config)" and "pm_startup_cwd_needs_fix fnm os cwd config"
    and "pm_build_validated_startup_cwd_plan fnm os home_env pw_dir (Some cwd) config = Some plan"
  shows "chdir_target plan = ''/'' \<and> pwd_value plan = ''/''
    \<or> (\<exists>home. home_of home_env pw_dir = Some (Some home)
         \<and> chdir_target plan = deref home (pm_apply_mapping_with_config fnm home MAX_PATH config)
         \<and> pm_real_stat_is_dir os (chdir_target plan))"
proof -
  obtain fwd where fwd: "pm_apply_mapping_with_config fnm cwd MAX_PATH config = New fwd"
      "\<not> pm_real_stat_is_dir os fwd" and cwd: "cwd \<noteq> []" "\<not> pm_is_excluded_prefix fnm cwd config"
    using assms(2) by (auto simp: pm_startup_cwd_needs_fix_def split: if_splits cptr.splits)
  have len: "length fwd < MAX_PATH" using forward_fits [OF fwd(1)] by (simp add: MAX_PATH_def)
  obtain p0 where p0: "unchecked_plan fnm cwd config = Some p0" "target_with_pwd fnm fwd config = Some p0"
    using assms(3) cwd not_under_to [OF assms(1) fwd(1)] fwd(1)
    by (auto simp: pm_build_validated_startup_cwd_plan_def unchecked_plan_def split: Option.bind_splits)
  have bad: "have_target p0" "\<not> pm_real_stat_is_dir os (chdir_target p0)"
    using target_with_pwd_target [OF p0(2)] fwd(2) len by simp_all
  have home: "chdir_target plan = deref home (pm_apply_mapping_with_config fnm home MAX_PATH config)"
    if h: "home_of home_env pw_dir = Some (Some home)"
      and t: "target_with_pwd fnm (deref home (pm_apply_mapping_with_config fnm home MAX_PATH config)) config = Some plan" for home
    using target_with_pwd_target [OF t] mapped_fits [OF home_of_fits [OF h]] by simp
  show ?thesis
    using assms(3) cwd p0(1) bad home
    by (auto simp: pm_build_validated_startup_cwd_plan_def pm_set_root_fallback_def Let_def
        split: if_splits Option.bind_splits option.splits)
qed

section \<open>Properties\<close>

text \<open>C24: With no glob TO, building the startup plan always returns, its directory and its
  \<^verbatim>\<open>PWD\<close> fit their buffers, and the directory it changes to exists or is the root.\<close>

theorem startup_plan_is_safe:
  assumes "config_plain config" and "length cwd < MAX_PATH"
  shows "\<exists>plan. pm_build_validated_startup_cwd_plan fnm os home_env pw_dir (Some cwd) config = Some plan
     \<and> plan_fits plan
     \<and> (have_target plan \<longrightarrow> chdir_target plan = ''/'' \<or> pm_real_stat_is_dir os (chdir_target plan))"
proof -
  obtain plan where "pm_build_validated_startup_cwd_plan fnm os home_env pw_dir (Some cwd) config = Some plan"
      "plan_fits plan"
    using plan_total [OF assms(1), of "Some cwd"] assms(2) by blast
  then show ?thesis using plan_target_valid by blast
qed

lemma startup_plan_is_safe_witness:
  "\<exists>plan. pm_build_validated_startup_cwd_plan (\<lambda>_ _. False) sample_os (Some ''/home/u'') None (Some ''/usr/x'')
       \<lparr>mappings = [env_mapping (''/usr'', ''/app'')], excludes = []\<rparr> = Some plan
     \<and> plan_fits plan
     \<and> (have_target plan \<longrightarrow> chdir_target plan = ''/'' \<or> pm_real_stat_is_dir sample_os (chdir_target plan))"
  by (rule startup_plan_is_safe)
    (simp_all add: config_plain_def plain_tos_def froms_short_def env_mapping_def is_glob_pattern_def MAX_PATH_def
      SIZE_MOD_def)

text \<open>C25: The startup fix never moves the process to the mapped working directory: when the test that
  triggers it succeeds, the working directory has no virtual name and its forward mapping is missing, so
  the plan is the mapped home directory or the root. The virtual-first part of the planner is dead code
  for prefix mappings.\<close>

theorem startup_fix_leads_home_or_root:
  assumes "prefix_only (mappings config)" and "pm_startup_cwd_needs_fix fnm os cwd config"
    and "pm_build_validated_startup_cwd_plan fnm os home_env pw_dir (Some cwd) config = Some plan"
  shows "chdir_target plan = ''/'' \<and> pwd_value plan = ''/''
    \<or> (\<exists>home. home_of home_env pw_dir = Some (Some home)
         \<and> chdir_target plan = deref home (pm_apply_mapping_with_config fnm home MAX_PATH config)
         \<and> pm_real_stat_is_dir os (chdir_target plan))"
  using assms by (rule fix_leads_home)

lemma startup_fix_leads_home_or_root_witness:
  "\<exists>plan. pm_build_validated_startup_cwd_plan (\<lambda>_ _. False) sample_os (Some ''/home/u'') None (Some ''/usr/x'')
       \<lparr>mappings = [env_mapping (''/usr'', ''/app'')], excludes = []\<rparr> = Some plan
     \<and> (chdir_target plan = ''/'' \<and> pwd_value plan = ''/''
       \<or> (\<exists>home. home_of (Some ''/home/u'') None = Some (Some home)
            \<and> chdir_target plan = deref home (pm_apply_mapping_with_config (\<lambda>_ _. False) home MAX_PATH
                \<lparr>mappings = [env_mapping (''/usr'', ''/app'')], excludes = []\<rparr>)
            \<and> pm_real_stat_is_dir sample_os (chdir_target plan)))"
proof -
  let ?c = "\<lparr>mappings = [env_mapping (''/usr'', ''/app'')], excludes = []\<rparr>"
  have "config_plain ?c"
    by (simp add: config_plain_def plain_tos_def froms_short_def env_mapping_def is_glob_pattern_def MAX_PATH_def
        SIZE_MOD_def)
  then obtain plan where plan:
      "pm_build_validated_startup_cwd_plan (\<lambda>_ _. False) sample_os (Some ''/home/u'') None (Some ''/usr/x'') ?c
        = Some plan"
    using plan_total [of ?c "Some ''/usr/x''" "\<lambda>_ _. False" sample_os "Some ''/home/u''" None]
    by (auto simp: MAX_PATH_def)
  have "prefix_only (mappings ?c)" by code_simp
  moreover have "pm_startup_cwd_needs_fix (\<lambda>_ _. False) sample_os ''/usr/x'' ?c" by code_simp
  ultimately show ?thesis using startup_fix_leads_home_or_root [OF _ _ plan] plan by blast
qed

end
