(* ===== verification/Overrides.thy ===== *)
theory Overrides
  imports Cwd "HOL-Library.Word"
begin

unbundle bit_operations_syntax

text \<open>
  The interposed functions of \<^verbatim>\<open>src/lib/path-mapping.c\<close> that take paths and return
  what the C library returns. A wrapper is modelled by the call it makes to the next library: its
  name and its arguments, an integer of the interface as a 32-bit word, anything else (pointers,
  sizes, device numbers) as an opaque number that is passed through. The result is an option because
  the rewriting is. Names that start with two underscores are written \<open>fortify_\<close>.
\<close>

section \<open>Calls\<close>

datatype arg = PathArg "string option" | IntArg "32 word" | ArgvArg "string list option" | OpaqueArg nat

record lib_call =
  callee :: string
  call_args :: "arg list"

definition libc :: "string \<Rightarrow> arg list \<Rightarrow> lib_call" where
  "libc name args = \<lparr>callee = name, call_args = args\<rparr>"

text \<open>The state of the preload library: \<^verbatim>\<open>g_config\<close>, and the system it calls.\<close>

record lib_state =
  st_fnmatch :: "string \<Rightarrow> string \<Rightarrow> bool"
  st_os :: os_view
  g_config :: pm_common_config

definition AT_FDCWD :: "32 word" where "AT_FDCWD = - 100"
definition O_CREAT :: "32 word" where "O_CREAT = 0x40"
definition AT_EMPTY_PATH :: "32 word" where "AT_EMPTY_PATH = 0x1000"

section \<open>The helpers\<close>

definition fix_path :: "lib_state \<Rightarrow> string \<Rightarrow> string option \<Rightarrow> nat \<Rightarrow> cptr option" where
  "fix_path st function_name path new_path_size =
     pm_fix_path_common (st_fnmatch st) (st_os st) function_name path new_path_size (g_config st)"

definition reverse_fix_path :: "lib_state \<Rightarrow> string option \<Rightarrow> nat \<Rightarrow> cptr option" where
  "reverse_fix_path st path new_path_size =
     (case path of
        None \<Rightarrow> Some Same
      | Some path \<Rightarrow>
          if \<not> reverse_enabled (g_config st) then Some Same
          else if \<not> pm_is_under_any_to_prefix (st_fnmatch st) path (mapping_config (g_config st)) then Some Same
          else do {
            mapped \<leftarrow> pm_apply_reverse_mapping_with_config (st_fnmatch st) path new_path_size
                        (mapping_config (g_config st));
            Some (case mapped of
                    Same \<Rightarrow> Same
                  | New v \<Rightarrow>
                      if pm_is_excluded_prefix (st_fnmatch st) v (mapping_config (g_config st)) then Same
                      else New v)
          })"

text \<open>\<^verbatim>\<open>%d\<close> of \<^verbatim>\<open>snprintf\<close>.\<close>

fun show_nat :: "nat \<Rightarrow> string" where
  "show_nat n = (if n < 10 then [char_of (48 + n)] else show_nat (n div 10) @ [char_of (48 + n mod 10)])"

declare show_nat.simps [simp del]

definition show_int :: "32 word \<Rightarrow> string" where
  "show_int w = (if sint w < 0 then CHR ''-'' # show_nat (nat (- sint w)) else show_nat (nat (sint w)))"

definition absolute_from_dirfd :: "lib_state \<Rightarrow> 32 word \<Rightarrow> string option \<Rightarrow> nat \<Rightarrow> cptr option" where
  "absolute_from_dirfd st dirfd path buffer_size =
     (case path of
        None \<Rightarrow> Some Same
      | Some path \<Rightarrow>
          if is_absolute path then Some Same
          else do {
            (n, b) \<leftarrow> (if dirfd = AT_FDCWD then os_readlink (st_os st) ''/proc/self/cwd'' (MAX_PATH - 1)
                       else os_readlink (st_os st) (''/proc/self/fd/'' @ show_int dirfd) (MAX_PATH - 1));
            if n \<le> 0 then Some Same
            else
              (let base = take (nat n) b;
                   need = length base + 1 + length path + 1
               in if buffer_size < need then Some Same
                  else Some (New (base @ (if base = [] \<or> last base \<noteq> slash then [slash] else []) @ path)))
          })"

text \<open>
  The argument a wrapper passes on: \<^verbatim>\<open>fix_path(name, path, buffer, sizeof buffer)\<close>, and
  the same after \<^verbatim>\<open>absolute_from_dirfd\<close>.
\<close>

definition deref_opt :: "string option \<Rightarrow> cptr \<Rightarrow> string option" where
  "deref_opt path r = (case r of New s \<Rightarrow> Some s | Same \<Rightarrow> path)"

definition fixed :: "lib_state \<Rightarrow> string \<Rightarrow> string option \<Rightarrow> string option option" where
  "fixed st name path = map_option (deref_opt path) (fix_path st name path MAX_PATH)"

definition at_fixed :: "lib_state \<Rightarrow> string \<Rightarrow> 32 word \<Rightarrow> string option \<Rightarrow> string option option" where
  "at_fixed st name dirfd path = do {
     abs \<leftarrow> absolute_from_dirfd st dirfd path MAX_PATH;
     fixed st name (deref_opt path abs)
   }"

section \<open>The generated wrappers\<close>

text \<open>
  The body that the \<^verbatim>\<open>OVERRIDE_FUNCTION\<close> macros generate. \<open>mode\<close> is the
  variable argument, which is read when \<open>has_varargs\<close> and \<open>flags\<close> has
  \<^verbatim>\<open>O_CREAT\<close>.
\<close>

definition override_function_mode_generic ::
    "lib_state \<Rightarrow> bool \<Rightarrow> nat \<Rightarrow> string \<Rightarrow> arg list \<Rightarrow> 32 word \<Rightarrow> 32 word \<Rightarrow> lib_call option" where
  "override_function_mode_generic st has_varargs path_arg_pos funcname args flags mode =
     (case args ! (path_arg_pos - 1) of
        PathArg path \<Rightarrow> do {
          new_path \<leftarrow> fixed st funcname path;
          (let args = args[path_arg_pos - 1 := PathArg new_path]
           in if has_varargs \<and> flags AND O_CREAT \<noteq> 0 then Some (libc funcname (args @ [IntArg mode]))
              else Some (libc funcname args))
        }
      | _ \<Rightarrow> None)"

text \<open>The instances: name, number of arguments, position of the path, variable mode argument.\<close>

type_synonym override = "string \<times> nat \<times> nat \<times> bool"

definition open_overrides :: "override list" where
  "open_overrides = [(''open'', 2, 1, True),
     (''open64'', 2, 1, True)]"

definition fopen_overrides :: "override list" where
  "fopen_overrides = [(''fopen'', 2, 1, False),
     (''fopen64'', 2, 1, False),
     (''freopen'', 3, 1, False)]"

definition stat_overrides :: "override list" where
  "stat_overrides = [(''stat'', 2, 1, False),
     (''lstat'', 2, 1, False),
     (''__xstat'', 3, 2, False),
     (''__lxstat'', 3, 2, False),
     (''__xstat64'', 3, 2, False),
     (''__lxstat64'', 3, 2, False)]"

definition statfs_overrides :: "override list" where
  "statfs_overrides = [(''statfs'', 2, 1, False),
     (''statvfs'', 2, 1, False),
     (''statfs64'', 2, 1, False),
     (''statvfs64'', 2, 1, False)]"

definition access_overrides :: "override list" where
  "access_overrides = [(''access'', 2, 1, False)]"

definition xattr_overrides :: "override list" where
  "xattr_overrides = [(''getxattr'', 4, 1, False),
     (''lgetxattr'', 4, 1, False),
     (''setxattr'', 5, 1, False),
     (''lsetxattr'', 5, 1, False),
     (''removexattr'', 2, 1, False),
     (''lremovexattr'', 2, 1, False),
     (''listxattr'', 3, 1, False),
     (''llistxattr'', 3, 1, False)]"

definition dir_overrides :: "override list" where
  "dir_overrides = [(''opendir'', 1, 1, False),
     (''mkdir'', 2, 1, False)]"

definition ftw_overrides :: "override list" where
  "ftw_overrides = [(''ftw'', 3, 1, False),
     (''nftw'', 4, 1, False),
     (''ftw64'', 3, 1, False),
     (''nftw64'', 4, 1, False)]"

definition pathconf_overrides :: "override list" where
  "pathconf_overrides = [(''pathconf'', 2, 1, False)]"

definition mkfifo_overrides :: "override list" where
  "mkfifo_overrides = [(''mkfifo'', 2, 1, False),
     (''mkstemp'', 1, 1, False),
     (''mkostemp'', 2, 1, False),
     (''mkstemps'', 2, 1, False),
     (''mkostemps'', 3, 1, False),
     (''mkdtemp'', 1, 1, False),
     (''mknod'', 3, 1, False)]"

definition truncate_overrides :: "override list" where
  "truncate_overrides = [(''truncate'', 2, 1, False),
     (''truncate64'', 2, 1, False)]"

definition utime_overrides :: "override list" where
  "utime_overrides = [(''utime'', 2, 1, False),
     (''utimes'', 2, 1, False),
     (''lutime'', 2, 1, False)]"

definition chmod_overrides :: "override list" where
  "chmod_overrides = [(''chmod'', 2, 1, False)]"

definition chown_overrides :: "override list" where
  "chown_overrides = [(''chown'', 3, 1, False),
     (''lchown'', 3, 1, False)]"

definition unlink_overrides :: "override list" where
  "unlink_overrides = [(''unlink'', 1, 1, False)]"

definition rmdir_overrides :: "override list" where
  "rmdir_overrides = [(''rmdir'', 1, 1, False),
     (''remove'', 1, 1, False)]"

definition execv_overrides :: "override list" where
  "execv_overrides = [(''execv'', 2, 1, False)]"

definition execvpe_overrides :: "override list" where
  "execvpe_overrides = [(''execvpe'', 3, 1, False)]"

definition creat_overrides :: "override list" where
  "creat_overrides = [(''creat'', 2, 1, False),
     (''stat64'', 2, 1, False),
     (''lstat64'', 2, 1, False)]"

definition mount_overrides :: "override list" where
  "mount_overrides = [(''setmntent'', 2, 1, False),
     (''umount2'', 2, 1, False)]"

definition glob_overrides :: "override list" where
  "glob_overrides = [(''glob'', 4, 1, False),
     (''glob64'', 4, 1, False)]"

definition creat64_overrides :: "override list" where
  "creat64_overrides = [(''creat64'', 2, 1, False)]"

definition acct_overrides :: "override list" where
  "acct_overrides = [(''acct'', 1, 1, False)]"

definition override_table :: "override list" where
  "override_table = concat [open_overrides,
     fopen_overrides,
     stat_overrides,
     statfs_overrides,
     access_overrides,
     xattr_overrides,
     dir_overrides,
     ftw_overrides,
     pathconf_overrides,
     mkfifo_overrides,
     truncate_overrides,
     utime_overrides,
     chmod_overrides,
     chown_overrides,
     unlink_overrides,
     rmdir_overrides,
     execv_overrides,
     execvpe_overrides,
     creat_overrides,
     mount_overrides,
     glob_overrides,
     creat64_overrides,
     acct_overrides]"

section \<open>Wrappers with a directory descriptor\<close>

definition mode_arg :: "32 word \<Rightarrow> 32 word \<Rightarrow> arg list" where
  "mode_arg flags mode = (if flags AND O_CREAT \<noteq> 0 then [IntArg mode] else [])"

definition openat ::
    "lib_state \<Rightarrow> 32 word \<Rightarrow> string option \<Rightarrow> 32 word \<Rightarrow> 32 word \<Rightarrow> lib_call option" where
  "openat st dirfd pathname flags mode = do {
     new_path \<leftarrow> at_fixed st ''openat'' dirfd pathname;
     Some (libc ''openat'' ([IntArg dirfd, PathArg new_path, IntArg flags] @ mode_arg flags mode))
   }"

definition openat64 ::
    "lib_state \<Rightarrow> 32 word \<Rightarrow> string option \<Rightarrow> 32 word \<Rightarrow> 32 word \<Rightarrow> lib_call option" where
  "openat64 st dirfd pathname flags mode = do {
     new_path \<leftarrow> at_fixed st ''openat64'' dirfd pathname;
     Some (libc ''openat64'' ([IntArg dirfd, PathArg new_path, IntArg flags] @ mode_arg flags mode))
   }"

definition fortify_openat_2 ::
    "lib_state \<Rightarrow> 32 word \<Rightarrow> string option \<Rightarrow> 32 word \<Rightarrow> lib_call option" where
  "fortify_openat_2 st dirfd pathname flags = do {
     new_path \<leftarrow> at_fixed st ''__openat_2'' dirfd pathname;
     Some (libc ''__openat_2'' [IntArg dirfd, PathArg new_path, IntArg flags])
   }"

definition fortify_openat64_2 ::
    "lib_state \<Rightarrow> 32 word \<Rightarrow> string option \<Rightarrow> 32 word \<Rightarrow> lib_call option" where
  "fortify_openat64_2 st dirfd pathname flags = do {
     new_path \<leftarrow> at_fixed st ''__openat64_2'' dirfd pathname;
     Some (libc ''__openat64_2'' [IntArg dirfd, PathArg new_path, IntArg flags])
   }"

definition openat2 ::
    "lib_state \<Rightarrow> 32 word \<Rightarrow> string option \<Rightarrow> nat \<Rightarrow> nat \<Rightarrow> lib_call option" where
  "openat2 st dirfd pathname how sz = do {
     new_path \<leftarrow> at_fixed st ''openat2'' dirfd pathname;
     Some (libc ''openat2'' [IntArg dirfd, PathArg new_path, OpaqueArg how, OpaqueArg sz])
   }"

definition fstatat ::
    "lib_state \<Rightarrow> 32 word \<Rightarrow> string option \<Rightarrow> nat \<Rightarrow> 32 word \<Rightarrow> lib_call option" where
  "fstatat st dirfd pathname statbuf flags = do {
     new_path \<leftarrow> at_fixed st ''fstatat'' dirfd pathname;
     Some (libc ''fstatat'' [IntArg dirfd, PathArg new_path, OpaqueArg statbuf, IntArg flags])
   }"

definition fstatat64 ::
    "lib_state \<Rightarrow> 32 word \<Rightarrow> string option \<Rightarrow> nat \<Rightarrow> 32 word \<Rightarrow> lib_call option" where
  "fstatat64 st dirfd pathname statbuf flags = do {
     new_path \<leftarrow> at_fixed st ''fstatat64'' dirfd pathname;
     Some (libc ''fstatat64'' [IntArg dirfd, PathArg new_path, OpaqueArg statbuf, IntArg flags])
   }"

definition fortify_fxstatat ::
    "lib_state \<Rightarrow> 32 word \<Rightarrow> 32 word \<Rightarrow> string option \<Rightarrow> nat \<Rightarrow> 32 word \<Rightarrow> lib_call option" where
  "fortify_fxstatat st ver dirfd pathname statbuf flags = do {
     new_path \<leftarrow> at_fixed st ''__fxstatat'' dirfd pathname;
     Some (libc ''__fxstatat'' [IntArg ver, IntArg dirfd, PathArg new_path, OpaqueArg statbuf, IntArg flags])
   }"

definition fortify_fxstatat64 ::
    "lib_state \<Rightarrow> 32 word \<Rightarrow> 32 word \<Rightarrow> string option \<Rightarrow> nat \<Rightarrow> 32 word \<Rightarrow> lib_call option" where
  "fortify_fxstatat64 st ver dirfd pathname statbuf flags = do {
     new_path \<leftarrow> at_fixed st ''__fxstatat64'' dirfd pathname;
     Some (libc ''__fxstatat64'' [IntArg ver, IntArg dirfd, PathArg new_path, OpaqueArg statbuf, IntArg flags])
   }"

definition fortify_fxstatat_2 ::
    "lib_state \<Rightarrow> 32 word \<Rightarrow> 32 word \<Rightarrow> string option \<Rightarrow> nat \<Rightarrow> 32 word \<Rightarrow> lib_call option" where
  "fortify_fxstatat_2 st ver dirfd pathname statbuf flags = do {
     new_path \<leftarrow> at_fixed st ''__fxstatat_2'' dirfd pathname;
     Some (libc ''__fxstatat_2'' [IntArg ver, IntArg dirfd, PathArg new_path, OpaqueArg statbuf, IntArg flags])
   }"

definition fortify_fxstatat64_2 ::
    "lib_state \<Rightarrow> 32 word \<Rightarrow> 32 word \<Rightarrow> string option \<Rightarrow> nat \<Rightarrow> 32 word \<Rightarrow> lib_call option" where
  "fortify_fxstatat64_2 st ver dirfd pathname statbuf flags = do {
     new_path \<leftarrow> at_fixed st ''__fxstatat64_2'' dirfd pathname;
     Some (libc ''__fxstatat64_2'' [IntArg ver, IntArg dirfd, PathArg new_path, OpaqueArg statbuf, IntArg flags])
   }"

definition faccessat ::
    "lib_state \<Rightarrow> 32 word \<Rightarrow> string option \<Rightarrow> 32 word \<Rightarrow> 32 word \<Rightarrow> lib_call option" where
  "faccessat st dirfd pathname mode flags = do {
     new_path \<leftarrow> at_fixed st ''faccessat'' dirfd pathname;
     Some (libc ''faccessat'' [IntArg dirfd, PathArg new_path, IntArg mode, IntArg flags])
   }"

definition mkdirat ::
    "lib_state \<Rightarrow> 32 word \<Rightarrow> string option \<Rightarrow> 32 word \<Rightarrow> lib_call option" where
  "mkdirat st dirfd pathname mode = do {
     new_path \<leftarrow> at_fixed st ''mkdirat'' dirfd pathname;
     Some (libc ''mkdirat'' [IntArg dirfd, PathArg new_path, IntArg mode])
   }"

definition mkfifoat ::
    "lib_state \<Rightarrow> 32 word \<Rightarrow> string option \<Rightarrow> 32 word \<Rightarrow> lib_call option" where
  "mkfifoat st dirfd pathname mode = do {
     new_path \<leftarrow> at_fixed st ''mkfifoat'' dirfd pathname;
     Some (libc ''mkfifoat'' [IntArg dirfd, PathArg new_path, IntArg mode])
   }"

definition mknodat ::
    "lib_state \<Rightarrow> 32 word \<Rightarrow> string option \<Rightarrow> 32 word \<Rightarrow> nat \<Rightarrow> lib_call option" where
  "mknodat st dirfd pathname mode dev = do {
     new_path \<leftarrow> at_fixed st ''mknodat'' dirfd pathname;
     Some (libc ''mknodat'' [IntArg dirfd, PathArg new_path, IntArg mode, OpaqueArg dev])
   }"

definition utimensat ::
    "lib_state \<Rightarrow> 32 word \<Rightarrow> string option \<Rightarrow> nat \<Rightarrow> 32 word \<Rightarrow> lib_call option" where
  "utimensat st dirfd pathname tms flags = do {
     new_path \<leftarrow> at_fixed st ''utimensat'' dirfd pathname;
     Some (libc ''utimensat'' [IntArg dirfd, PathArg new_path, OpaqueArg tms, IntArg flags])
   }"

definition futimesat ::
    "lib_state \<Rightarrow> 32 word \<Rightarrow> string option \<Rightarrow> nat \<Rightarrow> lib_call option" where
  "futimesat st dirfd pathname tms = do {
     new_path \<leftarrow> at_fixed st ''futimesat'' dirfd pathname;
     Some (libc ''futimesat'' [IntArg dirfd, PathArg new_path, OpaqueArg tms])
   }"

definition fchmodat ::
    "lib_state \<Rightarrow> 32 word \<Rightarrow> string option \<Rightarrow> 32 word \<Rightarrow> 32 word \<Rightarrow> lib_call option" where
  "fchmodat st dirfd pathname mode flags = do {
     new_path \<leftarrow> at_fixed st ''fchmodat'' dirfd pathname;
     Some (libc ''fchmodat'' [IntArg dirfd, PathArg new_path, IntArg mode, IntArg flags])
   }"

definition fchownat ::
    "lib_state \<Rightarrow> 32 word \<Rightarrow> string option \<Rightarrow> 32 word \<Rightarrow> 32 word \<Rightarrow> 32 word \<Rightarrow> lib_call option" where
  "fchownat st dirfd pathname owner grp flags = do {
     new_path \<leftarrow> at_fixed st ''fchownat'' dirfd pathname;
     Some (libc ''fchownat'' [IntArg dirfd, PathArg new_path, IntArg owner, IntArg grp, IntArg flags])
   }"

definition unlinkat ::
    "lib_state \<Rightarrow> 32 word \<Rightarrow> string option \<Rightarrow> 32 word \<Rightarrow> lib_call option" where
  "unlinkat st dirfd pathname flags = do {
     new_path \<leftarrow> at_fixed st ''unlinkat'' dirfd pathname;
     Some (libc ''unlinkat'' [IntArg dirfd, PathArg new_path, IntArg flags])
   }"

definition name_to_handle_at ::
    "lib_state \<Rightarrow> 32 word \<Rightarrow> string option \<Rightarrow> nat \<Rightarrow> nat \<Rightarrow> 32 word \<Rightarrow> lib_call option" where
  "name_to_handle_at st dirfd pathname handle mount_id flags = do {
     new_path \<leftarrow> at_fixed st ''name_to_handle_at'' dirfd pathname;
     Some (libc ''name_to_handle_at'' [IntArg dirfd, PathArg new_path, OpaqueArg handle, OpaqueArg mount_id, IntArg flags])
   }"

definition open_tree ::
    "lib_state \<Rightarrow> 32 word \<Rightarrow> string option \<Rightarrow> 32 word \<Rightarrow> lib_call option" where
  "open_tree st dfd filename flags = do {
     new_path \<leftarrow> at_fixed st ''open_tree'' dfd filename;
     Some (libc ''open_tree'' [IntArg dfd, PathArg new_path, IntArg flags])
   }"

definition mount_setattr ::
    "lib_state \<Rightarrow> 32 word \<Rightarrow> string option \<Rightarrow> 32 word \<Rightarrow> nat \<Rightarrow> nat \<Rightarrow> lib_call option" where
  "mount_setattr st dfd path flags attr sz = do {
     new_path \<leftarrow> at_fixed st ''mount_setattr'' dfd path;
     Some (libc ''mount_setattr'' [IntArg dfd, PathArg new_path, IntArg flags, OpaqueArg attr, OpaqueArg sz])
   }"

definition statmount ::
    "lib_state \<Rightarrow> 32 word \<Rightarrow> string option \<Rightarrow> nat \<Rightarrow> nat \<Rightarrow> 32 word \<Rightarrow> lib_call option" where
  "statmount st dirfd pathname buf bufsize flags = do {
     new_path \<leftarrow> at_fixed st ''statmount'' dirfd pathname;
     Some (libc ''statmount'' [IntArg dirfd, PathArg new_path, OpaqueArg buf, OpaqueArg bufsize, IntArg flags])
   }"

text \<open>\<^verbatim>\<open>statx\<close> leaves the path alone under \<^verbatim>\<open>AT_EMPTY_PATH\<close>.\<close>

definition statx ::
    "lib_state \<Rightarrow> 32 word \<Rightarrow> string option \<Rightarrow> 32 word \<Rightarrow> 32 word \<Rightarrow> nat \<Rightarrow> lib_call option" where
  "statx st dirfd pathname flags msk statxbuf =
     (if flags AND AT_EMPTY_PATH \<noteq> 0 then
        Some (libc ''statx'' [IntArg dirfd, PathArg pathname, IntArg flags, IntArg msk, OpaqueArg statxbuf])
      else do {
        new_path \<leftarrow> at_fixed st ''statx'' dirfd pathname;
        Some (libc ''statx'' [IntArg dirfd, PathArg new_path, IntArg flags, IntArg msk, OpaqueArg statxbuf])
      })"

section \<open>Wrappers with one path\<close>

definition fortify_fopen_chk :: "lib_state \<Rightarrow> string option \<Rightarrow> nat \<Rightarrow> 32 word \<Rightarrow> lib_call option" where
  "fortify_fopen_chk st filename mode flags = do {
     new_path \<leftarrow> fixed st ''__fopen_chk'' filename;
     Some (libc ''__fopen_chk'' [PathArg new_path, OpaqueArg mode, IntArg flags])
   }"

definition fortify_fopen64_chk :: "lib_state \<Rightarrow> string option \<Rightarrow> nat \<Rightarrow> 32 word \<Rightarrow> lib_call option" where
  "fortify_fopen64_chk st filename mode flags = do {
     new_path \<leftarrow> fixed st ''__fopen64_chk'' filename;
     Some (libc ''__fopen64_chk'' [PathArg new_path, OpaqueArg mode, IntArg flags])
   }"

definition chdir :: "lib_state \<Rightarrow> string option \<Rightarrow> lib_call option" where
  "chdir st path = do {
     new_path \<leftarrow> fixed st ''chdir'' path;
     Some (libc ''SYS_chdir'' [PathArg new_path])
   }"

definition chroot :: "lib_state \<Rightarrow> string option \<Rightarrow> lib_call option" where
  "chroot st path = do {
     new_path \<leftarrow> fixed st ''chroot'' path;
     Some (libc ''SYS_chroot'' [PathArg new_path])
   }"

definition inotify_add_watch :: "lib_state \<Rightarrow> 32 word \<Rightarrow> string option \<Rightarrow> 32 word \<Rightarrow> lib_call option" where
  "inotify_add_watch st fd pathname msk = do {
     new_path \<leftarrow> fixed st ''inotify_add_watch'' pathname;
     Some (libc ''inotify_add_watch'' [IntArg fd, PathArg new_path, IntArg msk])
   }"

definition fanotify_mark :: "lib_state \<Rightarrow> 32 word \<Rightarrow> 32 word \<Rightarrow> nat \<Rightarrow> 32 word \<Rightarrow> string option \<Rightarrow> lib_call option" where
  "fanotify_mark st fanotify_fd flags msk dirfd pathname = do {
     new_path \<leftarrow> fixed st ''fanotify_mark'' pathname;
     Some (libc ''fanotify_mark'' [IntArg fanotify_fd, IntArg flags, OpaqueArg msk, IntArg dirfd, PathArg new_path])
   }"

definition open_by_handle_at :: "32 word \<Rightarrow> nat \<Rightarrow> 32 word \<Rightarrow> lib_call" where
  "open_by_handle_at mount_fd handle flags =
     libc ''open_by_handle_at'' [IntArg mount_fd, OpaqueArg handle, IntArg flags]"

definition dlopen :: "lib_state \<Rightarrow> string option \<Rightarrow> 32 word \<Rightarrow> lib_call option" where
  "dlopen st filename flag =
     (if filename = None \<or> strchr (the filename) slash = None
      then Some (libc ''dlopen'' [PathArg filename, IntArg flag])
      else do {
        new_path \<leftarrow> fixed st ''dlopen'' filename;
        Some (libc ''dlopen'' [PathArg new_path, IntArg flag])
      })"

definition dlmopen :: "lib_state \<Rightarrow> nat \<Rightarrow> string option \<Rightarrow> 32 word \<Rightarrow> lib_call option" where
  "dlmopen st lmid filename flag =
     (if filename = None \<or> strchr (the filename) slash = None
      then Some (libc ''dlmopen'' [OpaqueArg lmid, PathArg filename, IntArg flag])
      else do {
        new_path \<leftarrow> fixed st ''dlmopen'' filename;
        Some (libc ''dlmopen'' [OpaqueArg lmid, PathArg new_path, IntArg flag])
      })"

section \<open>Wrappers with two paths\<close>

definition rename ::
    "lib_state \<Rightarrow> string option \<Rightarrow> string option \<Rightarrow> lib_call option" where
  "rename st oldpath newpath = do {
     new_oldpath \<leftarrow> fixed st ''rename-old'' oldpath;
     new_newpath \<leftarrow> fixed st ''rename-new'' newpath;
     Some (libc ''rename'' [PathArg new_oldpath, PathArg new_newpath])
   }"

definition link ::
    "lib_state \<Rightarrow> string option \<Rightarrow> string option \<Rightarrow> lib_call option" where
  "link st oldpath newpath = do {
     new_oldpath \<leftarrow> fixed st ''link-old'' oldpath;
     new_newpath \<leftarrow> fixed st ''link-new'' newpath;
     Some (libc ''link'' [PathArg new_oldpath, PathArg new_newpath])
   }"

definition renameat ::
    "lib_state \<Rightarrow> 32 word \<Rightarrow> string option \<Rightarrow> 32 word \<Rightarrow> string option \<Rightarrow> lib_call option" where
  "renameat st olddirfd oldpath newdirfd newpath = do {
     new_oldpath \<leftarrow> at_fixed st ''renameat-old'' olddirfd oldpath;
     new_newpath \<leftarrow> at_fixed st ''renameat-new'' newdirfd newpath;
     Some (libc ''renameat'' [IntArg olddirfd, PathArg new_oldpath, IntArg newdirfd, PathArg new_newpath])
   }"

definition renameat2 ::
    "lib_state \<Rightarrow> 32 word \<Rightarrow> string option \<Rightarrow> 32 word \<Rightarrow> string option \<Rightarrow> 32 word \<Rightarrow> lib_call option" where
  "renameat2 st olddirfd oldpath newdirfd newpath flags = do {
     new_oldpath \<leftarrow> at_fixed st ''renameat2-old'' olddirfd oldpath;
     new_newpath \<leftarrow> at_fixed st ''renameat2-new'' newdirfd newpath;
     Some (libc ''renameat2'' [IntArg olddirfd, PathArg new_oldpath, IntArg newdirfd, PathArg new_newpath, IntArg flags])
   }"

definition linkat ::
    "lib_state \<Rightarrow> 32 word \<Rightarrow> string option \<Rightarrow> 32 word \<Rightarrow> string option \<Rightarrow> 32 word \<Rightarrow> lib_call option" where
  "linkat st olddirfd oldpath newdirfd newpath flags = do {
     new_oldpath \<leftarrow> at_fixed st ''linkat-old'' olddirfd oldpath;
     new_newpath \<leftarrow> at_fixed st ''linkat-new'' newdirfd newpath;
     Some (libc ''linkat'' [IntArg olddirfd, PathArg new_oldpath, IntArg newdirfd, PathArg new_newpath, IntArg flags])
   }"

definition move_mount ::
    "lib_state \<Rightarrow> 32 word \<Rightarrow> string option \<Rightarrow> 32 word \<Rightarrow> string option \<Rightarrow> 32 word \<Rightarrow> lib_call option" where
  "move_mount st from_dfd from_pathname to_dfd to_pathname flags = do {
     new_from \<leftarrow> at_fixed st ''move_mount-from'' from_dfd from_pathname;
     new_to \<leftarrow> at_fixed st ''move_mount-to'' to_dfd to_pathname;
     Some (libc ''move_mount''
       [IntArg from_dfd, PathArg new_from, IntArg to_dfd, PathArg new_to, IntArg flags])
   }"

definition pivot_root :: "lib_state \<Rightarrow> string option \<Rightarrow> string option \<Rightarrow> lib_call option" where
  "pivot_root st new_root put_old = do {
     mapped_new \<leftarrow> fixed st ''pivot_root-new'' new_root;
     mapped_old \<leftarrow> fixed st ''pivot_root-old'' put_old;
     Some (libc ''pivot_root'' [PathArg mapped_new, PathArg mapped_old])
   }"

text \<open>
  The target of a symbolic link is mapped by the tables alone: it is not made absolute, not
  normalized, and the exclusions are not consulted.
\<close>

definition link_target :: "lib_state \<Rightarrow> string \<Rightarrow> string" where
  "link_target st target =
     deref target (pm_apply_mapping_with_config (st_fnmatch st) target MAX_PATH (mapping_config (g_config st)))"

definition symlink :: "lib_state \<Rightarrow> string \<Rightarrow> string option \<Rightarrow> lib_call option" where
  "symlink st target linkpath = do {
     new_link \<leftarrow> fixed st ''symlink-link'' linkpath;
     Some (libc ''symlink'' [PathArg (Some (link_target st target)), PathArg new_link])
   }"

definition symlinkat :: "lib_state \<Rightarrow> string \<Rightarrow> 32 word \<Rightarrow> string option \<Rightarrow> lib_call option" where
  "symlinkat st target newdirfd linkpath = do {
     new_link \<leftarrow> at_fixed st ''symlinkat-link'' newdirfd linkpath;
     Some (libc ''symlinkat'' [PathArg (Some (link_target st target)), IntArg newdirfd, PathArg new_link])
   }"

text \<open>
  \<^verbatim>\<open>fts_open\<close>: \<open>alloc\<close> gives the outcome of each \<^verbatim>\<open>malloc\<close> in
  order (the two arrays, then a buffer for each path). The result is the call, \<^term>\<open>None\<close> inside for
  the return of NULL, with the numbers of the allocations that are freed again.
\<close>

fun fts_paths :: "lib_state \<Rightarrow> (nat \<Rightarrow> bool) \<Rightarrow> nat \<Rightarrow> string list \<Rightarrow> (string list option \<times> nat list) option" where
  "fts_paths st alloc k [] = Some (Some [], [])"
| "fts_paths st alloc k (p # ps) =
     (if \<not> alloc k then Some (None, [])
      else do {
        new_path \<leftarrow> fixed st ''fts_open'' (Some p);
        (rest, freed) \<leftarrow> fts_paths st alloc (Suc k) ps;
        Some (case (new_path, rest) of (Some q, Some qs) \<Rightarrow> Some (q # qs) | _ \<Rightarrow> None, k # freed)
      })"

definition fts_open ::
    "lib_state \<Rightarrow> (nat \<Rightarrow> bool) \<Rightarrow> string list \<Rightarrow> 32 word \<Rightarrow> nat \<Rightarrow> (lib_call option \<times> nat list) option" where
  "fts_open st alloc path_argv options compare =
     (if path_argv = [] then Some (None, [])
      else if \<not> alloc 0 then Some (None, [])
      else if \<not> alloc 1 then Some (None, [0])
      else do {
        (new_paths, freed) \<leftarrow> fts_paths st alloc 2 path_argv;
        Some (map_option (\<lambda>qs. libc ''fts_open'' [ArgvArg (Some qs), IntArg options, OpaqueArg compare]) new_paths,
              freed @ [1, 0])
      })"

end
