(* ===== verification/OverridesSpec.thy ===== *)
theory OverridesSpec
  imports Overrides
begin

text \<open>
  What the interposed path functions promise: the generated wrappers change the path argument and
  nothing else, the wrappers with a directory descriptor look up the path below the directory of the
  descriptor, and every path they hand to the C library fits its buffer.
\<close>

section \<open>Bounds\<close>

lemma fixed_total:
  assumes "os_ok (st_os st)"
  shows "\<exists>q. fixed st name path = Some q \<and> (\<forall>r. q = Some r \<and> path \<noteq> Some r \<longrightarrow> length r < MAX_PATH)"
proof -
  have "0 < MAX_PATH" by (simp add: MAX_PATH_def)
  from fix_path_total [OF assms this] obtain r where
    "pm_fix_path_common (st_fnmatch st) (st_os st) name path MAX_PATH (g_config st) = Some r"
    "\<forall>q. r = New q \<longrightarrow> length q < MAX_PATH" by blast
  then show ?thesis by (cases r) (auto simp: fixed_def fix_path_def deref_opt_def)
qed

lemma absolute_from_dirfd_fits:
  "absolute_from_dirfd st dirfd path n = Some (New q) \<Longrightarrow> length q < n"
  by (auto simp: absolute_from_dirfd_def Let_def split: option.splits if_splits Option.bind_splits prod.splits)

lemma absolute_from_dirfd_total:
  assumes "os_ok (st_os st)"
  shows "\<exists>r. absolute_from_dirfd st dirfd path n = Some r"
proof -
  define link where "link = (if dirfd = AT_FDCWD then ''/proc/self/cwd'' else ''/proc/self/fd/'' @ show_int dirfd)"
  obtain r b where rb: "os_readlink (st_os st) link (MAX_PATH - 1) = Some (r, b)"
    using os_readlinkE [OF assms] by metis
  have "absolute_from_dirfd st dirfd path n =
      (case path of None \<Rightarrow> Some Same | Some p \<Rightarrow> if is_absolute p then Some Same else
         (os_readlink (st_os st) link (MAX_PATH - 1)) \<bind> (\<lambda>(m, b). if m \<le> 0 then Some Same
            else if n < length (take (nat m) b) + 1 + length p + 1 then Some Same
            else Some (New (take (nat m) b @ (if take (nat m) b = [] \<or> last (take (nat m) b) \<noteq> slash then [slash] else []) @ p))))"
    by (simp only: absolute_from_dirfd_def link_def Let_def if_distrib [of "\<lambda>l. os_readlink (st_os st) l (MAX_PATH - 1)"])
  then show ?thesis by (simp add: rb split: option.split del: One_nat_def)
qed

lemma at_fixed_total:
  assumes "os_ok (st_os st)"
  shows "\<exists>q. at_fixed st name dirfd path = Some q \<and> (\<forall>r. q = Some r \<and> path \<noteq> Some r \<longrightarrow> length r < MAX_PATH)"
proof -
  obtain a where a: "absolute_from_dirfd st dirfd path MAX_PATH = Some a"
    using absolute_from_dirfd_total [OF assms] by blast
  obtain q where q: "fixed st name (deref_opt path a) = Some q"
      "\<forall>r. q = Some r \<and> deref_opt path a \<noteq> Some r \<longrightarrow> length r < MAX_PATH"
    using fixed_total [OF assms] by blast
  have "length r < MAX_PATH" if "deref_opt path a = Some r" "path \<noteq> Some r" for r
    using that absolute_from_dirfd_fits [of st dirfd path MAX_PATH r] a
    by (cases a) (auto simp: deref_opt_def)
  with a q show ?thesis by (auto simp: at_fixed_def)
qed

section \<open>The generated wrappers\<close>

lemma generic_call:
  assumes "override_function_mode_generic st va pos name args flags mode = Some call"
    and "1 \<le> pos" and "pos \<le> length args"
  shows "\<exists>path new_path. args ! (pos - 1) = PathArg path \<and> fixed st name path = Some new_path
     \<and> callee call = name \<and> call_args call ! (pos - 1) = PathArg new_path
     \<and> (\<forall>i < length args. i \<noteq> pos - 1 \<longrightarrow> call_args call ! i = args ! i)
     \<and> drop (length args) (call_args call) = (if va then mode_arg flags mode else [])"
  using assms
  by (auto simp: override_function_mode_generic_def libc_def mode_arg_def nth_append
      split: arg.splits Option.bind_splits if_splits)

section \<open>Paths below a directory descriptor\<close>

definition dir_of_fd :: "lib_state \<Rightarrow> 32 word \<Rightarrow> string \<Rightarrow> bool" where
  "dir_of_fd st dirfd dir \<longleftrightarrow>
     is_absolute dir
     \<and> os_readlink (st_os st) (if dirfd = AT_FDCWD then ''/proc/self/cwd'' else ''/proc/self/fd/'' @ show_int dirfd)
         (MAX_PATH - 1) = Some (int (length dir), dir)"

definition join_dir :: "string \<Rightarrow> string \<Rightarrow> string" where
  "join_dir dir p = (if is_absolute p then p else dir @ (if last dir \<noteq> slash then [slash] else []) @ p)"

lemma resolve_join_dir: "is_absolute dir \<Longrightarrow> resolve (join_dir dir p) = resolve (abs_name dir p)"
proof (cases "is_absolute p \<or> last dir \<noteq> slash")
  case False
  assume "is_absolute dir"
  then obtain d where "dir = d @ [slash]"
    using False by (metis append_butlast_last_id is_absolute_def)
  with False show ?thesis by (simp add: join_dir_def abs_name_def resolve_double_slash)
qed (auto simp: join_dir_def abs_name_def)

lemma at_fixed_join:
  assumes "is_absolute p \<or> dir_of_fd st dirfd dir" and "length (abs_name dir p) + 1 < MAX_PATH"
  shows "at_fixed st name dirfd (Some p) = fixed st name (Some (join_dir dir p))"
proof (cases "is_absolute p")
  case True
  then show ?thesis by (simp add: at_fixed_def absolute_from_dirfd_def deref_opt_def join_dir_def)
next
  case False
  then have "dir \<noteq> []" "os_readlink (st_os st)
      (if dirfd = AT_FDCWD then ''/proc/self/cwd'' else ''/proc/self/fd/'' @ show_int dirfd) (MAX_PATH - 1)
      = Some (int (length dir), dir)"
    using assms(1) by (auto simp: dir_of_fd_def is_absolute_def)
  then have "absolute_from_dirfd st dirfd (Some p) MAX_PATH = Some (New (join_dir dir p))"
    using False assms(2)
    by (auto simp: absolute_from_dirfd_def join_dir_def abs_name_def Let_def split: if_splits)
  then show ?thesis by (simp add: at_fixed_def deref_opt_def)
qed

lemma abs_name_absolute: "is_absolute p \<Longrightarrow> abs_name d p = p"
  by (simp add: abs_name_def)

lemma join_dir_absolute: "is_absolute dir \<or> is_absolute p \<Longrightarrow> is_absolute (join_dir dir p)"
  by (auto simp: join_dir_def is_absolute_def)

lemma absolute_not_bare: "is_absolute p \<Longrightarrow> p \<noteq> ''.'' \<and> \<not> bare_search f p"
  by (cases p) (auto simp: is_absolute_def bare_search_def)

lemma at_fixed_lookup:
  assumes "seg_common es ms (g_config st)" and "\<not> relsymlink (g_config st)"
    and "dir_of_fd st dirfd dir" and "length (abs_name dir p) + 1 < MAX_PATH"
  shows "case fix_spec es ms (resolve (abs_name dir p)) of
      None \<Rightarrow> at_fixed st name dirfd (Some p) = Some (Some (join_dir dir p))
    | Some ss' \<Rightarrow> length (path_of ss') + 2 < MAX_PATH \<longrightarrow>
        (\<exists>r. at_fixed st name dirfd (Some p) = Some (Some r) \<and> (r = path_of ss' \<or> r = path_of ss' @ [slash]))"
proof -
  let ?q = "join_dir dir p"
  have abs: "is_absolute ?q" and dir: "is_absolute dir"
    using assms(3) join_dir_absolute by (auto simp: dir_of_fd_def)
  have len: "length (abs_name dir ?q) + 1 < MAX_PATH"
    using assms(4) abs by (auto simp: abs_name_absolute) (auto simp: join_dir_def abs_name_def split: if_splits)
  have res: "resolve (abs_name dir ?q) = resolve (abs_name dir p)"
    using abs dir by (simp add: abs_name_absolute resolve_join_dir)
  have join: "at_fixed st name dirfd (Some p) = fixed st name (Some ?q)"
    by (rule at_fixed_join) (use assms in auto)
  note look = fix_path_segments [OF assms(1,2) disjI1 [OF abs] len conjunct1 [OF absolute_not_bare [OF abs]]
      conjunct2 [OF absolute_not_bare [OF abs]], of "st_fnmatch st" "st_os st" name MAX_PATH, unfolded res]
  from look show ?thesis
    by (auto simp: join fixed_def fix_path_def deref_opt_def split: option.splits)
qed

section \<open>Properties\<close>

lemma override_positions:
  "list_all (\<lambda>(name, nargs, pos, va). 1 \<le> pos \<and> pos \<le> nargs) override_table"
  by code_simp


definition fd_os :: os_view where
  "fd_os = \<lparr>os_readlink = (\<lambda>p n. if p = ''/proc/self/fd/3'' \<and> 4 < n then Some (4, ''/usr'') else Some (- 1, [])),
     os_is_symlink = (\<lambda>p. False), os_is_dir = (\<lambda>p. True)\<rparr>"

definition sample_state :: lib_state where
  "sample_state = \<lparr>st_fnmatch = (\<lambda>_ _. False), st_os = fd_os, g_config = sample_config\<rparr>"

lemma sample_fixed: "fixed sample_state ''open'' (Some ''/usr/x'') = Some (Some ''/app/x'')"
  by code_simp


text \<open>
  A wrapper's call, made with the path that the tables give for \<open>p\<close> below the directory \<open>dir\<close>.
\<close>

definition calls_below ::
    "string list list \<Rightarrow> (string list \<times> string list) list \<Rightarrow> string \<Rightarrow> string \<Rightarrow> lib_call option
       \<Rightarrow> (string \<Rightarrow> lib_call) \<Rightarrow> bool" where
  "calls_below es ms dir p call mk \<longleftrightarrow>
     (\<exists>r. call = Some (mk r)
        \<and> (case fix_spec es ms (resolve (abs_name dir p)) of
             None \<Rightarrow> r = join_dir dir p
           | Some ss' \<Rightarrow> r = path_of ss' \<or> r = path_of ss' @ [slash]))"

lemma calls_below_at:
  assumes "seg_common es ms (g_config st)" and "\<not> relsymlink (g_config st)"
    and "dir_of_fd st dirfd dir" and "length (abs_name dir p) + 1 < MAX_PATH"
    and "\<forall>ss'. fix_spec es ms (resolve (abs_name dir p)) = Some ss' \<longrightarrow> length (path_of ss') + 2 < MAX_PATH"
  shows "calls_below es ms dir p (do { q \<leftarrow> at_fixed st name dirfd (Some p); Some (f q) }) (\<lambda>r. f (Some r))"
  using at_fixed_lookup [OF assms(1-4), of name] assms(5)
  by (auto simp: calls_below_def split: option.splits)

lemmas dirfd_wrapper_defs = openat_def openat64_def fortify_openat_2_def fortify_openat64_2_def openat2_def fstatat_def fstatat64_def faccessat_def mkdirat_def mkfifoat_def mknodat_def utimensat_def futimesat_def fchmodat_def fchownat_def unlinkat_def name_to_handle_at_def open_tree_def mount_setattr_def statmount_def


lemma show_three: "show_nat 3 = ''3''"
  by code_simp

lemma sample_fd: "dir_of_fd sample_state 3 ''/usr''"
  by (simp add: dir_of_fd_def is_absolute_def sample_state_def fd_os_def AT_FDCWD_def MAX_PATH_def show_int_def
      show_three)


end
