(* ===== verification/Exec.thy ===== *)
theory Exec
  imports OverridesSpec
begin

text \<open>
  Starting programs: the \<^verbatim>\<open>exec\<close> family and \<^verbatim>\<open>posix_spawn\<close> of
  \<^verbatim>\<open>src/lib/path-mapping.c\<close>. The path is rewritten, and when it changed the first
  argument becomes the mapped path too. \<open>alloc\<close> gives the outcome of the two allocations of
  the new argument vector. The model takes the path to be non-NULL.
\<close>

definition update_argv0 ::
    "lib_state \<Rightarrow> (nat \<Rightarrow> bool) \<Rightarrow> bool \<Rightarrow> string \<Rightarrow> string list option \<Rightarrow> string list option" where
  "update_argv0 st alloc same original_path argv =
     pm_update_argv0_common (st_fnmatch st) alloc same original_path argv (g_config st)"

definition execute_with_resolved_path_universal ::
    "lib_state \<Rightarrow> (nat \<Rightarrow> bool) \<Rightarrow> bool \<Rightarrow> string \<Rightarrow> string \<Rightarrow> string list option \<Rightarrow> string list option \<Rightarrow> bool
       \<Rightarrow> exec_call" where
  "execute_with_resolved_path_universal st alloc same original_path final_path argv env has_env =
     pm_execute_with_resolved_path_universal (st_fnmatch st) alloc same original_path final_path argv env
       has_env (g_config st)"

definition execve ::
    "lib_state \<Rightarrow> (nat \<Rightarrow> bool) \<Rightarrow> string \<Rightarrow> string list option \<Rightarrow> string list option \<Rightarrow> exec_call option" where
  "execve st alloc filename argv env = do {
     r \<leftarrow> fix_path st ''execve'' (Some filename) MAX_PATH;
     Some (execute_with_resolved_path_universal st alloc (r = Same) filename (deref filename r) argv env True)
   }"

definition execvp :: "lib_state \<Rightarrow> (nat \<Rightarrow> bool) \<Rightarrow> string \<Rightarrow> string list option \<Rightarrow> exec_call option" where
  "execvp st alloc filename argv = do {
     r \<leftarrow> fix_path st ''execvp'' (Some filename) MAX_PATH;
     Some (execute_with_resolved_path_universal st alloc (r = Same) filename (deref filename r) argv None False)
   }"

text \<open>
  \<^verbatim>\<open>execveat\<close>: the two path pointers are equal only when neither step made a new path.
\<close>

definition execveat ::
    "lib_state \<Rightarrow> (nat \<Rightarrow> bool) \<Rightarrow> 32 word \<Rightarrow> string \<Rightarrow> string list option \<Rightarrow> string list option \<Rightarrow> 32 word
       \<Rightarrow> lib_call option" where
  "execveat st alloc dirfd pathname argv env flags = do {
     a \<leftarrow> (if flags AND AT_EMPTY_PATH = 0 then absolute_from_dirfd st dirfd (Some pathname) MAX_PATH
          else Some Same);
     (let abs = deref pathname a in do {
        r \<leftarrow> fix_path st ''execveat'' (Some abs) MAX_PATH;
        (let final_path = deref abs r;
             new_argv = (case update_argv0 st alloc (a = Same \<and> r = Same) pathname argv of
                           Some v \<Rightarrow> Some v | None \<Rightarrow> argv)
         in Some (libc ''execveat''
              [IntArg dirfd, PathArg (Some final_path), ArgvArg new_argv, ArgvArg env, IntArg flags]))
      })
   }"

text \<open>The functions with a list of arguments collect them after \<open>arg0\<close>.\<close>

definition execl :: "lib_state \<Rightarrow> string \<Rightarrow> string \<Rightarrow> string list \<Rightarrow> lib_call option" where
  "execl st filename arg0 args = do {
     new_path \<leftarrow> fixed st ''execl'' (Some filename);
     Some (libc ''execv'' [PathArg new_path, ArgvArg (Some (arg0 # args))])
   }"

definition execlp :: "lib_state \<Rightarrow> string \<Rightarrow> string \<Rightarrow> string list \<Rightarrow> lib_call option" where
  "execlp st filename arg0 args = do {
     new_path \<leftarrow> fixed st ''execlp'' (Some filename);
     Some (libc ''execvp'' [PathArg new_path, ArgvArg (Some (arg0 # args))])
   }"

definition execle :: "lib_state \<Rightarrow> string \<Rightarrow> string \<Rightarrow> string list \<Rightarrow> string list option \<Rightarrow> lib_call option" where
  "execle st filename arg0 args env = do {
     new_path \<leftarrow> fixed st ''execle'' (Some filename);
     Some (libc ''execve'' [PathArg new_path, ArgvArg (Some (arg0 # args)), ArgvArg env])
   }"

definition posix_spawn ::
    "lib_state \<Rightarrow> (nat \<Rightarrow> bool) \<Rightarrow> nat \<Rightarrow> string \<Rightarrow> nat \<Rightarrow> nat \<Rightarrow> string list option \<Rightarrow> string list option
       \<Rightarrow> lib_call option" where
  "posix_spawn st alloc pid path file_actions attrp argv envp = do {
     r \<leftarrow> fix_path st ''posix_spawn'' (Some path) MAX_PATH;
     (let new_argv = (case update_argv0 st alloc (r = Same) path argv of Some v \<Rightarrow> Some v | None \<Rightarrow> argv)
      in Some (libc ''posix_spawn''
           [OpaqueArg pid, PathArg (Some (deref path r)), OpaqueArg file_actions, OpaqueArg attrp,
            ArgvArg new_argv, ArgvArg envp]))
   }"

definition posix_spawnp ::
    "lib_state \<Rightarrow> (nat \<Rightarrow> bool) \<Rightarrow> nat \<Rightarrow> string \<Rightarrow> nat \<Rightarrow> nat \<Rightarrow> string list option \<Rightarrow> string list option
       \<Rightarrow> lib_call option" where
  "posix_spawnp st alloc pid file file_actions attrp argv envp = do {
     r \<leftarrow> fix_path st ''posix_spawnp'' (Some file) MAX_PATH;
     (let new_argv = (case update_argv0 st alloc (r = Same) file argv of Some v \<Rightarrow> Some v | None \<Rightarrow> argv)
      in Some (libc ''posix_spawnp''
           [OpaqueArg pid, PathArg (Some (deref file r)), OpaqueArg file_actions, OpaqueArg attrp,
            ArgvArg new_argv, ArgvArg envp]))
   }"

section \<open>The argument vector\<close>

lemma update_argv0_common_shape:
  "pm_update_argv0_common fnm alloc same path argv c = Some v \<Longrightarrow>
     \<exists>a0 args m. argv = Some (a0 # args) \<and> v = m # args \<and> \<not> same \<and> m \<noteq> path
       \<and> pm_apply_mapping_with_config fnm path MAX_PATH (mapping_config c) = New m"
  by (auto simp: pm_update_argv0_common_def Let_def deref_def split: option.splits list.splits if_splits cptr.splits)

lemma update_argv0_same [simp]: "pm_update_argv0_common fnm alloc True path argv c = None"
  by (simp add: pm_update_argv0_common_def split: option.splits list.splits)

lemma execute_shape:
  "call_path (pm_execute_with_resolved_path_universal fnm alloc same orig final argv env has_env c) = final
   \<and> call_env (pm_execute_with_resolved_path_universal fnm alloc same orig final argv env has_env c)
       = (if has_env then Some env else None)
   \<and> (call_argv (pm_execute_with_resolved_path_universal fnm alloc same orig final argv env has_env c) = argv
      \<or> (\<exists>a0 args m. argv = Some (a0 # args) \<and> \<not> same
           \<and> pm_apply_mapping_with_config fnm orig MAX_PATH (mapping_config c) = New m
           \<and> call_argv (pm_execute_with_resolved_path_universal fnm alloc same orig final argv env has_env c)
               = Some (m # args)))"
  using update_argv0_common_shape [of fnm alloc same orig argv c]
  by (auto simp: pm_execute_with_resolved_path_universal_def split: option.split)

lemma fix_path_defined:
  assumes "os_ok (st_os st)"
  obtains r where "fix_path st name path MAX_PATH = Some r"
proof -
  have "0 < MAX_PATH" by (simp add: MAX_PATH_def)
  then show thesis using fix_path_total [OF assms] that unfolding fix_path_def by blast
qed

text \<open>The arguments of the started program: kept, or with the mapped path in the first place.\<close>

definition argv_for :: "lib_state \<Rightarrow> string \<Rightarrow> cptr \<Rightarrow> string list option \<Rightarrow> string list option \<Rightarrow> bool" where
  "argv_for st path r argv argv' \<longleftrightarrow>
     argv' = argv
     \<or> r \<noteq> Same \<and> (\<exists>a0 args m. argv = Some (a0 # args) \<and> argv' = Some (m # args)
          \<and> pm_apply_mapping_with_config (st_fnmatch st) path MAX_PATH (mapping_config (g_config st)) = New m)"

lemma argv_for_update:
  "argv_for st path r argv (case update_argv0 st alloc (r = Same) path argv of Some v \<Rightarrow> Some v | None \<Rightarrow> argv)"
  using update_argv0_common_shape [of "st_fnmatch st" alloc "r = Same" path argv "g_config st"]
  by (auto simp: argv_for_def update_argv0_def split: option.split)

lemma argv_for_execute:
  "argv_for st path r argv
     (call_argv (execute_with_resolved_path_universal st alloc (r = Same) path final argv env has_env))"
  using execute_shape [of "st_fnmatch st" alloc "r = Same" path final argv env has_env "g_config st"]
  by (auto simp: argv_for_def execute_with_resolved_path_universal_def)

section \<open>Properties\<close>



end
