(* ===== verification/Results.thy ===== *)
theory Results
  imports OverridesSpec
begin

text \<open>
  The interposed functions of \<^verbatim>\<open>src/lib/path-mapping.c\<close> that change what the C library
  returns: \<^verbatim>\<open>realpath\<close>, \<^verbatim>\<open>getcwd\<close>, \<^verbatim>\<open>readlink\<close>,
  \<^verbatim>\<open>readdir\<close>, \<^verbatim>\<open>scandir\<close> and their variants. The next library's function is an
  argument (\<open>orig\<close>), a function of the path it is given.
\<close>

section \<open>realpath\<close>

text \<open>\<open>own_buffer\<close>: the caller passed \<^verbatim>\<open>resolved_path\<close>. The inner option is the returned pointer.\<close>

definition realpath ::
    "lib_state \<Rightarrow> bool \<Rightarrow> (string option \<Rightarrow> string option) \<Rightarrow> string option \<Rightarrow> bool \<Rightarrow> string option option" where
  "realpath st alloc orig path own_buffer = do {
     new_path \<leftarrow> fixed st ''realpath'' path;
     (case orig new_path of
        None \<Rightarrow> Some None
      | Some result \<Rightarrow>
          if reverse_enabled (g_config st) then
            (if own_buffer then Some (Some result)
             else map_option fst
               (pm_reverse_realpath_result (st_fnmatch st) alloc (Some result) (mapping_config (g_config st))))
          else Some (Some result))
   }"

definition canonicalize_file_name ::
    "lib_state \<Rightarrow> bool \<Rightarrow> (string option \<Rightarrow> string option) \<Rightarrow> string option \<Rightarrow> string option option" where
  "canonicalize_file_name st alloc orig path = do {
     new_path \<leftarrow> fixed st ''canonicalize_file_name'' path;
     (case orig new_path of
        None \<Rightarrow> Some None
      | Some result \<Rightarrow>
          if reverse_enabled (g_config st) then
            map_option fst
              (pm_reverse_realpath_result (st_fnmatch st) alloc (Some result) (mapping_config (g_config st)))
          else Some (Some result))
   }"

definition fortify_realpath_chk ::
    "lib_state \<Rightarrow> bool \<Rightarrow> (string option \<Rightarrow> string option) \<Rightarrow> string option \<Rightarrow> bool \<Rightarrow> string option option" where
  "fortify_realpath_chk st alloc orig path own_buffer = do {
     new_path \<leftarrow> fixed st ''__realpath_chk'' path;
     (case orig new_path of
        None \<Rightarrow> Some None
      | Some result \<Rightarrow>
          if reverse_enabled (g_config st) then
            (if own_buffer then Some (Some result)
             else map_option fst
               (pm_reverse_realpath_result (st_fnmatch st) alloc (Some result) (mapping_config (g_config st))))
          else Some (Some result))
   }"

section \<open>getcwd\<close>

datatype cwd_error = ENOMEM | ERANGE | EFAULT | LibcError

text \<open>The real directory as the program should see it. The reverse switch is not consulted here.\<close>

definition shown_cwd :: "lib_state \<Rightarrow> string \<Rightarrow> string option" where
  "shown_cwd st real = do {
     virt \<leftarrow> pm_apply_reverse_mapping_with_config (st_fnmatch st) real MAX_PATH (mapping_config (g_config st));
     Some (deref real virt)
   }"

definition getcwd ::
    "lib_state \<Rightarrow> bool \<Rightarrow> string option \<Rightarrow> bool \<Rightarrow> nat \<Rightarrow> (cwd_error + string) option" where
  "getcwd st alloc real buf_null sz =
     (case real of
        None \<Rightarrow> Some (Inl LibcError)
      | Some real \<Rightarrow> do {
          final_str \<leftarrow> shown_cwd st real;
          (let need = length final_str + 1 in
           if buf_null then (if alloc then Some (Inr final_str) else Some (Inl ENOMEM))
           else if sz = 0 \<or> sz < need then Some (Inl ERANGE)
           else Some (Inr final_str))
        })"

definition get_current_dir_name :: "lib_state \<Rightarrow> bool \<Rightarrow> string option \<Rightarrow> (cwd_error + string) option" where
  "get_current_dir_name st alloc real =
     (case real of
        None \<Rightarrow> Some (Inl LibcError)
      | Some real \<Rightarrow> do {
          virt \<leftarrow> pm_apply_reverse_mapping_with_config (st_fnmatch st) real MAX_PATH (mapping_config (g_config st));
          Some (case virt of
                  Same \<Rightarrow> Inr real
                | New v \<Rightarrow> if alloc then Inr v else Inl ENOMEM)
        })"

definition getwd :: "lib_state \<Rightarrow> string option \<Rightarrow> bool \<Rightarrow> (cwd_error + string) option" where
  "getwd st real buf_null =
     (if buf_null then Some (Inl EFAULT)
      else (case real of
              None \<Rightarrow> Some (Inl LibcError)
            | Some real \<Rightarrow> do {
                final_str \<leftarrow> shown_cwd st real;
                (if 4096 < length final_str + 1 then Some (Inl ERANGE) else Some (Inr final_str))
              }))"

definition fortify_getcwd_chk ::
    "lib_state \<Rightarrow> bool \<Rightarrow> string option \<Rightarrow> bool \<Rightarrow> nat \<Rightarrow> nat \<Rightarrow> (cwd_error + string) option" where
  "fortify_getcwd_chk st alloc real buf_null sz buflen =
     (case real of
        None \<Rightarrow> Some (Inl LibcError)
      | Some real \<Rightarrow> do {
          final_str \<leftarrow> shown_cwd st real;
          (let need = length final_str + 1 in
           if buf_null then (if alloc then Some (Inr final_str) else Some (Inl ENOMEM))
           else if sz = 0 \<or> sz < need \<or> buflen < need then Some (Inl ERANGE)
           else Some (Inr final_str))
        })"

section \<open>readlink\<close>

text \<open>
  The common end of the four functions: \<open>path\<close> is the path after the rewriting, \<open>n\<close> and
  \<open>buf\<close> what the next library returned and wrote. The first step may rewrite the buffer without
  changing the length; the second then sees the rewritten buffer.
\<close>

definition readlink_result ::
    "lib_state \<Rightarrow> string option \<Rightarrow> int \<times> string \<Rightarrow> nat \<Rightarrow> (int \<times> string) option" where
  "readlink_result st path nb bufsiz =
     (if reverse_enabled (g_config st) then do {
        (nv, buf) \<leftarrow> (case path of
            None \<Rightarrow> Some nb
          | Some p \<Rightarrow> pm_virtualize_proc_cwd_readlink_result (st_fnmatch st) p (snd nb) (fst nb) bufsiz
                        (mapping_config (g_config st)));
        (if nv \<noteq> fst nb then Some (nv, buf)
         else pm_reverse_readlink_inplace (st_fnmatch st) buf (fst nb) bufsiz (mapping_config (g_config st)))
      }
      else Some nb)"

definition readlink ::
    "lib_state \<Rightarrow> (string option \<Rightarrow> nat \<Rightarrow> int \<times> string) \<Rightarrow> string option \<Rightarrow> nat \<Rightarrow> (int \<times> string) option" where
  "readlink st orig pathname bufsiz = do {
     inp \<leftarrow> fixed st ''readlink'' pathname;
     readlink_result st inp (orig inp bufsiz) bufsiz
   }"

definition readlinkat ::
    "lib_state \<Rightarrow> (32 word \<Rightarrow> string option \<Rightarrow> nat \<Rightarrow> int \<times> string) \<Rightarrow> 32 word \<Rightarrow> string option \<Rightarrow> nat
       \<Rightarrow> (int \<times> string) option" where
  "readlinkat st orig dirfd pathname bufsiz = do {
     inp \<leftarrow> at_fixed st ''readlinkat'' dirfd pathname;
     readlink_result st inp (orig dirfd inp bufsiz) bufsiz
   }"

definition fortify_readlink_chk ::
    "lib_state \<Rightarrow> (string option \<Rightarrow> nat \<Rightarrow> nat \<Rightarrow> int \<times> string) \<Rightarrow> string option \<Rightarrow> nat \<Rightarrow> nat
       \<Rightarrow> (int \<times> string) option" where
  "fortify_readlink_chk st orig pathname bufsiz buflen = do {
     inp \<leftarrow> fixed st ''__readlink_chk'' pathname;
     readlink_result st inp (orig inp bufsiz buflen) bufsiz
   }"

definition fortify_readlinkat_chk ::
    "lib_state \<Rightarrow> (32 word \<Rightarrow> string option \<Rightarrow> nat \<Rightarrow> nat \<Rightarrow> int \<times> string) \<Rightarrow> 32 word \<Rightarrow> string option \<Rightarrow> nat
       \<Rightarrow> nat \<Rightarrow> (int \<times> string) option" where
  "fortify_readlinkat_chk st orig dirfd pathname bufsiz buflen = do {
     inp \<leftarrow> at_fixed st ''__readlinkat_chk'' dirfd pathname;
     readlink_result st inp (orig dirfd inp bufsiz buflen) bufsiz
   }"

section \<open>Directory entries\<close>

text \<open>\<open>readlink_real\<close> is the C library's own \<^verbatim>\<open>readlink\<close>; \<^term>\<open>None\<close> stands for the return of -1.\<close>

definition resolve_fd_path_self ::
    "(string \<Rightarrow> nat \<Rightarrow> int \<times> string) \<Rightarrow> 32 word \<Rightarrow> nat \<Rightarrow> string option" where
  "resolve_fd_path_self readlink_real fd out_size =
     (let (n, out) = readlink_real (''/proc/self/fd/'' @ show_int fd) (out_size - 1)
      in if n \<le> 0 then None else Some (take (nat n) out))"

text \<open>
  \<^verbatim>\<open>readdir\<close>: \<open>ent\<close> is the name in the entry of the next library, \<open>fd\<close> the descriptor of
  the stream. The entry is renamed in place. The value of \<^verbatim>\<open>reverse_fix_path\<close> is not used.
\<close>

definition readdir ::
    "lib_state \<Rightarrow> (string \<Rightarrow> nat \<Rightarrow> int \<times> string) \<Rightarrow> 32 word \<Rightarrow> string option \<Rightarrow> string option option" where
  "readdir st readlink_real fd ent =
     (case ent of
        None \<Rightarrow> Some None
      | Some d_name \<Rightarrow>
          if sint fd < 0 then Some (Some d_name)
          else
            (case resolve_fd_path_self readlink_real fd MAX_PATH of
               None \<Rightarrow> Some (Some d_name)
             | Some dirpath \<Rightarrow>
                 if MAX_PATH \<le> length dirpath + 1 + length d_name + 1 then Some (Some d_name)
                 else if \<not> reverse_enabled (g_config st) then Some (Some d_name)
                 else do {
                   full \<leftarrow> pm_normalize_path_inplace (dirpath @ slash # d_name);
                   _ \<leftarrow> reverse_fix_path st (Some full) MAX_PATH;
                   (_, name) \<leftarrow> pm_reverse_basename_apply_inplace (st_fnmatch st) dirpath d_name
                     (length d_name + 1) (mapping_config (g_config st));
                   Some (Some name)
                 }))"

definition readdir64 ::
    "lib_state \<Rightarrow> (string \<Rightarrow> nat \<Rightarrow> int \<times> string) \<Rightarrow> 32 word \<Rightarrow> string option \<Rightarrow> string option option" where
  "readdir64 st readlink_real fd ent =
     (case ent of
        None \<Rightarrow> Some None
      | Some d_name \<Rightarrow>
          if sint fd < 0 then Some (Some d_name)
          else
            (case resolve_fd_path_self readlink_real fd MAX_PATH of
               None \<Rightarrow> Some (Some d_name)
             | Some dirpath \<Rightarrow>
                 if MAX_PATH \<le> length dirpath + 1 + length d_name + 1 then Some (Some d_name)
                 else if \<not> reverse_enabled (g_config st) then Some (Some d_name)
                 else do {
                   full \<leftarrow> pm_normalize_path_inplace (dirpath @ slash # d_name);
                   _ \<leftarrow> reverse_fix_path st (Some full) MAX_PATH;
                   (_, name) \<leftarrow> pm_reverse_basename_apply_inplace (st_fnmatch st) dirpath d_name
                     (length d_name + 1) (mapping_config (g_config st));
                   Some (Some name)
                 }))"

text \<open>The loop of the \<^verbatim>\<open>scandir\<close> functions over the names of the entries.\<close>

fun rename_entries ::
    "(string \<Rightarrow> string \<Rightarrow> bool) \<Rightarrow> string \<Rightarrow> pm_mapping_config \<Rightarrow> string list \<Rightarrow> string list option" where
  "rename_entries fnm dir config [] = Some []"
| "rename_entries fnm dir config (d_name # names) = do {
     r \<leftarrow> pm_reverse_basename_from_dir fnm dir d_name (NAME_MAX + 1) config;
     rest \<leftarrow> rename_entries fnm dir config names;
     Some ((case r of
              None \<Rightarrow> d_name
            | Some newname \<Rightarrow> if length newname \<le> length d_name then newname else d_name) # rest)
   }"

text \<open>\<open>orig\<close> returns the count and the entries; the directory is taken to be non-NULL.\<close>

definition scandir ::
    "lib_state \<Rightarrow> (string \<Rightarrow> int \<times> string list) \<Rightarrow> string \<Rightarrow> (int \<times> string list) option" where
  "scandir st orig dirp = do {
     r \<leftarrow> fix_path st ''scandir'' (Some dirp) MAX_PATH;
     (let new_dir = deref dirp r; (n, namelist) = orig new_dir in
      if n \<le> 0 then Some (n, namelist)
      else if \<not> reverse_enabled (g_config st) then Some (n, namelist)
      else do {
        names \<leftarrow> rename_entries (st_fnmatch st) new_dir (mapping_config (g_config st)) namelist;
        Some (n, names)
      })
   }"

definition scandirat ::
    "lib_state \<Rightarrow> (32 word \<Rightarrow> string \<Rightarrow> int \<times> string list) \<Rightarrow> 32 word \<Rightarrow> string \<Rightarrow> (int \<times> string list) option" where
  "scandirat st orig dirfd dirp = do {
     a \<leftarrow> absolute_from_dirfd st dirfd (Some dirp) MAX_PATH;
     r \<leftarrow> fix_path st ''scandirat'' (Some (deref dirp a)) MAX_PATH;
     (let new_dir = deref (deref dirp a) r; (n, namelist) = orig dirfd new_dir in
      if n \<le> 0 then Some (n, namelist)
      else if \<not> reverse_enabled (g_config st) then Some (n, namelist)
      else do {
        names \<leftarrow> rename_entries (st_fnmatch st) new_dir (mapping_config (g_config st)) namelist;
        Some (n, names)
      })
   }"

definition scandir64 ::
    "lib_state \<Rightarrow> (string \<Rightarrow> int \<times> string list) \<Rightarrow> string \<Rightarrow> (int \<times> string list) option" where
  "scandir64 st orig dirp = do {
     r \<leftarrow> fix_path st ''scandir64'' (Some dirp) MAX_PATH;
     (let new_dir = deref dirp r; (n, namelist) = orig new_dir in
      if n \<le> 0 then Some (n, namelist)
      else if \<not> reverse_enabled (g_config st) then Some (n, namelist)
      else do {
        names \<leftarrow> rename_entries (st_fnmatch st) new_dir (mapping_config (g_config st)) namelist;
        Some (n, names)
      })
   }"

definition scandirat64 ::
    "lib_state \<Rightarrow> (32 word \<Rightarrow> string \<Rightarrow> int \<times> string list) \<Rightarrow> 32 word \<Rightarrow> string \<Rightarrow> (int \<times> string list) option" where
  "scandirat64 st orig dirfd dirp = do {
     a \<leftarrow> absolute_from_dirfd st dirfd (Some dirp) MAX_PATH;
     r \<leftarrow> fix_path st ''scandirat64'' (Some (deref dirp a)) MAX_PATH;
     (let new_dir = deref (deref dirp a) r; (n, namelist) = orig dirfd new_dir in
      if n \<le> 0 then Some (n, namelist)
      else if \<not> reverse_enabled (g_config st) then Some (n, namelist)
      else do {
        names \<leftarrow> rename_entries (st_fnmatch st) new_dir (mapping_config (g_config st)) namelist;
        Some (n, names)
      })
   }"

section \<open>Bounds of the results\<close>

lemma virtualize_proc_bound:
  assumes "pm_virtualize_proc_cwd_readlink_result fnm path buf n bufsiz config = Some (m, buf')" and "n \<le> int bufsiz"
  shows "m \<le> int bufsiz"
  using assms
  by (auto simp: pm_virtualize_proc_cwd_readlink_result_def Let_def split: if_splits Option.bind_splits cptr.splits)

lemma reverse_readlink_bound:
  assumes "pm_reverse_readlink_inplace fnm buf n bufsiz config = Some (m, buf')" and "n \<le> int bufsiz"
  shows "m \<le> int bufsiz"
  using assms
  by (auto simp: pm_reverse_readlink_inplace_def Let_def split: if_splits Option.bind_splits cptr.splits)

lemma readlink_result_bound:
  assumes "readlink_result st path nb bufsiz = Some (m, buf)" and "fst nb \<le> int bufsiz"
  shows "m \<le> int bufsiz"
  using assms virtualize_proc_bound reverse_readlink_bound
  by (fastforce simp: readlink_result_def split: if_splits Option.bind_splits option.splits prod.splits)

lemma apply_inplace_length:
  "pm_reverse_basename_apply_inplace fnm dirpath name cap config = Some (changed, name') \<Longrightarrow> length name' \<le> length name"
  by (auto simp: pm_reverse_basename_apply_inplace_def Let_def split: if_splits Option.bind_splits option.splits)

lemma apply_inplace_dots:
  "name = ''.'' \<or> name = ''..'' \<Longrightarrow> pm_reverse_basename_apply_inplace fnm dirpath name cap config = Some (False, name)"
  by (auto simp: pm_reverse_basename_apply_inplace_def pm_reverse_basename_from_dir_def Let_def)

lemma rename_entries_shape:
  "rename_entries fnm dir config names = Some names' \<Longrightarrow>
     list_all2 (\<lambda>d d'. length d' \<le> length d \<and> (d \<in> {''.'', ''..''} \<longrightarrow> d' = d)) names names'"
proof (induction names arbitrary: names')
  case (Cons d names)
  have "pm_reverse_basename_from_dir fnm dir d (NAME_MAX + 1) config = Some None" if "d \<in> {''.'', ''..''}"
    using that by (auto simp: pm_reverse_basename_from_dir_def)
  with Cons show ?case by (auto split: Option.bind_splits option.splits if_splits)
qed simp

section \<open>Properties\<close>

definition same_record :: "string \<Rightarrow> string \<Rightarrow> bool" where
  "same_record name name' \<longleftrightarrow> length name' \<le> length name \<and> (name \<in> {''.'', ''..''} \<longrightarrow> name' = name)"

lemma same_record_refl [simp]: "same_record name name"
  by (simp add: same_record_def)

lemma apply_inplace_record:
  "pm_reverse_basename_apply_inplace fnm dirpath name cap config = Some (b, name') \<Longrightarrow> same_record name name'"
  using apply_inplace_length apply_inplace_dots unfolding same_record_def
  by (metis Pair_inject insertE option.inject singletonD)

lemma readdir_record:
  assumes "readdir st readlink_real fd ent = Some ent' \<or> readdir64 st readlink_real fd ent = Some ent'"
  shows "rel_option same_record ent ent'"
  using assms apply_inplace_record
  by (cases ent) (fastforce simp: readdir_def readdir64_def split: if_splits option.splits Option.bind_splits)+

lemma rename_entries_record:
  "rename_entries fnm dir config names = Some names' \<Longrightarrow> list_all2 same_record names names'"
  by (drule rename_entries_shape) (simp add: same_record_def [abs_def])

text \<open>C27: Directory entries are renamed within their own record: \<^verbatim>\<open>readdir\<close> and
  \<^verbatim>\<open>scandir\<close> never lengthen a name and never rename \<^verbatim>\<open>.\<close> or
  \<^verbatim>\<open>..\<close>. \<^verbatim>\<open>readdir\<close> keeps the end of the stream,
  \<^verbatim>\<open>scandir\<close> the count and the order of the entries.\<close>

theorem entries_renamed_in_place:
  assumes "readdir st readlink_real fd ent = Some ent' \<or> readdir64 st readlink_real fd ent = Some ent'"
    and "scandir st orig dirp = Some (n, names) \<or> scandir64 st orig dirp = Some (n, names)"
  shows "rel_option same_record ent ent'
     \<and> (\<exists>dir. fst (orig dir) = n \<and> list_all2 same_record (snd (orig dir)) names)"
proof
  show "rel_option same_record ent ent'" using assms(1) by (rule readdir_record)
  have refl: "list_all2 same_record xs xs" for xs by (simp add: list_all2_refl)
  show "\<exists>dir. fst (orig dir) = n \<and> list_all2 same_record (snd (orig dir)) names"
    using assms(2)
    by (auto simp: scandir_def scandir64_def Let_def split: if_splits Option.bind_splits prod.splits
        dest: rename_entries_record)
      (metis fst_conv snd_conv refl rename_entries_record)+
qed

lemma entries_renamed_in_place_witness:
  "rel_option same_record (Some ''..'') (Some ''..'') \<and> list_all2 same_record [''.'', ''x''] [''.'', ''x'']"
proof -
  have dir: "readdir sample_state (\<lambda>_ _. (- 1, [])) 3 (Some ''..'') = Some (Some ''..'')
      \<or> readdir64 sample_state (\<lambda>_ _. (- 1, [])) 3 (Some ''..'') = Some (Some ''..'')"
    by (simp add: readdir_def resolve_fd_path_self_def)
  have scan: "scandir sample_state (\<lambda>d. (2, [''.'', ''x''])) ''/tmp'' = Some (2, [''.'', ''x''])
      \<or> scandir64 sample_state (\<lambda>d. (2, [''.'', ''x''])) ''/tmp'' = Some (2, [''.'', ''x''])"
    by code_simp
  show ?thesis using entries_renamed_in_place [OF dir scan] by simp
qed

end
