(* ===== verification/EnvStore.thy ===== *)
theory EnvStore
  imports CString "HOL-Library.Monad_Syntax"
begin

text \<open>
  The environment as the C library keeps it: an array of strings \<^verbatim>\<open>NAME=value\<close>, with
  \<^verbatim>\<open>getenv\<close>, \<^verbatim>\<open>setenv\<close> (overwriting) and
  \<^verbatim>\<open>unsetenv\<close>. The locale \<open>env_store\<close> states what the preload library relies
  on; the array interprets it.
\<close>

type_synonym env = "string list"

definition entry_of :: "string \<Rightarrow> string \<Rightarrow> bool" where
  "entry_of k e = prefix (k @ ''='') e"

definition entry_value :: "string \<Rightarrow> string \<Rightarrow> string" where
  "entry_value k e = drop (Suc (length k)) e"

definition mk_entry :: "string \<Rightarrow> string \<Rightarrow> string" where
  "mk_entry k v = k @ CHR ''='' # v"

fun getenv :: "env \<Rightarrow> string \<Rightarrow> string option" where
  "getenv [] k = None"
| "getenv (e # es) k = (if entry_of k e then Some (entry_value k e) else getenv es k)"

fun setenv :: "env \<Rightarrow> string \<Rightarrow> string \<Rightarrow> env" where
  "setenv [] k v = [mk_entry k v]"
| "setenv (e # es) k v = (if entry_of k e then mk_entry k v # es else e # setenv es k v)"

definition unsetenv :: "env \<Rightarrow> string \<Rightarrow> env" where
  "unsetenv es k = filter (\<lambda>e. \<not> entry_of k e) es"

definition var_name :: "string \<Rightarrow> bool" where
  "var_name k \<longleftrightarrow> k \<noteq> [] \<and> CHR ''='' \<notin> set k"

section \<open>The interface\<close>

locale env_store =
  fixes get :: "'e \<Rightarrow> string \<Rightarrow> string option"
    and set_var :: "'e \<Rightarrow> string \<Rightarrow> string \<Rightarrow> 'e"
    and unset :: "'e \<Rightarrow> string \<Rightarrow> 'e"
    and name_ok :: "string \<Rightarrow> bool"
  assumes get_set: "name_ok k \<Longrightarrow> name_ok k' \<Longrightarrow> get (set_var e k v) k' = (if k = k' then Some v else get e k')"
    and get_unset: "name_ok k \<Longrightarrow> name_ok k' \<Longrightarrow> get (unset e k) k' = (if k = k' then None else get e k')"
begin

lemma get_set_same: "name_ok k \<Longrightarrow> get (set_var e k v) k = Some v"
  by (simp add: get_set)

lemma get_set_other: "name_ok k \<Longrightarrow> name_ok k' \<Longrightarrow> k \<noteq> k' \<Longrightarrow> get (set_var e k v) k' = get e k'"
  by (simp add: get_set)

text \<open>Copying one variable over another when the source is set and not empty.\<close>

definition restore :: "string \<Rightarrow> string \<Rightarrow> 'e \<Rightarrow> 'e" where
  "restore src dst e = (case get e src of Some (c # cs) \<Rightarrow> set_var e dst (c # cs) | _ \<Rightarrow> e)"

lemma get_restore:
  assumes "name_ok src" and "name_ok dst" and "name_ok k"
  shows "get (restore src dst e) k =
     (if k = dst \<and> get e src \<noteq> None \<and> get e src \<noteq> Some [] then get e src else get e k)"
  using assms by (auto simp: restore_def get_set split: option.splits list.splits)

lemma get_restores:
  assumes "\<forall>(src, dst)\<in>set ps. name_ok src \<and> name_ok dst" and "name_ok k" and "k \<notin> snd ` set ps"
  shows "get (fold (\<lambda>(src, dst). restore src dst) ps e) k = get e k"
  using assms
proof (induction ps arbitrary: e)
  case (Cons p ps)
  obtain src dst where p: "p = (src, dst)" by (cases p)
  from Cons.prems p have "name_ok src" "name_ok dst" "k \<noteq> dst" by auto
  then have "get (restore src dst e) k = get e k"
    using get_restore [of src dst k e] Cons.prems(2) by simp
  moreover have "get (fold (\<lambda>(src, dst). restore src dst) ps (restore src dst e)) k = get (restore src dst e) k"
    by (rule Cons.IH) (use Cons.prems in auto)
  ultimately show ?case using p by simp
qed simp

end

section \<open>The array of strings\<close>

lemma entry_of_mk [simp]: "entry_of k (mk_entry k v)"
  by (simp add: entry_of_def mk_entry_def)

lemma entry_value_mk [simp]: "entry_value k (mk_entry k v) = v"
  by (simp add: entry_value_def mk_entry_def)

lemma split_unique: "k @ c # r = k' @ c # r' \<Longrightarrow> c \<notin> set k \<Longrightarrow> c \<notin> set k' \<Longrightarrow> k = k'"
proof (induction k arbitrary: k')
  case Nil
  then show ?case by (cases k') auto
next
  case (Cons x k)
  then show ?case by (cases k') auto
qed

lemma name_unique:
  assumes "CHR ''='' \<notin> set k" and "CHR ''='' \<notin> set k'" and "entry_of k e" and "entry_of k' e"
  shows "k = k'"
proof -
  obtain r where "e = k @ CHR ''='' # r"
    using assms(3) by (auto simp: entry_of_def prefix_def)
  moreover obtain r' where "e = k' @ CHR ''='' # r'"
    using assms(4) by (auto simp: entry_of_def prefix_def)
  ultimately show ?thesis using assms(1,2) split_unique by metis
qed

lemma getenv_setenv:
  assumes "var_name k" and "var_name k'"
  shows "getenv (setenv es k v) k' = (if k = k' then Some v else getenv es k')"
proof -
  have no_eq: "CHR ''='' \<notin> set k" "CHR ''='' \<notin> set k'" using assms by (simp_all add: var_name_def)
  have mk: "\<not> entry_of k' (mk_entry k v)" if "k \<noteq> k'"
    using name_unique [OF no_eq entry_of_mk] that by blast
  show ?thesis
  proof (induction es)
    case Nil
    show ?case using mk by auto
  next
    case (Cons e es)
    have "\<not> entry_of k' e" if "entry_of k e" "k \<noteq> k'"
      using name_unique [OF no_eq that(1)] that(2) by blast
    with Cons mk show ?case by auto
  qed
qed

lemma getenv_unsetenv:
  assumes "var_name k" and "var_name k'"
  shows "getenv (unsetenv es k) k' = (if k = k' then None else getenv es k')"
proof (induction es)
  case (Cons e es)
  have "\<not> entry_of k' e" if "entry_of k e" "k \<noteq> k'"
    using name_unique [OF _ _ that(1)] assms that(2) by (auto simp: var_name_def)
  with Cons show ?case by (auto simp: unsetenv_def)
qed (simp add: unsetenv_def)

interpretation environ: env_store getenv setenv unsetenv var_name
  by unfold_locales (simp_all add: getenv_setenv getenv_unsetenv)

lemma getenv_append: "getenv (xs @ ys) k = (case getenv xs k of Some v \<Rightarrow> Some v | None \<Rightarrow> getenv ys k)"
  by (induction xs) auto

lemma getenv_filter:
  assumes "\<forall>e\<in>set es. entry_of k e \<longrightarrow> P e"
  shows "getenv (filter P es) k = getenv es k"
  using assms by (induction es) auto

lemma length_setenv: "length (setenv es k v) = length es + (if getenv es k = None then 1 else 0)"
  by (induction es) auto

end
