(* ===== verification/Anylinux.thy ===== *)
theory Anylinux
  imports EnvStore
begin

text \<open>
  \<^verbatim>\<open>src/lib/anylinux.c\<close>: the preload library that cleans the environment of the programs an
  AppImage starts, keeps \<^verbatim>\<open>PATH\<close> alive, blocks libraries, and redirects
  \<^verbatim>\<open>bindtextdomain\<close> and \<^verbatim>\<open>getauxval\<close>. \<^verbatim>\<open>environ\<close> is an
  \<open>env\<close> passed along; \<open>canon\<close> is \<^verbatim>\<open>canonicalize_file_name\<close>,
  \<open>fnm\<close> is \<^verbatim>\<open>fnmatch(_, _, 0) == 0\<close>. Allocations are taken to succeed.
\<close>

definition PATH_MAX :: nat where "PATH_MAX = 4096"

definition appimage_exec_debug_enabled :: "env \<Rightarrow> bool" where
  "appimage_exec_debug_enabled e = (case getenv e ''ANYLINUX_LIB_DEBUG'' of Some v \<Rightarrow> v = ''1'' | None \<Rightarrow> False)"

section \<open>Constructors\<close>

definition spoof_argv0 :: "env \<Rightarrow> string list \<Rightarrow> env \<times> string list" where
  "spoof_argv0 e argv =
     (case getenv e ''OVERRIDE_ARGV0'' of
        Some (c # cs) \<Rightarrow> (unsetenv e ''OVERRIDE_ARGV0'', argv[0 := c # cs])
      | _ \<Rightarrow> (e, argv))"

text \<open>The saved \<^verbatim>\<open>APPDIR\<close> and \<^verbatim>\<open>PATH\<close>; an unset variable leaves the empty string.\<close>

definition capture_appdir_and_path :: "env \<Rightarrow> string \<times> string" where
  "capture_appdir_and_path e =
     ((case getenv e ''APPDIR'' of Some a \<Rightarrow> copy_trunc PATH_MAX a | None \<Rightarrow> []),
      (case getenv e ''PATH'' of Some p \<Rightarrow> copy_trunc PATH_MAX p | None \<Rightarrow> []))"

text \<open>\<open>setlocale e\<close> tells whether \<^verbatim>\<open>setlocale(LC_ALL, "")\<close> succeeds in the environment \<open>e\<close>.\<close>

fun try_fallbacks :: "(env \<Rightarrow> bool) \<Rightarrow> string list \<Rightarrow> env \<Rightarrow> env" where
  "try_fallbacks setlocale [] e = e"
| "try_fallbacks setlocale (fb # fbs) e =
     (let e = setenv e ''LC_ALL'' fb in if setlocale e then e else try_fallbacks setlocale fbs e)"

definition init_locale :: "(env \<Rightarrow> bool) \<Rightarrow> env \<Rightarrow> env" where
  "init_locale setlocale e =
     (if setlocale e then e
      else
        (let e = setenv e ''LOCPATH'' ''/usr/share/locale'' in
         if setlocale e then e
         else
           (let e = (case getenv e ''APPDIR'' of
                       Some (c # cs) \<Rightarrow>
                         setenv e ''LOCPATH'' (copy_trunc PATH_MAX ((c # cs) @ ''/shared/lib/locale''))
                     | _ \<Rightarrow> e);
                tried = (case getenv e ''APPDIR'' of Some (c # cs) \<Rightarrow> True | _ \<Rightarrow> False)
            in if tried \<and> setlocale e then e
               else try_fallbacks setlocale [''en_US.UTF-8'', ''C.UTF-8'', ''C''] e)))"

section \<open>bindtextdomain and dlopen\<close>

text \<open>
  \<open>real\<close> is the next library's function, \<^term>\<open>None\<close> when \<^verbatim>\<open>dlsym\<close> found none;
  \<open>override\<close> the value of \<^verbatim>\<open>TEXTDOMAINDIR\<close> at load time.
\<close>

definition bindtextdomain ::
    "(string option \<Rightarrow> string option \<Rightarrow> string option) option \<Rightarrow> string option \<Rightarrow> string option \<Rightarrow> string option
       \<Rightarrow> string option" where
  "bindtextdomain real override domainname dirname =
     (let nonempty = (case override of Some (c # cs) \<Rightarrow> True | _ \<Rightarrow> False);
          use_dir =
            (if dirname = Some ''/usr/share/locale'' then (if nonempty then override else dirname)
             else if dirname \<noteq> None \<and> strncmp_eq (the dirname) ''/tmp'' 4 then
               (if nonempty then override else dirname)
             else dirname)
      in case real of Some f \<Rightarrow> f domainname use_dir | None \<Rightarrow> None)"

definition tokens :: "string \<Rightarrow> string list" where
  "tokens s = filter (\<lambda>t. t \<noteq> []) (split_on (\<lambda>c. c = CHR '':'') [] s)"

definition base_name :: "string \<Rightarrow> string" where
  "base_name s = (case strrchr s slash of Some k \<Rightarrow> drop (Suc k) s | None \<Rightarrow> s)"

definition should_block_library :: "(string \<Rightarrow> string \<Rightarrow> bool) \<Rightarrow> env \<Rightarrow> string option \<Rightarrow> bool" where
  "should_block_library fnm e filename =
     (case filename of
        None \<Rightarrow> False
      | Some filename \<Rightarrow>
          (case getenv e ''ANYLINUX_DO_NOT_LOAD_LIBS'' of
             None \<Rightarrow> False
           | Some blocklist \<Rightarrow>
               if blocklist = [] then False
               else list_ex (\<lambda>token. fnm token (base_name filename) \<or> fnm token filename) (tokens blocklist)))"

text \<open>
  \<open>orig\<close> maps the calls to handles (\<^term>\<open>None\<close> for NULL); the result lists the names that
  reach the real function, and the returned handle.
\<close>

definition dlopen_orig_missing :: string where
  "dlopen_orig_missing = ''/anylinux_blocked_lib_that_does_not_exist.so''"

definition dlopen ::
    "(string \<Rightarrow> string \<Rightarrow> bool) \<Rightarrow> env \<Rightarrow> (string option \<Rightarrow> nat \<Rightarrow> nat option) option \<Rightarrow> string option \<Rightarrow> nat
       \<Rightarrow> string option list \<times> nat option" where
  "dlopen fnm e orig filename flags =
     (case orig of
        None \<Rightarrow> ([], None)
      | Some f \<Rightarrow>
          if filename \<noteq> None \<and> should_block_library fnm e filename
          then ([Some dlopen_orig_missing], None)
          else ([filename], f filename flags))"

section \<open>The environment of a child\<close>

definition vars_to_unset :: "string list" where
  "vars_to_unset = [
     ''ALSA_CONFIG_PATH'', ''BABL_PATH'', ''__EGL_VENDOR_LIBRARY_DIRS'',
     ''__EGL_VENDOR_LIBRARY_FILENAMES'', ''FOLKS_BACKEND_PATH'', ''FREI0R_PATH'',
     ''GBM_BACKENDS_PATH'', ''GCONV_PATH'', ''GDK_PIXBUF_MODULEDIR'', ''GDK_PIXBUF_MODULE_FILE'',
     ''GEGL_PATH'', ''GIO_MODULE_DIR'', ''GI_TYPELIB_PATH'', ''GSETTINGS_SCHEMA_DIR'', ''GS_LIB'',
     ''GST_PLUGIN_PATH'', ''GST_PLUGIN_SCANNER'', ''GST_PLUGIN_SYSTEM_PATH'',
     ''GST_PLUGIN_SYSTEM_PATH_1_0'', ''GTK_DATA_PREFIX'', ''GTK_EXE_PREFIX'',
     ''GTK_IM_MODULE_FILE'', ''GTK_PATH'', ''IMLIB2_FILTER_PATH'', ''IMLIB2_LOADER_PATH'',
     ''JACK_DRIVER_DIR'', ''LADSPA_PATH'', ''LD_LIBRARY_PATH'', ''LD_PRELOAD'',
     ''LIBDECOR_PLUGIN_DIR'', ''LIBGL_DRIVERS_PATH'', ''LIBHEIF_PLUGIN_PATH'',
     ''LIBVA_DRIVERS_PATH'', ''LOCPATH'', ''MAGIC'', ''MAGICK_CODER_FILTER_PATH'',
     ''MAGICK_CODER_MODULE_PATH'', ''MAGICK_CONFIGURE_PATH'', ''MAGICK_HOME'',
     ''MLT_PRESETS_PATH'', ''MLT_PROFILES_PATH'', ''MLT_REPOSITORY'', ''OPENSSL_CONF'',
     ''PATH_MAPPING'', ''PATH_MAPPING_EXCLUDE'', ''PERLLIB'', ''PEAS_PLUGIN_LOADERS_DIR'',
     ''PIPEWIRE_CONFIG_DIR'', ''PIPEWIRE_MODULE_DIR'', ''PYTHONHOME'', ''QT_PLUGIN_PATH'',
     ''SPA_PLUGIN_DIR'', ''TCL_LIBRARY'', ''TEXTDOMAINDIR'', ''TK_LIBRARY'', ''VK_DRIVER_FILES'',
     ''WEBKIT_EXEC_PATH'', ''WEBKIT_INJECTED_BUNDLE_PATH'', ''QT_XKB_CONFIG_ROOT'',
     ''XKB_CONFIG_ROOT'', ''XTABLES_LIBDIR'']"

definition drop_entry :: "string \<Rightarrow> string \<Rightarrow> bool" where
  "drop_entry appdir entry =
     list_ex (\<lambda>var. strncmp_eq entry var (length var) \<and> drop (length var) entry \<noteq> []
          \<and> entry ! length var = CHR ''=''
          \<and> (let value = drop (length var + 1) entry in
             strstr value appdir \<or> var = ''LD_PRELOAD'' \<and> strstr value ''anylinux.so'')) vars_to_unset"

text \<open>\<open>environ\<close> answers \<^verbatim>\<open>getenv\<close>; the second argument is the array that is cleaned.\<close>

definition create_cleaned_env :: "env \<Rightarrow> env \<Rightarrow> env" where
  "create_cleaned_env environ original_env =
     (case getenv environ ''APPDIR'' of
        None \<Rightarrow> original_env
      | Some appdir \<Rightarrow> filter (\<lambda>entry. \<not> drop_entry appdir entry) original_env)"

definition is_external_process :: "env \<Rightarrow> string \<Rightarrow> bool" where
  "is_external_process environ filename =
     (case getenv environ ''APPDIR'' of
        None \<Rightarrow> False
      | Some appdir \<Rightarrow> \<not> strncmp_eq filename appdir (min (length filename) (length appdir)))"

definition restore_var :: "string \<Rightarrow> string \<Rightarrow> env \<Rightarrow> env" where
  "restore_var src dst e = (case getenv e src of Some (c # cs) \<Rightarrow> setenv e dst (c # cs) | _ \<Rightarrow> e)"

definition restore_portable_dirs :: "env \<Rightarrow> env" where
  "restore_portable_dirs e =
     (let e = restore_var ''REAL_XDG_DATA_HOME'' ''XDG_DATA_HOME'' e;
          e = restore_var ''REAL_XDG_CONFIG_HOME'' ''XDG_CONFIG_HOME'' e;
          e = restore_var ''REAL_XDG_CACHE_HOME'' ''XDG_CACHE_HOME'' e;
          e = (if getenv e ''USE_HOST_XDG_CACHE_HOME'' \<noteq> Some ''1''
               then restore_var ''HOST_XDG_CACHE_HOME'' ''XDG_CACHE_HOME'' e else e)
      in restore_var ''REAL_HOME'' ''HOME'' e)"

text \<open>
  The environment argument of an \<^verbatim>\<open>exec\<close> function: \<^verbatim>\<open>environ\<close> itself, or
  an array of the caller. \<^verbatim>\<open>setenv\<close> overwrites a variable in place but may move the array
  to add one, and then a pointer to the old array must not be read: \<open>envp_view\<close> gives
  \<^term>\<open>None\<close> for that.
\<close>

datatype envp = Environ | Own env

definition envp_view :: "env \<Rightarrow> env \<Rightarrow> envp \<Rightarrow> env option" where
  "envp_view before after envp =
     (case envp of
        Own v \<Rightarrow> Some v
      | Environ \<Rightarrow> if length after = length before then Some after else None)"

definition has_path :: "env \<Rightarrow> bool" where
  "has_path env = list_ex (\<lambda>e. strncmp_eq e ''PATH='' 5 \<and> drop 5 e \<noteq> []) env"

definition path_buf_size :: nat where "path_buf_size = PATH_MAX + PATH_MAX + 10"

definition path_buf :: "string \<Rightarrow> string \<Rightarrow> string" where
  "path_buf saved_appdir saved_path =
     copy_trunc path_buf_size
       (''PATH='' @ saved_appdir @ ''/bin:'' @ (if saved_path \<noteq> [] then saved_path else ''/usr/bin:/bin''))"

definition ensure_path :: "string \<Rightarrow> string \<Rightarrow> env \<Rightarrow> env \<Rightarrow> env \<times> env" where
  "ensure_path saved_appdir saved_path environ env =
     (if saved_appdir \<noteq> [] \<and> \<not> has_path env then
        (setenv environ ''PATH'' (drop 5 (path_buf saved_appdir saved_path)),
         env @ [path_buf saved_appdir saved_path])
      else (environ, env))"

text \<open>
  The result of \<^verbatim>\<open>exec_common\<close>: the process environment and the one given to the real
  function, which gets the path and the arguments unchanged.
\<close>

definition exec_common ::
    "(string \<Rightarrow> string option) \<Rightarrow> string \<times> string \<Rightarrow> env \<Rightarrow> string \<Rightarrow> envp \<Rightarrow> (env \<times> env) option" where
  "exec_common canon saved environ filename envp =
     (let environ = unsetenv environ ''LD_DEBUG'';
          path_to_check = (case canon filename of Some p \<Rightarrow> p | None \<Rightarrow> filename);
          basename = base_name filename
      in do {
        (environ', env) \<leftarrow>
          (if is_external_process environ path_to_check
              \<or> basename = ''xdg-open'' \<or> basename = ''gio-launch-desktop''
           then
             (let environ' = restore_portable_dirs environ in do {
                view \<leftarrow> envp_view environ environ' envp;
                Some (environ', create_cleaned_env environ' view)
              })
           else do {
             view \<leftarrow> envp_view environ environ envp;
             Some (environ, view)
           });
        Some (ensure_path (fst saved) (snd saved) environ' env)
      })"

definition spawn_common :: "(string \<Rightarrow> string option) \<Rightarrow> env \<Rightarrow> string \<Rightarrow> envp \<Rightarrow> env option" where
  "spawn_common canon environ path envp =
     (let path_to_check = (case canon path of Some p \<Rightarrow> p | None \<Rightarrow> path) in do {
        view \<leftarrow> envp_view environ environ envp;
        Some (if is_external_process environ path_to_check then create_cleaned_env environ view else view)
      })"

text \<open>
  The exported functions. \<open>have\<close> tells whether \<^verbatim>\<open>dlsym\<close> finds the next function; without
  it the call fails with \<^verbatim>\<open>ENOSYS\<close>. The result names the next function with the path, the
  arguments and the environment it gets.
\<close>

datatype start_error = ENOSYS

record start =
  start_fn :: string
  start_path :: string
  start_argv :: "string list"
  start_env :: env
  start_environ :: env

definition start_exec ::
    "string \<Rightarrow> (string \<Rightarrow> string option) \<Rightarrow> string \<times> string \<Rightarrow> env \<Rightarrow> string \<Rightarrow> string list \<Rightarrow> envp
       \<Rightarrow> (start_error + start) option" where
  "start_exec fn canon saved environ filename argv envp = do {
     (environ', env) \<leftarrow> exec_common canon saved environ filename envp;
     Some (Inr \<lparr>start_fn = fn, start_path = filename, start_argv = argv, start_env = env, start_environ = environ'\<rparr>)
   }"

definition anylinux_execve ::
    "(string \<Rightarrow> bool) \<Rightarrow> (string \<Rightarrow> string option) \<Rightarrow> string \<times> string \<Rightarrow> env \<Rightarrow> string \<Rightarrow> string list \<Rightarrow> envp
       \<Rightarrow> (start_error + start) option" where
  "anylinux_execve have canon saved environ filename argv envp =
     (if \<not> have ''execve'' then Some (Inl ENOSYS)
      else start_exec ''execve'' canon saved environ filename argv envp)"

definition anylinux_execv ::
    "(string \<Rightarrow> bool) \<Rightarrow> (string \<Rightarrow> string option) \<Rightarrow> string \<times> string \<Rightarrow> env \<Rightarrow> string \<Rightarrow> string list
       \<Rightarrow> (start_error + start) option" where
  "anylinux_execv have canon saved environ filename argv =
     anylinux_execve have canon saved environ filename argv Environ"

definition anylinux_execvpe ::
    "(string \<Rightarrow> bool) \<Rightarrow> (string \<Rightarrow> string option) \<Rightarrow> string \<times> string \<Rightarrow> env \<Rightarrow> string \<Rightarrow> string list \<Rightarrow> envp
       \<Rightarrow> (start_error + start) option" where
  "anylinux_execvpe have canon saved environ filename argv envp =
     (if \<not> have ''execvpe'' then Some (Inl ENOSYS)
      else start_exec ''execvpe'' canon saved environ filename argv envp)"

definition anylinux_execvp ::
    "(string \<Rightarrow> bool) \<Rightarrow> (string \<Rightarrow> string option) \<Rightarrow> string \<times> string \<Rightarrow> env \<Rightarrow> string \<Rightarrow> string list
       \<Rightarrow> (start_error + start) option" where
  "anylinux_execvp have canon saved environ filename argv =
     anylinux_execvpe have canon saved environ filename argv Environ"

definition anylinux_posix_spawn ::
    "(string \<Rightarrow> bool) \<Rightarrow> (string \<Rightarrow> string option) \<Rightarrow> env \<Rightarrow> string \<Rightarrow> string list \<Rightarrow> envp
       \<Rightarrow> (start_error + start) option" where
  "anylinux_posix_spawn have canon environ path argv envp =
     (if \<not> have ''posix_spawn'' then Some (Inl ENOSYS)
      else do {
        env \<leftarrow> spawn_common canon environ path envp;
        Some (Inr \<lparr>start_fn = ''posix_spawn'', start_path = path, start_argv = argv, start_env = env,
          start_environ = environ\<rparr>)
      })"

definition anylinux_posix_spawnp ::
    "(string \<Rightarrow> bool) \<Rightarrow> (string \<Rightarrow> string option) \<Rightarrow> env \<Rightarrow> string \<Rightarrow> string list \<Rightarrow> envp
       \<Rightarrow> (start_error + start) option" where
  "anylinux_posix_spawnp have canon environ file argv envp =
     (if \<not> have ''posix_spawnp'' then Some (Inl ENOSYS)
      else do {
        env \<leftarrow> spawn_common canon environ file envp;
        Some (Inr \<lparr>start_fn = ''posix_spawnp'', start_path = file, start_argv = argv, start_env = env,
          start_environ = environ\<rparr>)
      })"

section \<open>Name services and the auxiliary vector\<close>

definition nss_overrides :: "(string \<times> string) list" where
  "nss_overrides =
     [(''aliases'', ''files''), (''ethers'', ''files''), (''group'', ''files''), (''gshadow'', ''files''),
      (''hosts'', ''files dns''), (''initgroups'', ''files''), (''netgroup'', ''files''),
      (''networks'', ''files''), (''passwd'', ''files''), (''protocols'', ''files''),
      (''publickey'', ''files''), (''rpc'', ''files''), (''services'', ''files''), (''shadow'', ''files'')]"

text \<open>\<open>lookup\<close> is \<^verbatim>\<open>__nss_configure_lookup\<close> over a state of the C library.\<close>

definition init_nssfix :: "(string \<Rightarrow> string \<Rightarrow> 's \<Rightarrow> 's) option \<Rightarrow> 's \<Rightarrow> 's" where
  "init_nssfix lookup s =
     (case lookup of None \<Rightarrow> s | Some f \<Rightarrow> fold (\<lambda>(db, line). f db line) nss_overrides s)"

definition init_execfn :: "(string \<Rightarrow> nat \<Rightarrow> int \<times> string) \<Rightarrow> string option" where
  "init_execfn readlink =
     (let (n, b) = readlink ''/proc/self/exe'' (PATH_MAX - 1)
      in if 0 < n \<and> b \<noteq> [] \<and> hd b = slash then Some (take (nat n) b) else None)"

definition caller_is_qt6core :: "string option \<Rightarrow> bool" where
  "caller_is_qt6core dli_fname =
     (case dli_fname of None \<Rightarrow> False | Some f \<Rightarrow> strncmp_eq (base_name f) ''libQt6Core.so'' 13)"

definition AT_EXECFN :: nat where "AT_EXECFN = 31"

text \<open>A value is a number, or the address of the saved path.\<close>

datatype auxval = Value nat | ExecfnPath string

definition getauxval :: "(nat \<Rightarrow> nat) option \<Rightarrow> string option \<Rightarrow> string option \<Rightarrow> nat \<Rightarrow> auxval" where
  "getauxval orig execfn dli_fname type =
     (case execfn of
        Some p \<Rightarrow>
          if type = AT_EXECFN \<and> caller_is_qt6core dli_fname then ExecfnPath p
          else (case orig of Some f \<Rightarrow> Value (f type) | None \<Rightarrow> Value 0)
      | None \<Rightarrow> (case orig of Some f \<Rightarrow> Value (f type) | None \<Rightarrow> Value 0))"

end
