(* ===== verification/AnylinuxSpec.thy ===== *)
theory AnylinuxSpec
  imports Anylinux
begin

text \<open>
  What \<^verbatim>\<open>anylinux.c\<close> promises for the programs it starts: no listed variable that
  points into the AppImage reaches an external program, every other variable does, and the child
  finds the AppImage's programs in \<^verbatim>\<open>PATH\<close>.
\<close>

section \<open>Cleaning\<close>

lemma vars_are_names: "list_all var_name vars_to_unset"
  by code_simp

lemma path_not_listed: "''PATH'' \<notin> set vars_to_unset"
  by code_simp

lemma entry_of_iff:
  "entry_of k e \<longleftrightarrow> strncmp_eq e k (length k) \<and> drop (length k) e \<noteq> [] \<and> e ! length k = CHR ''=''"
proof
  assume "entry_of k e"
  then show "strncmp_eq e k (length k) \<and> drop (length k) e \<noteq> [] \<and> e ! length k = CHR ''=''"
    by (auto simp: entry_of_def prefix_def strncmp_eq_def nth_append)
next
  assume a: "strncmp_eq e k (length k) \<and> drop (length k) e \<noteq> [] \<and> e ! length k = CHR ''=''"
  then have "length k < length e" by simp
  then have "e = take (length k) e @ e ! length k # drop (Suc (length k)) e"
    by (rule id_take_nth_drop)
  with a have "e = k @ CHR ''='' # drop (Suc (length k)) e"
    by (simp add: strncmp_eq_def)
  then show "entry_of k e" unfolding entry_of_def prefix_def by (metis append.assoc append_Cons append_Nil)
qed

lemma drop_entry_iff:
  "drop_entry appdir e \<longleftrightarrow>
     (\<exists>var\<in>set vars_to_unset. entry_of var e
        \<and> (strstr (entry_value var e) appdir \<or> var = ''LD_PRELOAD'' \<and> strstr (entry_value var e) ''anylinux.so''))"
  by (auto simp: drop_entry_def list_ex_iff entry_of_iff entry_value_def Let_def)

lemma cleaned_entries:
  assumes "getenv environ ''APPDIR'' = Some appdir" and "e \<in> set (create_cleaned_env environ v)"
    and "var \<in> set vars_to_unset" and "entry_of var e"
  shows "\<not> strstr (entry_value var e) appdir"
  using assms by (auto simp: create_cleaned_env_def drop_entry_iff)

lemma cleaned_others:
  assumes "var_name k" and "k \<notin> set vars_to_unset"
  shows "getenv (create_cleaned_env environ v) k = getenv v k"
proof (cases "getenv environ ''APPDIR''")
  case (Some appdir)
  have "\<not> drop_entry appdir e" if e: "entry_of k e" for e
  proof
    assume "drop_entry appdir e"
    then obtain var where var: "var \<in> set vars_to_unset" "entry_of var e"
      by (auto simp: drop_entry_iff)
    then have "var = k"
      using name_unique [OF _ _ var(2) e] assms(1) vars_are_names by (auto simp: var_name_def list_all_iff)
    with var(1) assms(2) show False by simp
  qed
  then show ?thesis using Some by (simp add: create_cleaned_env_def getenv_filter)
qed (simp add: create_cleaned_env_def)

section \<open>Portable directories\<close>

lemma restore_var_restore: "restore_var = environ.restore"
  by (intro ext) (simp add: restore_var_def environ.restore_def split: option.split list.split)

definition nonempty :: "string option \<Rightarrow> bool" where
  "nonempty v \<longleftrightarrow> v \<noteq> None \<and> v \<noteq> Some []"

lemma getenv_restore_var:
  assumes "var_name src" and "var_name dst" and "var_name k"
  shows "getenv (restore_var src dst e) k = (if k = dst \<and> nonempty (getenv e src) then getenv e src else getenv e k)"
  using environ.get_restore [OF assms] by (simp add: restore_var_restore nonempty_def)

lemma portable_names:
  "list_all var_name [''REAL_XDG_DATA_HOME'', ''XDG_DATA_HOME'', ''REAL_XDG_CONFIG_HOME'', ''XDG_CONFIG_HOME'',
     ''REAL_XDG_CACHE_HOME'', ''XDG_CACHE_HOME'', ''HOST_XDG_CACHE_HOME'', ''USE_HOST_XDG_CACHE_HOME'',
     ''REAL_HOME'', ''HOME'', ''APPDIR'', ''PATH'', ''LD_DEBUG'']"
  by code_simp

lemmas portable_name = portable_names [unfolded list.pred_inject simp_thms]

lemma getenv_portable:
  assumes "var_name k"
  shows "getenv (restore_portable_dirs e) k =
     (if k = ''HOME'' \<and> nonempty (getenv e ''REAL_HOME'') then getenv e ''REAL_HOME''
      else if k = ''XDG_CACHE_HOME'' \<and> getenv e ''USE_HOST_XDG_CACHE_HOME'' \<noteq> Some ''1''
         \<and> nonempty (getenv e ''HOST_XDG_CACHE_HOME'') then getenv e ''HOST_XDG_CACHE_HOME''
      else if k = ''XDG_CACHE_HOME'' \<and> nonempty (getenv e ''REAL_XDG_CACHE_HOME'')
        then getenv e ''REAL_XDG_CACHE_HOME''
      else if k = ''XDG_CONFIG_HOME'' \<and> nonempty (getenv e ''REAL_XDG_CONFIG_HOME'')
        then getenv e ''REAL_XDG_CONFIG_HOME''
      else if k = ''XDG_DATA_HOME'' \<and> nonempty (getenv e ''REAL_XDG_DATA_HOME'')
        then getenv e ''REAL_XDG_DATA_HOME''
      else getenv e k)"
  using assms portable_name
  by (simp add: restore_portable_dirs_def Let_def getenv_restore_var)

section \<open>PATH\<close>

lemma path_entry: "entry_of ''PATH'' e \<longleftrightarrow> take 5 e = ''PATH=''"
  using take_eq_take_prefix [of "''PATH=''" e] by (simp add: entry_of_def eval_nat_numeral)

lemma path_buf_entry: "entry_of ''PATH'' (path_buf a p)"
  by (simp add: path_entry path_buf_def copy_trunc_def path_buf_size_def PATH_MAX_def)

definition full_path :: "string \<Rightarrow> string \<Rightarrow> string" where
  "full_path a p = a @ ''/bin:'' @ (if p \<noteq> [] then p else ''/usr/bin:/bin'')"

lemma path_buf_full:
  assumes "length a < PATH_MAX" and "length p < PATH_MAX"
  shows "path_buf a p = mk_entry ''PATH'' (full_path a p)"
proof -
  have "length (''PATH='' @ full_path a p) < path_buf_size"
    using assms by (simp add: full_path_def path_buf_size_def PATH_MAX_def)
  then show ?thesis
    by (simp add: path_buf_def full_path_def mk_entry_def)
qed

lemma no_path: "getenv env ''PATH'' = None \<Longrightarrow> \<not> has_path env"
  by (induction env) (auto simp: has_path_def path_entry strncmp_eq_def split: if_splits)

lemma ensure_path_new:
  assumes "getenv env ''PATH'' = None" and "a \<noteq> []" and "length a < PATH_MAX" and "length p < PATH_MAX"
  shows "getenv (snd (ensure_path a p environ env)) ''PATH'' = Some (full_path a p)
     \<and> getenv (fst (ensure_path a p environ env)) ''PATH'' = Some (full_path a p)"
  using assms no_path [OF assms(1)] portable_name
  by (simp add: ensure_path_def path_buf_full getenv_append getenv_setenv) (simp add: mk_entry_def)

lemma ensure_path_others:
  assumes "var_name k" and "k \<noteq> ''PATH''"
  shows "getenv (snd (ensure_path a p environ env)) k = getenv env k"
proof -
  have "\<not> entry_of k (path_buf a p)"
    using name_unique [OF _ _ path_buf_entry] assms portable_name by (auto simp: var_name_def)
  then show ?thesis by (simp add: ensure_path_def getenv_append split: option.split)
qed

lemma ensure_path_entries:
  "e \<in> set (snd (ensure_path a p environ env)) \<Longrightarrow> e \<in> set env \<or> e = path_buf a p"
  by (auto simp: ensure_path_def split: if_splits)

section \<open>The exec functions\<close>

definition cleans :: "(string \<Rightarrow> string option) \<Rightarrow> env \<Rightarrow> string \<Rightarrow> bool" where
  "cleans canon environ filename \<longleftrightarrow>
     is_external_process environ (case canon filename of Some p \<Rightarrow> p | None \<Rightarrow> filename)
     \<or> base_name filename = ''xdg-open'' \<or> base_name filename = ''gio-launch-desktop''"

lemma external_unset [simp]: "is_external_process (unsetenv environ ''LD_DEBUG'') f = is_external_process environ f"
  using portable_name by (simp add: is_external_process_def getenv_unsetenv)

lemma exec_common_own:
  "exec_common canon saved environ filename (Own v) =
     (let e = unsetenv environ ''LD_DEBUG'';
          e' = (if cleans canon environ filename then restore_portable_dirs e else e);
          env = (if cleans canon environ filename then create_cleaned_env e' v else v)
      in Some (ensure_path (fst saved) (snd saved) e' env))"
  by (auto simp: exec_common_def cleans_def envp_view_def Let_def)

lemma exec_common_view:
  assumes "exec_common canon saved environ filename envp = Some (environ', env)"
  obtains e view where "e = (if cleans canon environ filename
        then restore_portable_dirs (unsetenv environ ''LD_DEBUG'') else unsetenv environ ''LD_DEBUG'')"
    and "ensure_path (fst saved) (snd saved) e (if cleans canon environ filename then create_cleaned_env e view else view)
      = (environ', env)"
    and "view = (case envp of Own v \<Rightarrow> v | Environ \<Rightarrow> e)"
  using assms
  by (auto simp: exec_common_def cleans_def envp_view_def Let_def split: envp.splits if_splits Option.bind_splits)

lemma appdir_kept:
  "getenv (if c then restore_portable_dirs (unsetenv environ ''LD_DEBUG'') else unsetenv environ ''LD_DEBUG'') ''APPDIR''
     = getenv environ ''APPDIR''"
  using portable_name by (simp add: getenv_portable getenv_unsetenv)

lemma exec_child_clean:
  assumes "exec_common canon saved environ filename envp = Some (environ', env)"
    and "cleans canon environ filename" and "getenv environ ''APPDIR'' = Some appdir"
    and "e \<in> set env" and "var \<in> set vars_to_unset" and "entry_of var e"
  shows "\<not> strstr (entry_value var e) appdir"
proof -
  from assms(1) obtain e0 view where view:
      "e0 = (if cleans canon environ filename
        then restore_portable_dirs (unsetenv environ ''LD_DEBUG'') else unsetenv environ ''LD_DEBUG'')"
      "ensure_path (fst saved) (snd saved) e0 (if cleans canon environ filename then create_cleaned_env e0 view else view)
        = (environ', env)"
    by (rule exec_common_view) blast
  have app: "getenv e0 ''APPDIR'' = Some appdir"
    using appdir_kept view(1) assms(3) by simp
  have "e \<in> set (create_cleaned_env e0 view) \<or> e = path_buf (fst saved) (snd saved)"
    using ensure_path_entries [of e "fst saved" "snd saved" e0 "create_cleaned_env e0 view"] view(2) assms(2,4)
    by simp
  moreover have "e \<noteq> path_buf (fst saved) (snd saved)"
  proof
    assume "e = path_buf (fst saved) (snd saved)"
    then have "var = ''PATH''"
      using name_unique [OF _ _ assms(6)] path_buf_entry assms(5) vars_are_names portable_name
      by (auto simp: var_name_def list_all_iff)
    with assms(5) path_not_listed show False by simp
  qed
  ultimately show ?thesis using cleaned_entries [OF app _ assms(5,6)] by blast
qed

lemma exec_keeps_others:
  assumes "exec_common canon saved environ filename (Own v) = Some (environ', env)"
    and "var_name k" and "k \<notin> set vars_to_unset" and "k \<noteq> ''PATH''"
  shows "getenv env k = getenv v k"
  using assms(1) ensure_path_others [OF assms(2,4)] cleaned_others [OF assms(2,3)]
  by (auto simp: exec_common_own Let_def prod_eq_iff split: if_splits)

lemma exec_has_path:
  assumes "exec_common canon saved environ filename (Own v) = Some (environ', env)"
    and "getenv v ''PATH'' = None" and "fst saved \<noteq> []"
    and "length (fst saved) < PATH_MAX" and "length (snd saved) < PATH_MAX"
  shows "getenv env ''PATH'' = Some (full_path (fst saved) (snd saved))
     \<and> getenv environ' ''PATH'' = Some (full_path (fst saved) (snd saved))"
proof -
  have "getenv (if cleans canon environ filename then create_cleaned_env e v else v) ''PATH'' = None" for e
    using assms(2) cleaned_others [of "''PATH''"] portable_name path_not_listed by simp
  note new = ensure_path_new [OF this assms(3-5)]
  let ?e = "if cleans canon environ filename then restore_portable_dirs (unsetenv environ ''LD_DEBUG'')
    else unsetenv environ ''LD_DEBUG''"
  have "ensure_path (fst saved) (snd saved) ?e
      (if cleans canon environ filename then create_cleaned_env ?e v else v) = (environ', env)"
    using assms(1) by (simp add: exec_common_own Let_def)
  with new [of ?e ?e] show ?thesis by (simp only: fst_conv snd_conv)
qed

lemma external_iff:
  assumes "getenv environ ''APPDIR'' = Some appdir"
  shows "is_external_process environ f \<longleftrightarrow> \<not> prefix f appdir \<and> \<not> prefix appdir f"
  using assms
  by (auto simp: is_external_process_def strncmp_eq_def min_def prefix_def split: if_splits)
    (metis append_take_drop_id)+

section \<open>Locale and libraries\<close>

lemma try_fallbacks_ok:
  assumes "\<And>e. getenv e ''LC_ALL'' = Some ''C'' \<Longrightarrow> setlocale e" and "''C'' \<in> set fbs"
  shows "setlocale (try_fallbacks setlocale fbs e)"
  using assms(2)
proof (induction fbs arbitrary: e)
  case (Cons fb fbs)
  have "setlocale (setenv e ''LC_ALL'' ''C'')"
    by (rule assms(1)) (simp add: getenv_setenv var_name_def)
  with Cons show ?case by (auto simp: Let_def)
qed simp

lemma try_fallbacks_others:
  "var_name k \<Longrightarrow> k \<noteq> ''LC_ALL'' \<Longrightarrow> getenv (try_fallbacks setlocale fbs e) k = getenv e k"
  by (induction fbs arbitrary: e) (auto simp: Let_def getenv_setenv var_name_def)

section \<open>Properties\<close>

text \<open>C6: No external program inherits a listed variable that points into the AppImage: after
  \<^verbatim>\<open>exec\<close>, no entry for a variable of \<^verbatim>\<open>vars_to_unset\<close> has
  \<^verbatim>\<open>APPDIR\<close> in its value.\<close>

theorem external_child_is_clean:
  assumes "exec_common canon saved environ filename envp = Some (environ', env)"
    and "cleans canon environ filename" and "getenv environ ''APPDIR'' = Some appdir"
    and "e \<in> set env" and "var \<in> set vars_to_unset" and "entry_of var e"
  shows "\<not> strstr (entry_value var e) appdir"
  using assms by (rule exec_child_clean)

definition sample_environ :: env where
  "sample_environ = [''APPDIR=/app'', ''HOME=/app.home'', ''REAL_HOME=/home/u'']"

lemma external_child_is_clean_witness:
  "\<not> strstr (entry_value ''LD_LIBRARY_PATH'' ''LD_LIBRARY_PATH=/opt'') ''/app''"
proof (rule external_child_is_clean)
  show "exec_common (\<lambda>p. None) (''/app'', ''/bin'') sample_environ ''/usr/bin/ls''
      (Own [''LD_PRELOAD=/app/x.so'', ''LD_LIBRARY_PATH=/opt'', ''PATH=/bin''])
    = Some ([''APPDIR=/app'', ''HOME=/home/u'', ''REAL_HOME=/home/u''], [''LD_LIBRARY_PATH=/opt'', ''PATH=/bin''])"
    by code_simp
qed code_simp+



text \<open>C16: A program that dropped \<^verbatim>\<open>PATH\<close> still finds the AppImage's programs: the child
  and the process itself get the saved \<^verbatim>\<open>APPDIR/bin\<close> first and the saved
  \<^verbatim>\<open>PATH\<close> after it, never truncated by the buffer.\<close>

theorem child_finds_appdir_programs:
  assumes "exec_common canon (capture_appdir_and_path start) environ filename (Own v) = Some (environ', env)"
    and "getenv v ''PATH'' = None" and "fst (capture_appdir_and_path start) \<noteq> []"
  shows "getenv env ''PATH'' = Some (full_path (fst (capture_appdir_and_path start)) (snd (capture_appdir_and_path start)))
     \<and> getenv environ' ''PATH'' = getenv env ''PATH''"
proof -
  have "length (fst (capture_appdir_and_path start)) < PATH_MAX" "length (snd (capture_appdir_and_path start)) < PATH_MAX"
    by (auto simp: capture_appdir_and_path_def length_copy_trunc PATH_MAX_def split: option.split)
  then show ?thesis using exec_has_path [OF assms] by simp
qed

lemma child_finds_appdir_programs_witness:
  "getenv [''TERM=xterm'', ''PATH=/app/bin:/usr/bin:/bin''] ''PATH'' = Some ''/app/bin:/usr/bin:/bin''"
proof -
  have saved: "capture_appdir_and_path sample_environ = (''/app'', [])" by code_simp
  have own: "exec_common (\<lambda>p. None) (capture_appdir_and_path sample_environ) [] ''ls'' (Own [''TERM=xterm''])
    = Some ([''PATH=/app/bin:/usr/bin:/bin''], [''TERM=xterm'', ''PATH=/app/bin:/usr/bin:/bin''])"
    unfolding saved by code_simp
  have "getenv [''TERM=xterm''] ''PATH'' = None" by code_simp
  from child_finds_appdir_programs [OF own this] show ?thesis
    by (simp add: saved full_path_def)
qed

text \<open>C34: Before an external program is started the portable directories are undone in the process
  environment: \<^verbatim>\<open>HOME\<close> and the XDG directories get their saved real values, the host cache
  directory wins over the real one, and nothing else changes.\<close>

theorem portable_directories_are_restored:
  assumes "var_name k"
  shows "getenv (restore_portable_dirs e) k =
     (if k = ''HOME'' \<and> nonempty (getenv e ''REAL_HOME'') then getenv e ''REAL_HOME''
      else if k = ''XDG_CACHE_HOME'' \<and> getenv e ''USE_HOST_XDG_CACHE_HOME'' \<noteq> Some ''1''
         \<and> nonempty (getenv e ''HOST_XDG_CACHE_HOME'') then getenv e ''HOST_XDG_CACHE_HOME''
      else if k = ''XDG_CACHE_HOME'' \<and> nonempty (getenv e ''REAL_XDG_CACHE_HOME'')
        then getenv e ''REAL_XDG_CACHE_HOME''
      else if k = ''XDG_CONFIG_HOME'' \<and> nonempty (getenv e ''REAL_XDG_CONFIG_HOME'')
        then getenv e ''REAL_XDG_CONFIG_HOME''
      else if k = ''XDG_DATA_HOME'' \<and> nonempty (getenv e ''REAL_XDG_DATA_HOME'')
        then getenv e ''REAL_XDG_DATA_HOME''
      else getenv e k)"
  using assms by (rule getenv_portable)

lemma portable_directories_are_restored_witness:
  "getenv (restore_portable_dirs sample_environ) ''HOME'' = Some ''/home/u''"
proof -
  have "var_name ''HOME''" by code_simp
  moreover have "getenv sample_environ ''REAL_HOME'' = Some ''/home/u''" by code_simp
  ultimately show ?thesis
    using portable_directories_are_restored [of "''HOME''" sample_environ] by (simp add: nonempty_def)
qed


text \<open>C33: A broken locale is repaired: as long as the C library accepts the locale
  \<^verbatim>\<open>C\<close>, the environment after the constructor has a working locale. A working locale
  is left alone, and only \<^verbatim>\<open>LC_ALL\<close> and \<^verbatim>\<open>LOCPATH\<close> are ever touched.\<close>

theorem broken_locale_is_repaired:
  assumes "\<forall>e. getenv e ''LC_ALL'' = Some ''C'' \<longrightarrow> setlocale e"
  shows "setlocale (init_locale setlocale e)
   \<and> (setlocale e \<longrightarrow> init_locale setlocale e = e)
   \<and> (var_name k \<and> k \<noteq> ''LC_ALL'' \<and> k \<noteq> ''LOCPATH'' \<longrightarrow> getenv (init_locale setlocale e) k = getenv e k)"
proof (intro conjI impI)
  show "setlocale (init_locale setlocale e)"
    using assms try_fallbacks_ok [of setlocale "[''en_US.UTF-8'', ''C.UTF-8'', ''C'']"]
    by (simp add: init_locale_def Let_def)
  show "init_locale setlocale e = e" if "setlocale e"
    using that by (simp add: init_locale_def)
  assume k: "var_name k \<and> k \<noteq> ''LC_ALL'' \<and> k \<noteq> ''LOCPATH''"
  moreover have "var_name ''LOCPATH''" by (simp add: var_name_def)
  ultimately have "getenv (setenv e' ''LOCPATH'' v) k = getenv e' k" for e' v
    using getenv_setenv [of "''LOCPATH''" k e' v] by auto
  with k try_fallbacks_others show "getenv (init_locale setlocale e) k = getenv e k"
    by (auto simp: init_locale_def Let_def simp del: try_fallbacks.simps split: option.splits list.splits)
qed

lemma broken_locale_is_repaired_witness:
  "let ok = (\<lambda>e. getenv e ''LC_ALL'' = Some ''C'') in
     ok (init_locale ok sample_environ) \<and> getenv (init_locale ok sample_environ) ''HOME'' = getenv sample_environ ''HOME''"
  using broken_locale_is_repaired [of "\<lambda>e. getenv e ''LC_ALL'' = Some ''C''" sample_environ "''HOME''"]
  by (simp add: var_name_def Let_def)

end
