(* ===== verification/Linker.thy ===== *)
theory Linker
  imports EnvStore
begin

text \<open>
  The dynamic linker as \<^verbatim>\<open>gtk-fix-nonsense.c\<close> and \<^verbatim>\<open>glycin-fix.c\<close>
  use it, and the contract of their symbol slots. Handles and symbol addresses are numbers, NULL is
  \<^term>\<open>None\<close>; a linker may change between any two calls, because libraries are loaded.
\<close>

record linker =
  rtld_next :: "string \<Rightarrow> nat option"
  noload :: "string \<Rightarrow> nat option"
  sym_of :: "nat \<Rightarrow> string \<Rightarrow> nat option"

type_synonym slots = "string \<Rightarrow> nat option"

text \<open>The first soname that is loaded.\<close>

fun first_loaded :: "(string \<Rightarrow> nat option) \<Rightarrow> string list \<Rightarrow> nat option" where
  "first_loaded f [] = None"
| "first_loaded f (s # ss) = (case f s of Some h \<Rightarrow> Some h | None \<Rightarrow> first_loaded f ss)"

definition loaded_handle :: "linker \<Rightarrow> nat option \<Rightarrow> string list \<Rightarrow> nat option" where
  "loaded_handle ld cache sonames =
     (case cache of Some h \<Rightarrow> Some h | None \<Rightarrow> first_loaded (noload ld) sonames)"

lemma first_loaded_in: "first_loaded f ss = Some h \<Longrightarrow> \<exists>s\<in>set ss. f s = Some h"
  by (induction ss) (auto split: option.splits)

text \<open>
  The symbols a linker gives out are genuine for a set \<open>own\<close> of wrapper addresses when neither
  \<^verbatim>\<open>RTLD_NEXT\<close> nor a handle of the listed libraries leads back into the wrapper. This is
  what the comments of both files rely on when they forbid \<^verbatim>\<open>RTLD_DEFAULT\<close>.
\<close>

definition genuine :: "nat set \<Rightarrow> linker \<Rightarrow> bool" where
  "genuine own ld \<longleftrightarrow>
     (\<forall>name f. rtld_next ld name = Some f \<longrightarrow> f \<notin> own) \<and> (\<forall>h name f. sym_of ld h name = Some f \<longrightarrow> f \<notin> own)"

section \<open>The interface of a resolver\<close>

text \<open>
  A resolver fills the slot it is asked for, keeps a filled slot for ever, touches no other slot, and
  returns what the slot then holds. From this follows, for every sequence of calls, that a wrapper
  always calls the same function once it found it.
\<close>

locale resolver =
  fixes slot_of :: "'s \<Rightarrow> string \<Rightarrow> nat option"
    and resolve_sym :: "linker \<Rightarrow> 's \<Rightarrow> string \<Rightarrow> string \<Rightarrow> 's \<times> nat option"
  assumes keeps: "slot_of st k = Some f \<Longrightarrow> slot_of (fst (resolve_sym ld st slot name)) k = Some f"
    and returns: "snd (resolve_sym ld st slot name) = slot_of (fst (resolve_sym ld st slot name)) slot"
    and others: "k \<noteq> slot \<Longrightarrow> slot_of (fst (resolve_sym ld st slot name)) k = slot_of st k"
    and fresh: "genuine own ld \<Longrightarrow> slot_of st slot = None \<Longrightarrow>
      slot_of (fst (resolve_sym ld st slot name)) slot = Some f \<Longrightarrow> f \<notin> own"
begin

lemma cached: "slot_of st slot = Some f \<Longrightarrow> snd (resolve_sym ld st slot name) = Some f"
  using keeps returns by metis

definition slots_genuine :: "nat set \<Rightarrow> 's \<Rightarrow> bool" where
  "slots_genuine own st \<longleftrightarrow> (\<forall>k f. slot_of st k = Some f \<longrightarrow> f \<notin> own)"

lemma resolve_genuine:
  assumes "genuine own ld" and "slots_genuine own st"
  shows "slots_genuine own (fst (resolve_sym ld st slot name))"
    and "snd (resolve_sym ld st slot name) = Some f \<Longrightarrow> f \<notin> own"
proof -
  show gen: "slots_genuine own (fst (resolve_sym ld st slot name))"
    unfolding slots_genuine_def
  proof (intro allI impI)
    fix k f assume k: "slot_of (fst (resolve_sym ld st slot name)) k = Some f"
    show "f \<notin> own"
    proof (cases "slot_of st k")
      case None
      then have "k = slot" using k others by fastforce
      with None k show ?thesis using fresh [OF assms(1)] by blast
    next
      case (Some g)
      with k keeps have "g = f" by fastforce
      with Some assms(2) show ?thesis by (auto simp: slots_genuine_def)
    qed
  qed
  then show "snd (resolve_sym ld st slot name) = Some f \<Longrightarrow> f \<notin> own"
    using returns by (simp add: slots_genuine_def)
qed

text \<open>A sequence of resolutions, each with its own linker.\<close>

fun run :: "'s \<Rightarrow> (linker \<times> string \<times> string) list \<Rightarrow> 's" where
  "run st [] = st"
| "run st ((ld, slot, name) # rs) = run (fst (resolve_sym ld st slot name)) rs"

lemma run_keeps: "slot_of st k = Some f \<Longrightarrow> slot_of (run st rs) k = Some f"
proof (induction rs arbitrary: st)
  case (Cons r rs)
  then show ?case by (cases r) (simp add: keeps)
qed simp

lemma run_genuine:
  "\<forall>(ld, _)\<in>set rs. genuine own ld \<Longrightarrow> slots_genuine own st \<Longrightarrow> slots_genuine own (run st rs)"
proof (induction rs arbitrary: st)
  case (Cons r rs)
  then show ?case by (cases r) (auto simp: resolve_genuine(1))
qed simp

end

end
