(* ===== verification/Glycin.thy ===== *)
theory Glycin
  imports Linker
begin

text \<open>
  \<^verbatim>\<open>src/lib/glycin-fix.c\<close>: the constructors of glycin loaders are wrapped, and the sandbox
  of every loader they return is switched off. The result of a real function is given by
  \<open>invoke\<close>, from the address and the argument; a wrapper yields the calls it makes in order.
\<close>

record gly_state =
  gly_slots :: slots
  gly_cache :: "nat option"

definition gly_initial :: gly_state where
  "gly_initial = \<lparr>gly_slots = (\<lambda>_. None), gly_cache = None\<rparr>"

definition gly_sonames :: "string list" where
  "gly_sonames = [''libglycin-2.so.0'', ''libglycin-1.so.0'', ''libglycin.so.0'', ''libglycin.so'']"

definition gly_handle :: "linker \<Rightarrow> gly_state \<Rightarrow> gly_state \<times> nat option" where
  "gly_handle ld st =
     (let h = loaded_handle ld (gly_cache st) gly_sonames in (st\<lparr>gly_cache := h\<rparr>, h))"

definition gly_real_sym :: "linker \<Rightarrow> gly_state \<Rightarrow> string \<Rightarrow> string \<Rightarrow> gly_state \<times> nat option" where
  "gly_real_sym ld st slot name =
     (case gly_slots st slot of
        Some f \<Rightarrow> (st, Some f)
      | None \<Rightarrow>
          (case rtld_next ld name of
             Some f \<Rightarrow> (st\<lparr>gly_slots := (gly_slots st)(slot := Some f)\<rparr>, Some f)
           | None \<Rightarrow>
               (let (st, handle) = gly_handle ld st in
                case handle of
                  None \<Rightarrow> (st, None)
                | Some h \<Rightarrow> (st\<lparr>gly_slots := (gly_slots st)(slot := sym_of ld h name)\<rparr>, sym_of ld h name))))"

definition GLY_SANDBOX_SELECTOR_NOT_SANDBOXED :: nat where
  "GLY_SANDBOX_SELECTOR_NOT_SANDBOXED = 3"

text \<open>A call: the address and its arguments. A pointer is a number, NULL is 0.\<close>

type_synonym gly_call = "nat \<times> nat list"

definition force_not_sandboxed :: "linker \<Rightarrow> nat \<Rightarrow> gly_state \<Rightarrow> gly_state \<times> gly_call list" where
  "force_not_sandboxed ld loader st =
     (if loader = 0 then (st, [])
      else
        (let (st, set_sandbox) =
               gly_real_sym ld st ''real_gly_loader_set_sandbox_selector'' ''gly_loader_set_sandbox_selector''
         in case set_sandbox of
              Some f \<Rightarrow> (st, [(f, [loader, GLY_SANDBOX_SELECTOR_NOT_SANDBOXED])])
            | None \<Rightarrow> (st, [])))"

definition gly_loader_wrapper ::
    "string \<Rightarrow> linker \<Rightarrow> (nat \<Rightarrow> nat \<Rightarrow> nat) \<Rightarrow> nat \<Rightarrow> gly_state \<Rightarrow> gly_state \<times> gly_call list \<times> nat" where
  "gly_loader_wrapper name ld invoke arg st =
     (let (st, fn) = gly_real_sym ld st (''real.'' @ name) name;
          loader = (case fn of Some f \<Rightarrow> invoke f arg | None \<Rightarrow> 0);
          calls = (case fn of Some f \<Rightarrow> [(f, [arg])] | None \<Rightarrow> []);
          (st, more) = force_not_sandboxed ld loader st
      in (st, calls @ more, loader))"

definition gly_loader_new ::
    "linker \<Rightarrow> (nat \<Rightarrow> nat \<Rightarrow> nat) \<Rightarrow> nat \<Rightarrow> gly_state \<Rightarrow> gly_state \<times> gly_call list \<times> nat" where
  "gly_loader_new = gly_loader_wrapper ''gly_loader_new''"

definition gly_loader_new_for_stream ::
    "linker \<Rightarrow> (nat \<Rightarrow> nat \<Rightarrow> nat) \<Rightarrow> nat \<Rightarrow> gly_state \<Rightarrow> gly_state \<times> gly_call list \<times> nat" where
  "gly_loader_new_for_stream = gly_loader_wrapper ''gly_loader_new_for_stream''"

definition gly_loader_new_for_bytes ::
    "linker \<Rightarrow> (nat \<Rightarrow> nat \<Rightarrow> nat) \<Rightarrow> nat \<Rightarrow> gly_state \<Rightarrow> gly_state \<times> gly_call list \<times> nat" where
  "gly_loader_new_for_bytes = gly_loader_wrapper ''gly_loader_new_for_bytes''"

section \<open>The contract of the slots\<close>

lemma gly_handle_slots: "gly_handle ld st = (st', h) \<Longrightarrow> gly_slots st' = gly_slots st"
  by (auto simp: gly_handle_def Let_def)

lemmas gly_resolution = gly_real_sym_def gly_handle_slots

interpretation gly: resolver gly_slots gly_real_sym
proof unfold_locales
  fix st k f ld slot name
  show "gly_slots st k = Some f \<Longrightarrow> gly_slots (fst (gly_real_sym ld st slot name)) k = Some f"
    by (auto simp: gly_resolution split: option.splits prod.splits)
  show "snd (gly_real_sym ld st slot name) = gly_slots (fst (gly_real_sym ld st slot name)) slot"
    by (auto simp: gly_resolution split: option.splits prod.splits)
  show "k \<noteq> slot \<Longrightarrow> gly_slots (fst (gly_real_sym ld st slot name)) k = gly_slots st k"
    by (auto simp: gly_resolution split: option.splits prod.splits)
  fix own
  show "genuine own ld \<Longrightarrow> gly_slots st slot = None \<Longrightarrow>
      gly_slots (fst (gly_real_sym ld st slot name)) slot = Some f \<Longrightarrow> f \<notin> own"
    by (auto simp: gly_resolution genuine_def split: option.splits prod.splits)
qed

section \<open>The sandbox is switched off\<close>

lemma gly_wrapper_calls:
  assumes "gly_loader_wrapper name ld invoke arg st = (st', calls, loader)" and "loader \<noteq> 0"
  shows "\<exists>f. gly_slots st' (''real.'' @ name) = Some f \<and> loader = invoke f arg
     \<and> (case gly_slots st' ''real_gly_loader_set_sandbox_selector'' of
          Some g \<Rightarrow> calls = [(f, [arg]), (g, [loader, GLY_SANDBOX_SELECTOR_NOT_SANDBOXED])]
        | None \<Rightarrow> calls = [(f, [arg])])"
proof -
  obtain st1 fn where s1: "gly_real_sym ld st (''real.'' @ name) name = (st1, fn)" by fastforce
  have slot1: "gly_slots st1 (''real.'' @ name) = fn"
    using gly.returns [of ld st "''real.'' @ name" name] s1 by simp
  obtain f where f: "fn = Some f" "loader = invoke f arg"
    using assms s1 by (cases fn) (auto simp: gly_loader_wrapper_def force_not_sandboxed_def Let_def split: prod.splits)
  obtain st2 g where s2: "gly_real_sym ld st1 ''real_gly_loader_set_sandbox_selector'' ''gly_loader_set_sandbox_selector''
      = (st2, g)" by fastforce
  have slot2: "gly_slots st2 ''real_gly_loader_set_sandbox_selector'' = g"
    using gly.returns [of ld st1 "''real_gly_loader_set_sandbox_selector''" "''gly_loader_set_sandbox_selector''"] s2
    by simp
  have "gly_slots st2 (''real.'' @ name) = Some f"
    using gly.keeps [of st1 "''real.'' @ name" f ld] slot1 f(1) s2 by (metis fst_conv)
  with assms s1 f s2 slot2 show ?thesis
    by (auto simp: gly_loader_wrapper_def force_not_sandboxed_def Let_def split: option.splits)
qed

lemma gly_wrapper_safe:
  assumes "gly_loader_wrapper name ld invoke arg st = (st', calls, loader)"
    and "genuine own ld" and "gly.slots_genuine own st"
  shows "gly.slots_genuine own st' \<and> (\<forall>(f, args)\<in>set calls. f \<notin> own)"
proof -
  obtain st1 fn where s1: "gly_real_sym ld st (''real.'' @ name) name = (st1, fn)" by fastforce
  have ok1: "gly.slots_genuine own st1" "\<And>f. fn = Some f \<Longrightarrow> f \<notin> own"
    using gly.resolve_genuine [OF assms(2,3), of "''real.'' @ name" name] s1 by auto
  obtain st2 g where s2: "gly_real_sym ld st1 ''real_gly_loader_set_sandbox_selector'' ''gly_loader_set_sandbox_selector''
      = (st2, g)" by fastforce
  have ok2: "gly.slots_genuine own st2" "\<And>f. g = Some f \<Longrightarrow> f \<notin> own"
    using gly.resolve_genuine [OF assms(2) ok1(1), of "''real_gly_loader_set_sandbox_selector''"
        "''gly_loader_set_sandbox_selector''"] s2 by auto
  from assms(1) s1 s2 ok1 ok2 show ?thesis
    by (auto simp: gly_loader_wrapper_def force_not_sandboxed_def Let_def split: option.splits if_splits)
qed

section \<open>Properties\<close>


definition gly_linker :: linker where
  "gly_linker = \<lparr>rtld_next = (\<lambda>_. None), noload = (\<lambda>s. if s = ''libglycin-1.so.0'' then Some 4 else None),
     sym_of = (\<lambda>h name. if name = ''gly_loader_new'' then Some 5
       else if name = ''gly_loader_set_sandbox_selector'' then Some 6 else None)\<rparr>"


end
