(* ===== verification/GtkFix.thy ===== *)
theory GtkFix
  imports Linker
begin

text \<open>
  \<^verbatim>\<open>src/lib/gtk-fix-nonsense.c\<close>: the window class of a GTK program is forced to
  \<^verbatim>\<open>GTK_WINDOW_CLASS\<close>, and the lookup of private typelibs is moved from
  \<^verbatim>\<open>/usr\<close> into the AppImage. The static variables of the file are a record. A wrapper
  yields the new state, the calls it makes and its result; \<open>invoke\<close> gives the result of a real
  function. A pointer is a number, NULL is 0.
\<close>

datatype gval = PtrV nat | StrV "string option" | IntV nat

type_synonym gcall = "nat \<times> gval list"

record gtk_state =
  g_slots :: slots
  glib_cache :: "nat option"
  gir_cache :: "nat option"
  gtk_init_done :: bool
  override_id :: "string option"
  debug_cached :: "bool option"

definition gtk_initial :: gtk_state where
  "gtk_initial = \<lparr>g_slots = (\<lambda>_. None), glib_cache = None, gir_cache = None, gtk_init_done = False,
     override_id = None, debug_cached = None\<rparr>"

section \<open>Symbols\<close>

definition glib_sonames :: "string list" where
  "glib_sonames = [''libgtk-4.so.1'', ''libgtk-3.so.0'', ''libgdk-3.so.0'', ''libgtk-x11-2.0.so.0'',
     ''libgio-2.0.so.0'', ''libglib-2.0.so.0'', ''libgobject-2.0.so.0'']"

definition gir_sonames :: "string list" where
  "gir_sonames = [''libgirepository-2.0.so.0'', ''libgirepository-1.0.so.1'']"

definition glib_handle :: "linker \<Rightarrow> gtk_state \<Rightarrow> gtk_state \<times> nat option" where
  "glib_handle ld st = (let h = loaded_handle ld (glib_cache st) glib_sonames in (st\<lparr>glib_cache := h\<rparr>, h))"

definition gir_handle :: "linker \<Rightarrow> gtk_state \<Rightarrow> gtk_state \<times> nat option" where
  "gir_handle ld st = (let h = loaded_handle ld (gir_cache st) gir_sonames in (st\<lparr>gir_cache := h\<rparr>, h))"

definition real_sym_with ::
    "(linker \<Rightarrow> gtk_state \<Rightarrow> gtk_state \<times> nat option) \<Rightarrow> linker \<Rightarrow> gtk_state \<Rightarrow> string \<Rightarrow> string
       \<Rightarrow> gtk_state \<times> nat option" where
  "real_sym_with get_handle ld st slot name =
     (case g_slots st slot of
        Some f \<Rightarrow> (st, Some f)
      | None \<Rightarrow>
          (case rtld_next ld name of
             Some f \<Rightarrow> (st\<lparr>g_slots := (g_slots st)(slot := Some f)\<rparr>, Some f)
           | None \<Rightarrow>
               (let (st, handle) = get_handle ld st in
                case handle of
                  None \<Rightarrow> (st, None)
                | Some h \<Rightarrow> (st\<lparr>g_slots := (g_slots st)(slot := sym_of ld h name)\<rparr>, sym_of ld h name))))"

definition real_sym :: "linker \<Rightarrow> gtk_state \<Rightarrow> string \<Rightarrow> string \<Rightarrow> gtk_state \<times> nat option" where
  "real_sym = real_sym_with glib_handle"

definition real_gir_sym :: "linker \<Rightarrow> gtk_state \<Rightarrow> string \<Rightarrow> string \<Rightarrow> gtk_state \<times> nat option" where
  "real_gir_sym = real_sym_with gir_handle"

section \<open>The window class\<close>

definition gtk_init :: "env \<Rightarrow> gtk_state \<Rightarrow> gtk_state" where
  "gtk_init e st =
     (if gtk_init_done st then st
      else st\<lparr>gtk_init_done := True,
              override_id := (case getenv e ''GTK_WINDOW_CLASS'' of Some (c # cs) \<Rightarrow> Some (c # cs) | _ \<Rightarrow> None)\<rparr>)"

definition effective_id :: "gtk_state \<Rightarrow> string option \<Rightarrow> string option" where
  "effective_id st requested = (case override_id st of Some o_id \<Rightarrow> Some o_id | None \<Rightarrow> requested)"

definition g_application_new ::
    "linker \<Rightarrow> env \<Rightarrow> (nat \<Rightarrow> gval list \<Rightarrow> nat) \<Rightarrow> string option \<Rightarrow> nat \<Rightarrow> gtk_state
       \<Rightarrow> gtk_state \<times> gcall list \<times> nat" where
  "g_application_new ld e invoke application_id flags st =
     (let st = gtk_init e st;
          (st, real) = real_sym ld st ''real_g_application_new'' ''g_application_new'';
          args = [StrV (effective_id st application_id), IntV flags]
      in case real of Some f \<Rightarrow> (st, [(f, args)], invoke f args) | None \<Rightarrow> (st, [], 0))"

definition gtk_application_new ::
    "linker \<Rightarrow> env \<Rightarrow> (nat \<Rightarrow> gval list \<Rightarrow> nat) \<Rightarrow> string option \<Rightarrow> nat \<Rightarrow> gtk_state
       \<Rightarrow> gtk_state \<times> gcall list \<times> nat" where
  "gtk_application_new ld e invoke application_id flags st =
     (let st = gtk_init e st;
          (st, real) = real_sym ld st ''real_gtk_application_new'' ''gtk_application_new'';
          args = [StrV (effective_id st application_id), IntV flags]
      in case real of Some f \<Rightarrow> (st, [(f, args)], invoke f args) | None \<Rightarrow> (st, [], 0))"

definition g_application_set_application_id ::
    "linker \<Rightarrow> env \<Rightarrow> nat \<Rightarrow> string option \<Rightarrow> gtk_state \<Rightarrow> gtk_state \<times> gcall list" where
  "g_application_set_application_id ld e app application_id st =
     (let st = gtk_init e st;
          (st, real) = real_sym ld st ''real_g_application_set_application_id'' ''g_application_set_application_id''
      in case real of Some f \<Rightarrow> (st, [(f, [PtrV app, StrV (effective_id st application_id)])]) | None \<Rightarrow> (st, []))"

definition g_set_prgname ::
    "linker \<Rightarrow> env \<Rightarrow> string option \<Rightarrow> gtk_state \<Rightarrow> gtk_state \<times> gcall list" where
  "g_set_prgname ld e prgname st =
     (let st = gtk_init e st;
          (st, real) = real_sym ld st ''real_g_set_prgname'' ''g_set_prgname''
      in case real of Some f \<Rightarrow> (st, [(f, [StrV (effective_id st prgname)])]) | None \<Rightarrow> (st, []))"

definition gdk_surface_set_app_id ::
    "linker \<Rightarrow> env \<Rightarrow> nat \<Rightarrow> string option \<Rightarrow> gtk_state \<Rightarrow> gtk_state \<times> gcall list" where
  "gdk_surface_set_app_id ld e surface app_id st =
     (let st = gtk_init e st;
          (st, real) = real_sym ld st ''real_gdk_surface_set_app_id'' ''gdk_surface_set_app_id''
      in case real of Some f \<Rightarrow> (st, [(f, [PtrV surface, StrV (effective_id st app_id)])]) | None \<Rightarrow> (st, []))"

definition gdk_wayland_window_set_app_id ::
    "linker \<Rightarrow> env \<Rightarrow> nat \<Rightarrow> string option \<Rightarrow> gtk_state \<Rightarrow> gtk_state \<times> gcall list" where
  "gdk_wayland_window_set_app_id ld e window app_id st =
     (let st = gtk_init e st;
          (st, real) = real_sym ld st ''real_gdk_wayland_window_set_app_id'' ''gdk_wayland_window_set_app_id''
      in case real of Some f \<Rightarrow> (st, [(f, [PtrV window, StrV (effective_id st app_id)])]) | None \<Rightarrow> (st, []))"

definition gdk_window_set_app_id ::
    "linker \<Rightarrow> env \<Rightarrow> nat \<Rightarrow> string option \<Rightarrow> gtk_state \<Rightarrow> gtk_state \<times> gcall list" where
  "gdk_window_set_app_id ld e window app_id st =
     (let st = gtk_init e st;
          (st, real) = real_sym ld st ''real_gdk_window_set_app_id'' ''gdk_window_set_app_id''
      in case real of Some f \<Rightarrow> (st, [(f, [PtrV window, StrV (effective_id st app_id)])]) | None \<Rightarrow> (st, []))"

definition g_application_get_application_id ::
    "linker \<Rightarrow> env \<Rightarrow> (nat \<Rightarrow> gval list \<Rightarrow> string option) \<Rightarrow> nat \<Rightarrow> gtk_state
       \<Rightarrow> gtk_state \<times> gcall list \<times> string option" where
  "g_application_get_application_id ld e invoke app st =
     (let st = gtk_init e st in
      case override_id st of
        Some o_id \<Rightarrow> (st, [], Some o_id)
      | None \<Rightarrow>
          (let (st, real) = real_sym ld st ''real_g_application_get_application_id'' ''g_application_get_application_id'' in
           case real of Some f \<Rightarrow> (st, [(f, [PtrV app])], invoke f [PtrV app]) | None \<Rightarrow> (st, [], None)))"

definition g_get_prgname ::
    "linker \<Rightarrow> env \<Rightarrow> (nat \<Rightarrow> gval list \<Rightarrow> string option) \<Rightarrow> gtk_state
       \<Rightarrow> gtk_state \<times> gcall list \<times> string option" where
  "g_get_prgname ld e invoke st =
     (let st = gtk_init e st in
      case override_id st of
        Some o_id \<Rightarrow> (st, [], Some o_id)
      | None \<Rightarrow>
          (let (st, real) = real_sym ld st ''real_g_get_prgname'' ''g_get_prgname'' in
           case real of Some f \<Rightarrow> (st, [(f, [])], invoke f []) | None \<Rightarrow> (st, [], None)))"

definition gtk_class_fix_ctor :: "linker \<Rightarrow> env \<Rightarrow> gtk_state \<Rightarrow> gtk_state \<times> gcall list" where
  "gtk_class_fix_ctor ld e st =
     (let st = gtk_init e st in
      case override_id st of
        None \<Rightarrow> (st, [])
      | Some o_id \<Rightarrow>
          (let (st, real) = real_sym ld st ''real_g_set_prgname'' ''g_set_prgname'' in
           case real of Some f \<Rightarrow> (st, [(f, [StrV (Some o_id)])]) | None \<Rightarrow> (st, [])))"

section \<open>Private typelibs\<close>

definition clear_gi_error :: "linker \<Rightarrow> nat \<Rightarrow> gtk_state \<Rightarrow> gtk_state \<times> gcall list" where
  "clear_gi_error ld error st =
     (let (st, clear) = real_sym ld st ''real_g_clear_error'' ''g_clear_error''
      in case clear of Some f \<Rightarrow> (st, [(f, [PtrV error])]) | None \<Rightarrow> (st, []))"

text \<open>\<open>alloc\<close> is the outcome of \<^verbatim>\<open>malloc\<close>.\<close>

definition remap_typelib_dir :: "env \<Rightarrow> bool \<Rightarrow> string option \<Rightarrow> string option" where
  "remap_typelib_dir e alloc dir =
     (case (getenv e ''APPDIR'', dir) of
        (Some (c # cs), Some dir) \<Rightarrow>
          if strncmp_eq dir ''/usr/'' 5 then (if alloc then Some ((c # cs) @ drop 4 dir) else None)
          else if dir = ''/usr'' then (if alloc then Some (c # cs) else None)
          else None
      | _ \<Rightarrow> None)"

definition debug_enabled :: "env \<Rightarrow> gtk_state \<Rightarrow> gtk_state \<times> bool" where
  "debug_enabled e st =
     (case debug_cached st of
        Some b \<Rightarrow> (st, b)
      | None \<Rightarrow>
          (let b = (case getenv e ''GTK_FIX_NONSENSE_DEBUG'' of Some v \<Rightarrow> v = ''1'' | None \<Rightarrow> False)
           in (st\<lparr>debug_cached := Some b\<rparr>, b)))"

definition require_private_or_search_path ::
    "linker \<Rightarrow> env \<Rightarrow> bool \<Rightarrow> (nat \<Rightarrow> gval list \<Rightarrow> nat) \<Rightarrow> nat \<Rightarrow> string option \<Rightarrow> string option \<Rightarrow> string option
       \<Rightarrow> nat \<Rightarrow> nat \<Rightarrow> string \<Rightarrow> string \<Rightarrow> string \<Rightarrow> string \<Rightarrow> gtk_state \<Rightarrow> gtk_state \<times> gcall list \<times> nat" where
  "require_private_or_search_path ld e alloc invoke repository typelib_dir namespace version flags error
       private_slot require_slot private_sym fallback_sym st =
     (let (st, real_private) = real_gir_sym ld st private_slot private_sym in
      case real_private of
        None \<Rightarrow> (st, [], 0)
      | Some f \<Rightarrow>
          (let dir = (case remap_typelib_dir e alloc typelib_dir of Some m \<Rightarrow> Some m | None \<Rightarrow> typelib_dir);
               args = [PtrV repository, StrV dir, StrV namespace, StrV version, IntV flags, PtrV error];
               typelib = invoke f args
           in if typelib \<noteq> 0 then (st, [(f, args)], typelib)
              else
                (let (st, real_require) = real_gir_sym ld st require_slot fallback_sym in
                 case real_require of
                   None \<Rightarrow> (st, [(f, args)], 0)
                 | Some g \<Rightarrow>
                     (let (st, cleared) = clear_gi_error ld error st;
                          args2 = [PtrV repository, StrV namespace, StrV version, IntV flags, PtrV error];
                          typelib = invoke g args2;
                          st = (if typelib \<noteq> 0 then fst (debug_enabled e st) else st)
                      in (st, (f, args) # cleared @ [(g, args2)], typelib)))))"

definition gi_repository_require_private ::
    "linker \<Rightarrow> env \<Rightarrow> bool \<Rightarrow> (nat \<Rightarrow> gval list \<Rightarrow> nat) \<Rightarrow> nat \<Rightarrow> string option \<Rightarrow> string option \<Rightarrow> string option
       \<Rightarrow> nat \<Rightarrow> nat \<Rightarrow> gtk_state \<Rightarrow> gtk_state \<times> gcall list \<times> nat" where
  "gi_repository_require_private ld e alloc invoke repository typelib_dir namespace version flags error =
     require_private_or_search_path ld e alloc invoke repository typelib_dir namespace version flags error
       ''gi.real_private'' ''gi.real_require'' ''gi_repository_require_private'' ''gi_repository_require''"

definition g_irepository_require_private ::
    "linker \<Rightarrow> env \<Rightarrow> bool \<Rightarrow> (nat \<Rightarrow> gval list \<Rightarrow> nat) \<Rightarrow> nat \<Rightarrow> string option \<Rightarrow> string option \<Rightarrow> string option
       \<Rightarrow> nat \<Rightarrow> nat \<Rightarrow> gtk_state \<Rightarrow> gtk_state \<times> gcall list \<times> nat" where
  "g_irepository_require_private ld e alloc invoke repository typelib_dir namespace version flags error =
     require_private_or_search_path ld e alloc invoke repository typelib_dir namespace version flags error
       ''g_i.real_private'' ''g_i.real_require'' ''g_irepository_require_private'' ''g_irepository_require''"

section \<open>The contract of the slots\<close>

definition keeps_slots :: "(linker \<Rightarrow> gtk_state \<Rightarrow> gtk_state \<times> nat option) \<Rightarrow> bool" where
  "keeps_slots gh \<longleftrightarrow> (\<forall>ld st. g_slots (fst (gh ld st)) = g_slots st
     \<and> override_id (fst (gh ld st)) = override_id st \<and> gtk_init_done (fst (gh ld st)) = gtk_init_done st)"

lemma keeps_slotsE:
  assumes "keeps_slots gh"
  obtains st' h where "gh ld st = (st', h)" "g_slots st' = g_slots st" "override_id st' = override_id st"
    "gtk_init_done st' = gtk_init_done st"
proof (cases "gh ld st")
  case (Pair st' h)
  have "g_slots (fst (gh ld st)) = g_slots st" "override_id (fst (gh ld st)) = override_id st"
    "gtk_init_done (fst (gh ld st)) = gtk_init_done st"
    using assms unfolding keeps_slots_def by blast+
  with Pair that show thesis by simp
qed

lemma resolver_real_sym_with:
  assumes "keeps_slots gh"
  shows "resolver g_slots (real_sym_with gh)"
proof unfold_locales
  fix st k f ld slot name
  obtain st' h where gh: "gh ld st = (st', h)" "g_slots st' = g_slots st"
    using keeps_slotsE [OF assms] by metis
  show "g_slots st k = Some f \<Longrightarrow> g_slots (fst (real_sym_with gh ld st slot name)) k = Some f"
    by (auto simp: real_sym_with_def gh split: option.splits)
  show "snd (real_sym_with gh ld st slot name) = g_slots (fst (real_sym_with gh ld st slot name)) slot"
    by (auto simp: real_sym_with_def gh split: option.splits)
  show "k \<noteq> slot \<Longrightarrow> g_slots (fst (real_sym_with gh ld st slot name)) k = g_slots st k"
    by (auto simp: real_sym_with_def gh split: option.splits)
  fix own
  show "genuine own ld \<Longrightarrow> g_slots st slot = None \<Longrightarrow>
      g_slots (fst (real_sym_with gh ld st slot name)) slot = Some f \<Longrightarrow> f \<notin> own"
    by (auto simp: real_sym_with_def genuine_def gh split: option.splits)
qed

lemma keeps_slots_handles: "keeps_slots glib_handle" "keeps_slots gir_handle"
  by (simp_all add: keeps_slots_def glib_handle_def gir_handle_def Let_def)

interpretation gtk: resolver g_slots real_sym
  unfolding real_sym_def by (rule resolver_real_sym_with) (rule keeps_slots_handles)

interpretation gir: resolver g_slots real_gir_sym
  unfolding real_gir_sym_def by (rule resolver_real_sym_with) (rule keeps_slots_handles)

lemma real_sym_with_override:
  assumes "keeps_slots gh" and "real_sym_with gh ld st slot name = (st', r)"
  shows "override_id st' = override_id st \<and> gtk_init_done st' = gtk_init_done st"
proof -
  obtain st1 h where gh: "gh ld st = (st1, h)" "override_id st1 = override_id st"
    "gtk_init_done st1 = gtk_init_done st"
    using keeps_slotsE [OF assms(1)] by metis
  from assms(2) gh(2,3) show ?thesis
    by (auto simp: real_sym_with_def gh(1) split: option.splits)
qed

lemmas real_sym_override = real_sym_with_override [OF keeps_slots_handles(1), folded real_sym_def]
lemmas real_gir_sym_override = real_sym_with_override [OF keeps_slots_handles(2), folded real_gir_sym_def]

end
