(* ===== verification/GtkSpec.thy ===== *)
theory GtkSpec
  imports GtkFix
begin

text \<open>
  The wrappers of \<^verbatim>\<open>gtk-fix-nonsense.c\<close> as a step relation: at any moment any wrapper may
  be called, with any arguments, in any environment and with any set of loaded libraries. Invariants
  over all runs: the window class never changes after the constructor, and no wrapper ever calls into
  the preload library itself.
\<close>

section \<open>One resolution\<close>

abbreviation gtk_ok :: "nat set \<Rightarrow> gtk_state \<Rightarrow> bool" where
  "gtk_ok \<equiv> gtk.slots_genuine"

lemma real_sym_step:
  assumes "real_sym ld st slot name = (st', r)" and "genuine own ld" and "gtk_ok own st"
  shows "gtk_ok own st'" and "r = Some f \<Longrightarrow> f \<notin> own"
    and "override_id st' = override_id st" and "gtk_init_done st' = gtk_init_done st"
  using gtk.resolve_genuine [OF assms(2,3), of slot name] real_sym_override [OF assms(1)] assms(1) by auto

lemma real_gir_sym_step:
  assumes "real_gir_sym ld st slot name = (st', r)" and "genuine own ld" and "gtk_ok own st"
  shows "gtk_ok own st'" and "r = Some f \<Longrightarrow> f \<notin> own"
    and "override_id st' = override_id st" and "gtk_init_done st' = gtk_init_done st"
  using gir.resolve_genuine [OF assms(2,3), of slot name] real_gir_sym_override [OF assms(1)] assms(1) by auto

lemma gtk_init_ok [simp]: "gtk_ok own (gtk_init e st) = gtk_ok own st"
  by (simp add: gtk.slots_genuine_def gtk_init_def)

lemma gtk_init_done_id: "gtk_init_done st \<Longrightarrow> gtk_init e st = st"
  by (simp add: gtk_init_def)

lemma gtk_initial_ok: "gtk_ok own gtk_initial"
  by (simp add: gtk.slots_genuine_def gtk_initial_def)

section \<open>Steps\<close>

datatype label = ClassCall | TypelibCall

inductive gtk_step :: "linker \<Rightarrow> gtk_state \<Rightarrow> label \<Rightarrow> gcall list \<Rightarrow> gtk_state \<Rightarrow> bool" where
  "g_application_new ld e call_ptr i flags st = (st', tr, r) \<Longrightarrow> gtk_step ld st ClassCall tr st'"
| "gtk_application_new ld e call_ptr i flags st = (st', tr, r) \<Longrightarrow> gtk_step ld st ClassCall tr st'"
| "g_application_set_application_id ld e app i st = (st', tr) \<Longrightarrow> gtk_step ld st ClassCall tr st'"
| "g_set_prgname ld e i st = (st', tr) \<Longrightarrow> gtk_step ld st ClassCall tr st'"
| "gdk_surface_set_app_id ld e w i st = (st', tr) \<Longrightarrow> gtk_step ld st ClassCall tr st'"
| "gdk_wayland_window_set_app_id ld e w i st = (st', tr) \<Longrightarrow> gtk_step ld st ClassCall tr st'"
| "gdk_window_set_app_id ld e w i st = (st', tr) \<Longrightarrow> gtk_step ld st ClassCall tr st'"
| "g_application_get_application_id ld e call_str app st = (st', tr, s) \<Longrightarrow> gtk_step ld st ClassCall tr st'"
| "g_get_prgname ld e call_str st = (st', tr, s) \<Longrightarrow> gtk_step ld st ClassCall tr st'"
| "gtk_class_fix_ctor ld e st = (st', tr) \<Longrightarrow> gtk_step ld st ClassCall tr st'"
| "gi_repository_require_private ld e alloc call_ptr repo dir ns v flags err st = (st', tr, r) \<Longrightarrow>
     gtk_step ld st TypelibCall tr st'"
| "g_irepository_require_private ld e alloc call_ptr repo dir ns v flags err st = (st', tr, r) \<Longrightarrow>
     gtk_step ld st TypelibCall tr st'"

inductive_cases gtk_step_classE: "gtk_step ld st ClassCall tr st'"
inductive_cases gtk_step_typelibE: "gtk_step ld st TypelibCall tr st'"

inductive gtk_run :: "nat set \<Rightarrow> gtk_state \<Rightarrow> (label \<times> gcall list) list \<Rightarrow> gtk_state \<Rightarrow> bool" for own where
  gtk_run_Nil: "gtk_run own st [] st"
| gtk_run_step: "gtk_step ld st l tr st' \<Longrightarrow> genuine own ld \<Longrightarrow> gtk_run own st' trs st'' \<Longrightarrow>
    gtk_run own st ((l, tr) # trs) st''"

definition calls_ok :: "nat set \<Rightarrow> gcall list \<Rightarrow> bool" where
  "calls_ok own tr \<longleftrightarrow> (\<forall>(f, args)\<in>set tr. f \<notin> own)"

definition class_ok :: "string \<Rightarrow> gcall list \<Rightarrow> bool" where
  "class_ok o_id tr \<longleftrightarrow> (\<forall>(f, args)\<in>set tr. \<forall>s. StrV s \<in> set args \<longrightarrow> s = Some o_id)"

lemmas gtk_wrapper_defs = g_application_new_def gtk_application_new_def g_application_set_application_id_def
  g_set_prgname_def gdk_surface_set_app_id_def gdk_wayland_window_set_app_id_def gdk_window_set_app_id_def
  g_application_get_application_id_def g_get_prgname_def gtk_class_fix_ctor_def

lemma class_step_safe:
  assumes "gtk_step ld st ClassCall tr st'" and "genuine own ld" and "gtk_ok own st"
  shows "gtk_ok own st' \<and> calls_ok own tr"
  using assms(1) real_sym_step(1,2) [OF _ assms(2)] assms(3)
  by (cases rule: gtk_step_classE)
    (auto simp: gtk_wrapper_defs Let_def calls_ok_def split: prod.splits option.splits)

lemma class_step_override:
  assumes "gtk_step ld st ClassCall tr st'" and "gtk_init_done st" and "override_id st = Some o_id"
  shows "gtk_init_done st' \<and> override_id st' = Some o_id \<and> class_ok o_id tr"
  using assms(1) real_sym_override assms(2,3)
  by (cases rule: gtk_step_classE)
    (auto simp: gtk_wrapper_defs gtk_init_done_id Let_def class_ok_def effective_id_def
      split: prod.splits option.splits)

section \<open>Typelib lookups\<close>

lemma clear_gi_error_step:
  assumes "clear_gi_error ld error st = (st', tr)" and "genuine own ld" and "gtk_ok own st"
  shows "gtk_ok own st' \<and> calls_ok own tr \<and> override_id st' = override_id st \<and> gtk_init_done st' = gtk_init_done st"
  using assms(1) real_sym_step [OF _ assms(2,3)]
  by (auto simp: clear_gi_error_def calls_ok_def split: prod.splits option.splits)

lemma debug_enabled_same:
  "g_slots (fst (debug_enabled e st)) = g_slots st" "override_id (fst (debug_enabled e st)) = override_id st"
  "gtk_init_done (fst (debug_enabled e st)) = gtk_init_done st"
  by (simp_all add: debug_enabled_def Let_def split: option.split)

lemma debug_enabled_ok: "gtk_ok own (fst (debug_enabled e st)) = gtk_ok own st"
  by (simp add: gtk.slots_genuine_def debug_enabled_same)

lemma require_private_step:
  assumes "require_private_or_search_path ld e alloc call_ptr repo dir ns v flags err ps rs pn rn st = (st', tr, r)"
    and "genuine own ld" and "gtk_ok own st"
  shows "gtk_ok own st' \<and> calls_ok own tr \<and> override_id st' = override_id st \<and> gtk_init_done st' = gtk_init_done st"
proof -
  obtain st1 f1 where s1: "real_gir_sym ld st ps pn = (st1, f1)" by fastforce
  note step1 = real_gir_sym_step [OF s1 assms(2,3)]
  obtain st2 f2 where s2: "real_gir_sym ld st1 rs rn = (st2, f2)" by fastforce
  note step2 = real_gir_sym_step [OF s2 assms(2) step1(1)]
  obtain st3 tr3 where s3: "clear_gi_error ld err st2 = (st3, tr3)" by fastforce
  note step3 = clear_gi_error_step [OF s3 assms(2) step2(1)]
  show ?thesis
    using assms(1) step1 step2 step3
    by (auto simp: require_private_or_search_path_def s1 s2 s3 Let_def calls_ok_def debug_enabled_same
        debug_enabled_ok split: option.splits if_splits)
qed

lemma typelib_step:
  assumes "gtk_step ld st TypelibCall tr st'" and "genuine own ld" and "gtk_ok own st"
  shows "gtk_ok own st' \<and> calls_ok own tr \<and> override_id st' = override_id st \<and> gtk_init_done st' = gtk_init_done st"
  using assms(1)
  by (cases rule: gtk_step_typelibE)
    (auto simp: gi_repository_require_private_def g_irepository_require_private_def
      dest!: require_private_step [OF _ assms(2,3)])

section \<open>Runs\<close>

lemma step_safe:
  assumes "gtk_step ld st l tr st'" and "genuine own ld" and "gtk_ok own st"
  shows "gtk_ok own st' \<and> calls_ok own tr"
  using assms class_step_safe typelib_step by (cases l) blast+

lemma run_safe:
  "gtk_run own st trs st' \<Longrightarrow> gtk_ok own st \<Longrightarrow> gtk_ok own st' \<and> (\<forall>(l, tr)\<in>set trs. calls_ok own tr)"
proof (induction rule: gtk_run.induct)
  case (gtk_run_step ld st l tr st' trs st'')
  then have "gtk_ok own st' \<and> calls_ok own tr" using step_safe by blast
  with gtk_run_step show ?case by simp
qed simp

lemma run_override:
  "gtk_run own st trs st' \<Longrightarrow> gtk_ok own st \<Longrightarrow> gtk_init_done st \<Longrightarrow> override_id st = Some o_id \<Longrightarrow>
     override_id st' = Some o_id \<and> (\<forall>(l, tr)\<in>set trs. l = ClassCall \<longrightarrow> class_ok o_id tr)"
proof (induction rule: gtk_run.induct)
  case (gtk_run_step ld st l tr st' trs st'')
  have ok: "gtk_ok own st'" using step_safe gtk_run_step.hyps(1,2) gtk_run_step.prems(1) by blast
  have "gtk_init_done st' \<and> override_id st' = Some o_id \<and> (l = ClassCall \<longrightarrow> class_ok o_id tr)"
  proof (cases l)
    case ClassCall
    with class_step_override gtk_run_step.hyps(1) gtk_run_step.prems(2,3) show ?thesis by blast
  next
    case TypelibCall
    with typelib_step gtk_run_step.hyps(1,2) gtk_run_step.prems show ?thesis by fastforce
  qed
  with gtk_run_step.IH ok show ?case by simp
qed simp

section \<open>The directory of a typelib\<close>

lemma remap_keeps_layout:
  assumes "getenv e ''APPDIR'' = Some appdir" and "appdir \<noteq> []"
  shows "remap_typelib_dir e True (Some (''/usr'' @ rest)) =
     (if rest = [] \<or> hd rest = slash then Some (appdir @ rest) else None)"
  using assms
  by (cases appdir; cases rest) (auto simp: remap_typelib_dir_def strncmp_eq_def)

lemma remap_other:
  "\<not> prefix ''/usr/'' dir \<Longrightarrow> dir \<noteq> ''/usr'' \<Longrightarrow> remap_typelib_dir e alloc (Some dir) = None"
  using take_eq_take_prefix [of "''/usr/''" dir]
  by (auto simp: remap_typelib_dir_def strncmp_eq_def eval_nat_numeral split: option.splits list.splits)

section \<open>Properties\<close>

text \<open>C7: Once the constructor ran with \<^verbatim>\<open>GTK_WINDOW_CLASS\<close> set, every later call of
  any wrapper, in any order and environment, hands GTK that class and no other, and the class never
  changes.\<close>

theorem window_class_is_forced:
  assumes "getenv e ''GTK_WINDOW_CLASS'' = Some o_id" and "o_id \<noteq> []" and "genuine own ld"
    and "gtk_class_fix_ctor ld e gtk_initial = (st, tr)" and "gtk_run own st trs st'"
  shows "override_id st' = Some o_id \<and> class_ok o_id tr \<and> (\<forall>(l, tr)\<in>set trs. l = ClassCall \<longrightarrow> class_ok o_id tr)"
proof -
  let ?i = "gtk_init e gtk_initial"
  have i: "gtk_init_done ?i" "override_id ?i = Some o_id"
    using assms(1,2) by (auto simp: gtk_init_def gtk_initial_def split: list.split)
  have eq: "gtk_class_fix_ctor ld e ?i = (st, tr)"
    using assms(4) by (simp add: gtk_class_fix_ctor_def gtk_init_done_id i(1))
  have step: "gtk_step ld ?i ClassCall tr st" by (rule gtk_step.intros(10)) (rule eq)
  have "gtk_ok own ?i" by (simp add: gtk_initial_ok)
  then have "gtk_ok own st" using step_safe [OF step assms(3)] by blast
  moreover have "gtk_init_done st \<and> override_id st = Some o_id \<and> class_ok o_id tr"
    by (rule class_step_override [OF step i])
  ultimately show ?thesis using run_override [OF assms(5)] by blast
qed

definition sample_linker :: linker where
  "sample_linker = \<lparr>rtld_next = (\<lambda>name. if name = ''g_set_prgname'' then Some 7 else None), noload = (\<lambda>_. None),
     sym_of = (\<lambda>_ _. None)\<rparr>"

lemma sample_linker_genuine: "genuine {1} sample_linker"
  by (simp add: genuine_def sample_linker_def)

lemma sample_prgname:
  "g_set_prgname sample_linker [] (Some ''x'') (fst (gtk_class_fix_ctor sample_linker [''GTK_WINDOW_CLASS=a.b''] gtk_initial))
     = (fst (gtk_class_fix_ctor sample_linker [''GTK_WINDOW_CLASS=a.b''] gtk_initial), [(7, [StrV (Some ''a.b'')])])"
  by (simp add: g_set_prgname_def gtk_class_fix_ctor_def gtk_init_def gtk_initial_def real_sym_def real_sym_with_def
      sample_linker_def entry_of_def entry_value_def effective_id_def)

lemma window_class_is_forced_witness:
  "override_id (fst (gtk_class_fix_ctor sample_linker [''GTK_WINDOW_CLASS=a.b''] gtk_initial)) = Some ''a.b''
     \<and> class_ok ''a.b'' [(7, [StrV (Some ''a.b'')])]"
proof -
  let ?st = "fst (gtk_class_fix_ctor sample_linker [''GTK_WINDOW_CLASS=a.b''] gtk_initial)"
  have env: "getenv [''GTK_WINDOW_CLASS=a.b''] ''GTK_WINDOW_CLASS'' = Some ''a.b''" by code_simp
  have step: "gtk_step sample_linker ?st ClassCall [(7, [StrV (Some ''a.b'')])] ?st"
    by (rule gtk_step.intros(4)) (rule sample_prgname)
  have run: "gtk_run {1} ?st [(ClassCall, [(7, [StrV (Some ''a.b'')])])] ?st"
    by (rule gtk_run_step [OF step sample_linker_genuine gtk_run_Nil])
  show ?thesis
    using window_class_is_forced [OF env _ sample_linker_genuine prod.collapse [symmetric] run] by simp
qed



text \<open>C28: A private typelib lookup below \<^verbatim>\<open>/usr\<close> never reaches the host: the real function is
  first called with the same layout below \<^verbatim>\<open>APPDIR\<close>, and a result of that call is the result.\<close>

theorem typelib_lookup_moves_to_appdir:
  assumes "getenv e ''APPDIR'' = Some appdir" and "appdir \<noteq> []" and "dir = ''/usr'' @ slash # rest"
    and "require_private_or_search_path ld e True call_ptr repo (Some dir) ns v flags err ps rs pn rn st = (st', tr, r)"
    and "tr \<noteq> []"
  shows "\<exists>f. hd tr = (f, [PtrV repo, StrV (Some (appdir @ slash # rest)), StrV ns, StrV v, IntV flags, PtrV err])
     \<and> (call_ptr f (snd (hd tr)) \<noteq> 0 \<longrightarrow> tr = [hd tr] \<and> r = call_ptr f (snd (hd tr)))"
  using assms(4,5) remap_keeps_layout [OF assms(1,2), of "slash # rest"] assms(3)
  by (auto simp: require_private_or_search_path_def Let_def split: prod.splits option.splits if_splits)

definition gir_linker :: linker where
  "gir_linker = \<lparr>rtld_next = (\<lambda>name. if name = ''gi_repository_require_private'' then Some 9 else None),
     noload = (\<lambda>_. None), sym_of = (\<lambda>_ _. None)\<rparr>"

lemma typelib_lookup_moves_to_appdir_witness:
  "\<exists>f. (9, [PtrV 1, StrV (Some ''/app/lib''), StrV (Some ''Xed''), StrV None, IntV 0, PtrV 2])
       = (f, [PtrV 1, StrV (Some (''/app'' @ ''/lib'')), StrV (Some ''Xed''), StrV None, IntV 0, PtrV 2 :: gval])
     \<and> ((5 :: nat) \<noteq> 0 \<longrightarrow> (5 :: nat) = 5)"
proof -
  let ?args = "[PtrV 1, StrV (Some ''/app/lib''), StrV (Some ''Xed''), StrV None, IntV 0, PtrV 2]"
  let ?st = "gtk_initial\<lparr>g_slots := (g_slots gtk_initial)(''p'' := Some 9)\<rparr>"
  have env: "getenv [''APPDIR=/app''] ''APPDIR'' = Some ''/app''" by code_simp
  have remap: "remap_typelib_dir [''APPDIR=/app''] True (Some ''/usr/lib'') = Some ''/app/lib''" by code_simp
  have call: "require_private_or_search_path gir_linker [''APPDIR=/app''] True (\<lambda>_ _. 5) 1 (Some ''/usr/lib'')
      (Some ''Xed'') None 0 2 ''p'' ''r'' ''gi_repository_require_private'' ''gi_repository_require'' gtk_initial
    = (?st, [(9, ?args)], 5)"
    by (simp add: require_private_or_search_path_def real_gir_sym_def real_sym_with_def gir_linker_def remap
        gtk_initial_def Let_def)
  show ?thesis
    using typelib_lookup_moves_to_appdir [OF env _ _ call, of "''lib''"] by simp
qed

end
