(* ===== verification/Spec2Isabelle.thy ===== *)
theory Spec2Isabelle
  imports Exec Results AnylinuxSpec Glycin GtkSpec
begin

text \<open>
  A model of the C preload libraries of Anylinux-sharun, in \<^verbatim>\<open>src/lib\<close>, with the
  theorems that make them correct. The repository builds a launcher for AppImages (in Rust) and four
  shared objects that are preloaded into the programs it starts:

  \<^item> \<^verbatim>\<open>path-mapping.so\<close> (\<^verbatim>\<open>path-mapping.c\<close> and
    \<^verbatim>\<open>pathmap_common.h\<close>) interposes the C library's path functions and redirects paths by
    a table FROM to TO that it reads from \<^verbatim>\<open>PATH_MAPPING\<close>;
  \<^item> \<^verbatim>\<open>anylinux.so\<close> (\<^verbatim>\<open>anylinux.c\<close>) cleans the environment of the programs
    that an AppImage starts;
  \<^item> \<^verbatim>\<open>gtk-fix-nonsense.so\<close> forces the window class and moves typelib lookups;
  \<^item> \<^verbatim>\<open>glycin-fix.so\<close> switches the sandbox of glycin loaders off.

  The theories, in the order in which they build on each other:

  \<^item> \<open>CString\<close>: C strings as lists of characters, the functions of \<^verbatim>\<open>string.h\<close>,
    and \<open>cptr\<close>, the result of a function that returns its argument (\<open>Same\<close>) or its output
    buffer (\<open>New\<close>). The prelude of the development.
  \<^item> \<open>PathCore\<close>: \<^verbatim>\<open>pm_pathlen\<close>, \<^verbatim>\<open>pm_path_prefix_matches\<close>, and paths as
    lists of segments (\<open>path_of\<close>), the abstract level of most theorems.
  \<^item> \<open>Normalize\<close>: \<^verbatim>\<open>pm_normalize_path_inplace\<close> and its meaning \<open>resolve\<close>. A write
    outside the local buffer of 4096 bytes is the value \<open>None\<close>.
  \<^item> \<open>Capture\<close>: \<^verbatim>\<open>pm_capture_stars\<close>; a capture is the rest of the path where it starts,
    and its length.
  \<^item> \<open>Config\<close>: \<^verbatim>\<open>struct pm_mapping_config\<close>, the parser of the table, the loading of
    mappings and exclusions, the prefix tests.
  \<^item> \<open>Forward\<close>, \<open>ForwardSpec\<close>: \<^verbatim>\<open>pm_apply_mapping_with_config\<close>; on segments it is
    \<open>seg_map\<close>, and on globs it fills TO with the captures.
  \<^item> \<open>Reverse\<close>, \<open>ReverseSpec\<close>: \<^verbatim>\<open>pm_apply_reverse_mapping_with_config\<close> with the
    wrap-around of \<^verbatim>\<open>size_t\<close>, the reversal of results, and the round trip with the forward mapping.
  \<^item> \<open>FixPath\<close>, \<open>FixPathSpec\<close>: \<^verbatim>\<open>pm_fix_path_common\<close>, symbolic links, the common
    configuration and \<^verbatim>\<open>argv[0]\<close>. The locale \<open>buffer_mapper\<close> is the contract of the mapping
    functions with their callers' buffers. \<open>fix_spec\<close> is the specification: exclusions, then the
    lookup, both on resolved segments.
  \<^item> \<open>Cwd\<close>: the working directory at startup and the constructor \<^verbatim>\<open>path_mapping_init\<close>.
  \<^item> \<open>Overrides\<close>, \<open>OverridesSpec\<close>: the interposed functions that only take paths. A wrapper is the
    call it makes to the next library (\<open>lib_call\<close>).
  \<^item> \<open>Exec\<close>: the \<^verbatim>\<open>exec\<close> family and \<^verbatim>\<open>posix_spawn\<close> of path-mapping.
  \<^item> \<open>Results\<close>: the interposed functions whose results are reversed, with the next library's function
    as an argument.
  \<^item> \<open>EnvStore\<close>, \<open>Anylinux\<close>, \<open>AnylinuxSpec\<close>: the environment as an array of strings, which interprets
    the locale \<open>env_store\<close>, and \<^verbatim>\<open>anylinux.c\<close> over it.
  \<^item> \<open>Linker\<close>, \<open>Glycin\<close>, \<open>GtkFix\<close>, \<open>GtkSpec\<close>: the dynamic linker, the contract \<open>resolver\<close> of
    the symbol slots with its three interpretations, the two small libraries, and for GTK a step relation
    over all wrappers with invariants of all runs.

  State. \<^verbatim>\<open>g_config\<close> and the static variables of each file are records that the functions
  take and return. Errors and early returns are values: \<open>None\<close> of an option for undefined behaviour
  or a write outside a buffer, \<open>Same\<close> for an unchanged path, a sum with an error type for
  \<^verbatim>\<open>errno\<close>. Paths are never NULL where the model takes a string; functions that test for NULL
  take an option. Loops are structural recursions, or functions with a measure on the rest of the pattern
  or of the environment string, so no fuel is needed.

  What is not under \<^verbatim>\<open>src\<close> is a parameter: \<^verbatim>\<open>fnmatch\<close>, the operating
  system (\<open>os_view\<close>, with \<open>os_ok\<close> for the documented bound of \<^verbatim>\<open>readlink\<close>),
  the C library's functions behind the wrappers, the dynamic linker (with \<open>genuine\<close> for the rule that
  \<^verbatim>\<open>RTLD_NEXT\<close> does not lead back), the outcome of allocations where the code tests it.
  \<^verbatim>\<open>strdup\<close> and the untested allocations are taken to succeed.

  What the lemmas show. Bounds: no buffer of the path libraries is overrun, for any input. Meaning: the byte
  loops compute lookups on segment lists, for every spelling of a path. Round trips: the forward and the
  reverse mapping invert each other under stated conditions, and so do the parser and its printer, and
  captures and substitution. Safety: excluded paths stay, external programs get a clean environment,
  wrappers do not call themselves. Some theorems show where the code does not do what it means to: globs
  with a question mark, stale captures, the length that wraps around in the reverse mapping, the gaps of the
  environment cleaning.

  Not modelled: the Rust launcher, the debug messages, the frees of temporary arguments, threads (the
  constructors run before any), and 64-bit file types, which pass through as opaque numbers.
\<close>

section \<open>Changing to a directory and asking for it\<close>

text \<open>C2: A program that changes to a mapped directory is told the directory it asked for: the system
  call gets the mapped directory, and when the kernel then reports that directory,
  \<^verbatim>\<open>getcwd\<close> returns the resolved name the program used. This needs TOs of which none
  starts another.\<close>

theorem chdir_then_getcwd:
  assumes "seg_common es ms (g_config st)" and "\<not> relsymlink (g_config st)"
    and "is_absolute p" and "length p + 1 < MAX_PATH"
    and "fix_spec es ms (resolve p) = Some ss'"
    and "length (path_of ss') + 2 < MAX_PATH" and "length (path_of (resolve p)) + 1 < MAX_PATH"
    and "list_all (\<lambda>m. \<not> is_glob_pattern (path_of (snd m)) \<and> snd m \<noteq> []) ms" and "tos_unrelated ms"
    and "sizes_ok (path_of ss') (mappings (mapping_config (g_config st)))"
  shows "(\<exists>r. chdir st (Some p) = Some (libc ''SYS_chdir'' [PathArg (Some r)])
             \<and> (r = path_of ss' \<or> r = path_of ss' @ [slash]))
     \<and> getcwd st True (Some (path_of ss')) True 0 = Some (Inr (path_of (resolve p)))"
proof
  have cfg: "mappings (mapping_config (g_config st)) = seg_config True ms" "list_all seg_mapping_ok ms"
    using assms(1) by (simp_all add: seg_common_def)
  have abs: "abs_name cwd p = p" for cwd using assms(3) by (rule abs_name_absolute)
  note dot = absolute_not_bare [OF assms(3)]
  show "\<exists>r. chdir st (Some p) = Some (libc ''SYS_chdir'' [PathArg (Some r)])
             \<and> (r = path_of ss' \<or> r = path_of ss' @ [slash])"
    using fix_path_segments [OF assms(1,2) disjI1 [OF assms(3)], unfolded abs, OF assms(4), of "''chdir''"
        "st_fnmatch st" "st_os st" MAX_PATH] dot assms(5,6)
    by (auto simp: chdir_def fixed_def fix_path_def deref_opt_def)
  have "seg_map ms (resolve p) = Some ss'"
    using assms(5) by (simp add: fix_spec_def split: if_splits)
  then have "pm_apply_mapping_with_config (st_fnmatch st) (path_of (resolve p)) MAX_PATH (mapping_config (g_config st))
      = New (path_of ss')"
    using forward_refines_seg_map [OF cfg resolve_ok [of p]] assms(6) by simp
  from forward_then_reverse [OF cfg resolve_ok assms(8,9,10) _ assms(7) this]
  have "pm_apply_reverse_mapping_with_config (st_fnmatch st) (path_of ss') MAX_PATH (mapping_config (g_config st))
      = Some (New (path_of (resolve p)))"
    by (simp add: MAX_PATH_def)
  then show "getcwd st True (Some (path_of ss')) True 0 = Some (Inr (path_of (resolve p)))"
    by (simp add: getcwd_def shown_cwd_def)
qed

lemma chdir_then_getcwd_witness:
  "(\<exists>r. chdir sample_state (Some ''/usr/lib/../share'') = Some (libc ''SYS_chdir'' [PathArg (Some r)])
       \<and> (r = ''/app/share'' \<or> r = ''/app/share/''))
   \<and> getcwd sample_state True (Some ''/app/share'') True 0 = Some (Inr ''/usr/share'')"
proof -
  have res: "resolve ''/usr/lib/../share'' = [''usr'', ''share'']"
    by (simp add: resolve_def resolve_step_def)
  have cfg: "seg_common [[''usr'', ''keep'']] [([''usr''], [''app''])] (g_config sample_state)"
    using sample_config_ok by (simp add: sample_state_def)
  show ?thesis
    using chdir_then_getcwd [OF cfg, of "''/usr/lib/../share''" "[''app'', ''share'']", unfolded res]
    by (simp add: sample_state_def sample_config_def is_absolute_def MAX_PATH_def fix_spec_def seg_map_def
        is_glob_pattern_def tos_unrelated_def sizes_ok_def seg_config_def SIZE_MOD_def)
qed

section \<open>Where the wrappers treat paths unevenly\<close>

definition gap_os :: os_view where
  "gap_os = \<lparr>os_readlink = (\<lambda>p n. if p = ''/proc/self/fd/3'' then Some (6, ''/tmp/f'')
       else if p = ''/proc/self/cwd'' then Some (6, ''/usr/d'') else Some (- 1, [])),
     os_is_symlink = (\<lambda>p. False), os_is_dir = (\<lambda>p. True)\<rparr>"

definition gap_state :: lib_state where
  "gap_state = \<lparr>st_fnmatch = (\<lambda>_ _. False), st_os = gap_os, g_config = sample_config\<rparr>"

definition chained_state :: lib_state where
  "chained_state = gap_state\<lparr>g_config := sample_config\<lparr>mapping_config :=
     \<lparr>mappings = seg_config True [([''vv''], [''rr'']), ([''zz''], [''vv''])], excludes = []\<rparr>\<rparr>\<rparr>"

lemma chained_fnmatch: "st_fnmatch chained_state = (\<lambda>_ _. False)"
  by (simp add: chained_state_def gap_state_def)

lemma chained_excludes: "excludes (mapping_config (g_config chained_state)) = []"
  by (simp add: chained_state_def)

lemma chained_reverse:
  assumes "s \<in> {''rr'', ''vv''}"
  shows "pm_apply_reverse_mapping_with_config fnm (slash # s) MAX_PATH (mapping_config (g_config chained_state))
     = Some (New (if s = ''rr'' then ''/vv'' else ''/zz''))"
  using assms reverse_refines_seg_pick [of "mapping_config (g_config chained_state)" True
      "[([''vv''], [''rr'']), ([''zz''], [''vv''])]" "[s]" MAX_PATH fnm]
  by (auto simp: chained_state_def seg_mapping_ok_def seg_ok_def is_glob_pattern_def MAX_PATH_def sizes_ok_def
      SIZE_MOD_def seg_config_def)

lemma chained_readlink_path: "fixed chained_state ''readlink'' (Some ''/proc/self/cwd'') = Some (Some ''/proc/self/cwd'')"
  by code_simp

lemma proc_self_cwd: "pm_is_proc_cwd_path ''/proc/self/cwd''"
  by code_simp


end
